theory Spec2Isabelle
  imports Complex_Main
begin

section \<open>Numbers\<close>

text \<open>
  The source computes with \<^verbatim>\<open>number\<close> (a C++ \<^verbatim>\<open>double\<close>). Inputs (coordinates, radii,
  spline coefficients, parameters) are taken to be finite and are modelled as \<^typ>\<open>real\<close>.
  In the branch geometry, the spline fit and the resampling the arithmetic is that of the
  reals: rounding and overflow are not modelled there, and what is proved is about the
  formulas of the code. In the decomposition into neurites the choice of the child that
  continues a neurite depends on the rounding itself, and the operations are taken in
  double precision (see below). Where the source divides or takes a square root
  without a guard, the result is a \<open>number\<close>: a finite real, one of the two IEEE infinities,
  or NaN, combined by the IEEE rules for the special values. A zero divisor is taken as
  \<open>+0\<close>: the zero divisors of the code modelled here are results of \<^verbatim>\<open>sqrt\<close> or sums of
  distances.
\<close>

datatype number = Fin real | PInf | NInf | NaN

definition signed_inf :: "real \<Rightarrow> number" where
  "signed_inf s = (if 0 < s then PInf else if s < 0 then NInf else NaN)"

fun fneg :: "number \<Rightarrow> number" where
  "fneg (Fin a) = Fin (- a)"
| "fneg PInf = NInf"
| "fneg NInf = PInf"
| "fneg NaN = NaN"

fun fadd :: "number \<Rightarrow> number \<Rightarrow> number" where
  "fadd (Fin a) (Fin b) = Fin (a + b)"
| "fadd NaN _ = NaN"
| "fadd _ NaN = NaN"
| "fadd PInf NInf = NaN"
| "fadd NInf PInf = NaN"
| "fadd PInf _ = PInf"
| "fadd NInf _ = NInf"
| "fadd (Fin a) PInf = PInf"
| "fadd (Fin a) NInf = NInf"

definition fsub :: "number \<Rightarrow> number \<Rightarrow> number" where
  "fsub x y = fadd x (fneg y)"

fun fmul :: "number \<Rightarrow> number \<Rightarrow> number" where
  "fmul (Fin a) (Fin b) = Fin (a * b)"
| "fmul NaN _ = NaN"
| "fmul _ NaN = NaN"
| "fmul PInf (Fin b) = signed_inf b"
| "fmul NInf (Fin b) = signed_inf (- b)"
| "fmul (Fin a) PInf = signed_inf a"
| "fmul (Fin a) NInf = signed_inf (- a)"
| "fmul PInf PInf = PInf"
| "fmul PInf NInf = NInf"
| "fmul NInf PInf = NInf"
| "fmul NInf NInf = PInf"

fun fdiv :: "number \<Rightarrow> number \<Rightarrow> number" where
  "fdiv (Fin a) (Fin b) = (if b = 0 then signed_inf a else Fin (a / b))"
| "fdiv NaN _ = NaN"
| "fdiv _ NaN = NaN"
| "fdiv (Fin a) PInf = Fin 0"
| "fdiv (Fin a) NInf = Fin 0"
| "fdiv PInf (Fin b) = (if 0 \<le> b then PInf else NInf)"
| "fdiv NInf (Fin b) = (if 0 \<le> b then NInf else PInf)"
| "fdiv PInf _ = NaN"
| "fdiv NInf _ = NaN"

fun fsqrt :: "number \<Rightarrow> number" where
  "fsqrt (Fin a) = (if a < 0 then NaN else Fin (sqrt a))"
| "fsqrt PInf = PInf"
| "fsqrt NInf = NaN"
| "fsqrt NaN = NaN"

text \<open>The comparison \<^verbatim>\<open><\<close> of two doubles; every comparison with NaN is false.\<close>

fun flt :: "number \<Rightarrow> number \<Rightarrow> bool" where
  "flt (Fin a) (Fin b) = (a < b)"
| "flt NaN _ = False"
| "flt _ NaN = False"
| "flt NInf NInf = False"
| "flt NInf _ = True"
| "flt PInf _ = False"
| "flt (Fin a) PInf = True"
| "flt (Fin a) NInf = False"

text \<open>\<^verbatim>\<open>std::min(a, b)\<close> is \<^verbatim>\<open>(b < a) ? b : a\<close> and \<^verbatim>\<open>std::max(a, b)\<close> is \<^verbatim>\<open>(a < b) ? b : a\<close>.\<close>

definition std_min :: "number \<Rightarrow> number \<Rightarrow> number" where
  "std_min a b = (if flt b a then b else a)"

definition std_max :: "number \<Rightarrow> number \<Rightarrow> number" where
  "std_max a b = (if flt a b then b else a)"

text \<open>
  Double precision (IEEE 754 binary64) in the normal range, without overflow and
  subnormal numbers: the exact result of an operation is rounded to the nearest number
  with a significand of 53 bits, a tie to the one with the even significand. A number
  \<open>x \<noteq> 0\<close> is divided by the unit \<open>u\<close> of its binade, which brings it between \<open>2^52\<close> and
  \<open>2^53\<close> in absolute value, and the quotient is rounded to an integer.
\<close>

definition round_even :: "real \<Rightarrow> int" where
  "round_even q =
     (let f = \<lfloor>q\<rfloor>
      in if q - of_int f < 1 / 2 then f
         else if 1 / 2 < q - of_int f then f + 1
         else if even f then f else f + 1)"

definition round_double :: "real \<Rightarrow> real" where
  "round_double x =
     (if x = 0 then 0
      else let u = 2 powr (of_int \<lfloor>log 2 \<bar>x\<bar>\<rfloor> - 52)
           in of_int (round_even (x / u)) * u)"

text \<open>The operations \<^verbatim>\<open>+\<close>, \<^verbatim>\<open>-\<close>, \<^verbatim>\<open>*\<close>, \<^verbatim>\<open>/\<close> and \<^verbatim>\<open>sqrt\<close> on doubles.\<close>

definition d_add :: "real \<Rightarrow> real \<Rightarrow> real" where
  "d_add a b = round_double (a + b)"

definition d_sub :: "real \<Rightarrow> real \<Rightarrow> real" where
  "d_sub a b = round_double (a - b)"

definition d_mul :: "real \<Rightarrow> real \<Rightarrow> real" where
  "d_mul a b = round_double (a * b)"

definition d_div :: "real \<Rightarrow> real \<Rightarrow> real" where
  "d_div a b = round_double (a / b)"

definition d_sqrt :: "real \<Rightarrow> real" where
  "d_sqrt a = round_double (sqrt a)"

text \<open>
  \<^verbatim>\<open>acos\<close> of the C library: NaN for an argument outside \<open>[-1, 1]\<close>. Inside, the model takes
  the rounded value of the arc cosine; the value of the library may differ from it in the
  last place.
\<close>

definition d_acos :: "real \<Rightarrow> number" where
  "d_acos x = (if - 1 \<le> x \<and> x \<le> 1 then Fin (round_double (arccos x)) else NaN)"

section \<open>Vectors\<close>

text \<open>
  \<^verbatim>\<open>vector3\<close> and its operations belong to the ug4 library; they are modelled by their
  documented meaning (\<^verbatim>\<open>VecNormalize\<close> leaves a vector of length zero unchanged).
\<close>

type_synonym vector3 = "real \<times> real \<times> real"

fun VecSubtract :: "vector3 \<Rightarrow> vector3 \<Rightarrow> vector3" where
  "VecSubtract (a0, a1, a2) (b0, b1, b2) = (a0 - b0, a1 - b1, a2 - b2)"

fun VecProd :: "vector3 \<Rightarrow> vector3 \<Rightarrow> real" where
  "VecProd (a0, a1, a2) (b0, b1, b2) = a0 * b0 + a1 * b1 + a2 * b2"

definition VecNormSquared :: "vector3 \<Rightarrow> real" where
  "VecNormSquared v = VecProd v v"

definition VecLength :: "vector3 \<Rightarrow> real" where
  "VecLength v = sqrt (VecNormSquared v)"

definition VecDistance :: "vector3 \<Rightarrow> vector3 \<Rightarrow> real" where
  "VecDistance a b = VecLength (VecSubtract a b)"

fun VecScale :: "vector3 \<Rightarrow> real \<Rightarrow> vector3" where
  "VecScale (a0, a1, a2) s = (a0 * s, a1 * s, a2 * s)"

definition VecNormalize :: "vector3 \<Rightarrow> vector3" where
  "VecNormalize v = (if 0 < VecLength v then VecScale v (1 / VecLength v) else v)"

text \<open>A vector whose components may be non-finite, and the two operations used on it.\<close>

type_synonym nvector3 = "number \<times> number \<times> number"

fun nVecScale :: "vector3 \<Rightarrow> number \<Rightarrow> nvector3" where
  "nVecScale (a0, a1, a2) s = (fmul (Fin a0) s, fmul (Fin a1) s, fmul (Fin a2) s)"

fun nVecProd :: "nvector3 \<Rightarrow> vector3 \<Rightarrow> number" where
  "nVecProd (a0, a1, a2) (b0, b1, b2) =
     fadd (fadd (fmul a0 (Fin b0)) (fmul a1 (Fin b1))) (fmul a2 (Fin b2))"

text \<open>
  The operations in double precision, as the decomposition into neurites uses them:
  \<^verbatim>\<open>VecProd\<close> sums the products of the components from the first to the last,
  \<^verbatim>\<open>VecLength\<close> is the square root of the product of the vector with itself, and
  \<^verbatim>\<open>VecNormalize\<close> scales a vector of positive length by \<open>1 / length\<close>.
\<close>

fun VecSubtract_d :: "vector3 \<Rightarrow> vector3 \<Rightarrow> vector3" where
  "VecSubtract_d (a0, a1, a2) (b0, b1, b2) = (d_sub a0 b0, d_sub a1 b1, d_sub a2 b2)"

fun VecProd_d :: "vector3 \<Rightarrow> vector3 \<Rightarrow> real" where
  "VecProd_d (a0, a1, a2) (b0, b1, b2) = d_add (d_add (d_mul a0 b0) (d_mul a1 b1)) (d_mul a2 b2)"

definition VecLength_d :: "vector3 \<Rightarrow> real" where
  "VecLength_d v = d_sqrt (VecProd_d v v)"

fun VecScale_d :: "vector3 \<Rightarrow> real \<Rightarrow> vector3" where
  "VecScale_d (a0, a1, a2) s = (d_mul a0 s, d_mul a1 s, d_mul a2 s)"

definition VecNormalize_d :: "vector3 \<Rightarrow> vector3" where
  "VecNormalize_d v =
     (let len = VecLength_d v in if 0 < len then VecScale_d v (d_div 1 len) else v)"

declare VecSubtract_d.simps [simp del] VecProd_d.simps [simp del] VecScale_d.simps [simp del]

section \<open>Neurites\<close>

text \<open>
  \<^verbatim>\<open>NeuriteProjector::Section\<close>: the end parameter and four cubics, each
  \<^verbatim>\<open>number[4]\<close> with the cubic coefficient first, in the monomial \<open>endParam - t\<close>.
\<close>

type_synonym spline = "real \<times> real \<times> real \<times> real"

record Section =
  endParam :: real
  splineParamsX :: spline
  splineParamsY :: spline
  splineParamsZ :: spline
  splineParamsR :: spline

text \<open>
  A branching region holds its axial position and the (shared) branching point, of which
  only the list \<^verbatim>\<open>vNid\<close> of participating neurite ids is read here.
\<close>

record BranchingPoint =
  vNid :: "nat list"

record BranchingRegion =
  br_t :: real   \<comment> \<open>the field \<^verbatim>\<open>t\<close>\<close>
  bp :: BranchingPoint

record Neurite =
  refDir :: vector3
  vSec :: "Section list"
  vBR :: "BranchingRegion list"

datatype error =
    SectionNotFound          \<comment> \<open>"Could not find section containing branching point"\<close>
  | IndexOutOfRange          \<comment> \<open>an unchecked read outside a vector: undefined behaviour\<close>
  | StdOutOfRange            \<comment> \<open>\<^verbatim>\<open>std::vector::at\<close> outside the vector\<close>
  | RadiusTooSmall           \<comment> \<open>"r = ... at t = ...!"\<close>
  | WrongSectionIterator     \<comment> \<open>"Wrong section iterator given to calc_length_over_radius()"\<close>
  | ConversionOutOfRange     \<comment> \<open>a double outside the range of \<^verbatim>\<open>size_t\<close> converted to it\<close>
  | InvertFailed             \<comment> \<open>"Failed to invert moment matrix for spline calculation."\<close>
  | DivisionByZero           \<comment> \<open>no exception of the source: marks a division by 0 in the spline fit\<close>
  | NoSoma                   \<comment> \<open>"No soma contained in (non-empty) list of unprocessed SWC points"\<close>
  | MoreThanOneSoma          \<comment> \<open>"Detected neuron with more than one soma."\<close>
  | OnlyOneBranchingChild    \<comment> \<open>"This implementation can only handle branching points with one branching child."\<close>

text \<open>The velocity component \<^verbatim>\<open>v = -3.0*s[0]*t - 2.0*s[1]; v = v*t - s[2]\<close>.\<close>

fun spline_velocity :: "spline \<Rightarrow> real \<Rightarrow> real" where
  "spline_velocity (s0, s1, s2, s3) t = (- 3 * s0 * t - 2 * s1) * t - s2"

text \<open>The value \<^verbatim>\<open>r = s[0]*t + s[1]; r = r*t + s[2]; r = r*t + s[3]\<close>.\<close>

fun spline_value :: "spline \<Rightarrow> real \<Rightarrow> real" where
  "spline_value (s0, s1, s2, s3) t = ((s0 * t + s1) * t + s2) * t + s3"

definition section_velocity :: "Section \<Rightarrow> real \<Rightarrow> vector3" where
  "section_velocity sec t =
     (spline_velocity (splineParamsX sec) t,
      spline_velocity (splineParamsY sec) t,
      spline_velocity (splineParamsZ sec) t)"

text \<open>
  \<^verbatim>\<open>neurite_length\<close> of \<^verbatim>\<open>create_neurite\<close> and \<^verbatim>\<open>create_neurite_with_er\<close>: the sum of the
  distances of consecutive support points.
\<close>

fun neurite_length :: "vector3 list \<Rightarrow> real" where
  "neurite_length (p # q # ps) = VecDistance q p + neurite_length (q # ps)"
| "neurite_length _ = 0"

section \<open>Branch geometry\<close>

text \<open>
  The search \<^verbatim>\<open>for (brSec = curSec; brSec < nSec; ++brSec) if (bpTPos - sec.endParam < 1e-6*bpTPos) break;\<close>
\<close>

fun first_section :: "Section list \<Rightarrow> real \<Rightarrow> nat \<Rightarrow> nat" where
  "first_section [] bpTPos k = k"
| "first_section (sec # secs) bpTPos k =
     (if bpTPos - endParam sec < 1 / 1000000 * bpTPos then k
      else first_section secs bpTPos (Suc k))"

definition find_brSec :: "Section list \<Rightarrow> nat \<Rightarrow> real \<Rightarrow> nat" where
  "find_brSec secs curSec bpTPos = first_section (drop curSec secs) bpTPos curSec"

text \<open>
  The direction of the parent at the end of section \<open>brSec\<close>:
  \<^verbatim>\<open>vel[0] = -sec.splineParamsX[2]; ...; velNorm = sqrt(VecNormSquared(vel)); VecScale(neuriteDir, vel, 1.0/velNorm)\<close>.
\<close>

fun coeff2 :: "spline \<Rightarrow> real" where
  "coeff2 (s0, s1, s2, s3) = s2"

definition section_end_velocity :: "Section \<Rightarrow> vector3" where
  "section_end_velocity sec =
     (- coeff2 (splineParamsX sec), - coeff2 (splineParamsY sec), - coeff2 (splineParamsZ sec))"

definition neuriteDir_at :: "Section \<Rightarrow> nvector3" where
  "neuriteDir_at sec =
     (let vel = section_end_velocity sec;
          velNorm = sqrt (VecNormSquared vel)
      in nVecScale vel (fdiv (Fin 1) (Fin velNorm)))"

text \<open>The initial direction of the child: its velocity at \<open>t = 0\<close>, normalised.\<close>

definition branchDir_of :: "Section \<Rightarrow> vector3" where
  "branchDir_of childSec = VecNormalize (section_velocity childSec (endParam childSec))"

text \<open>
  \<^verbatim>\<open>brScProd = VecProd(neuriteDir, branchDir)\<close>, the cosine of the branching angle, here
  without rounding: for collinear tangents it is 1 or -1, where the double of the code
  may differ from that in the last place. No statement below is about the values that
  the division by \<^verbatim>\<open>sqrt(1.0 - brScProd*brScProd)\<close> yields for collinear tangents.
\<close>

definition brScProd_of :: "Section \<Rightarrow> Section \<Rightarrow> number" where
  "brScProd_of sec childSec = nVecProd (neuriteDir_at sec) (branchDir_of childSec)"

text \<open>
  What one pass of the loop over the branches computes before it updates the extent of the
  branching region. The lines are the same in \<^verbatim>\<open>create_neurite\<close> and
  \<^verbatim>\<open>create_neurite_with_er\<close>.
\<close>

record branch_geom =
  g_bpTPos :: real
  g_surfBPoffset :: number
  g_branchOffset :: number
  g_surfBPhalfLength :: number

definition branch_geometry ::
  "Neurite list \<Rightarrow> real list list \<Rightarrow> nat \<Rightarrow> nat \<Rightarrow> BranchingRegion \<Rightarrow> nat \<Rightarrow> error + branch_geom" where
  "branch_geometry vNeurites vR nid curSec brit brInd =
     (if \<not> (nid < length vNeurites \<and> nid < length vR) then Inl IndexOutOfRange
      else if \<not> (brInd < length vR \<and> 0 < length (vR ! brInd)) then Inl IndexOutOfRange
      else
        let neurite = vNeurites ! nid;
            nSec = length (vSec neurite);
            brRadSeg1 = vR ! brInd ! 0;
            bpTPos = br_t brit;
            brSec = find_brSec (vSec neurite) curSec bpTPos
        in if brSec = nSec then Inl SectionNotFound
           else if \<not> brSec + 1 < length (vR ! nid) then Inl IndexOutOfRange
           else if \<not> (brInd < length vNeurites \<and> 0 < length (vSec (vNeurites ! brInd)))
             then Inl IndexOutOfRange
           else if \<not> brSec < nSec then Inl StdOutOfRange
           else
             let bpRad = vR ! nid ! (brSec + 1);
                 childSec = vSec (vNeurites ! brInd) ! 0;
                 sec = vSec neurite ! brSec;
                 brScProd = brScProd_of sec childSec;
                 sinAlphaInv = fdiv (Fin 1) (fsqrt (fsub (Fin 1) (fmul brScProd brScProd)));
                 surfBPoffset = fmul (fmul (Fin (1 / 2 * sqrt 2 * bpRad)) brScProd) sinAlphaInv;
                 branchOffset = fmul (Fin (1 / 2 * sqrt 2 * bpRad)) sinAlphaInv;
                 surfBPhalfLength = fmul (Fin brRadSeg1) sinAlphaInv
             in Inr \<lparr> g_bpTPos = bpTPos, g_surfBPoffset = surfBPoffset,
                      g_branchOffset = branchOffset, g_surfBPhalfLength = surfBPhalfLength \<rparr>)"

text \<open>
  The state of the loop over the branches \<open>br = 1, ..., nBranches - 1\<close> of one branching
  region: the extent \<open>[bp_start, bp_end]\<close>, the offset computed last, the offsets
  \<^verbatim>\<open>branchOffset[br]\<close> and, for reference, the half-length computed last.
\<close>

record bp_state =
  bp_start :: number
  bp_end :: number
  surfBPoffset :: number
  branchOffset :: "number list"
  surfBPhalfLength :: number

text \<open>
  \<^verbatim>\<open>create_neurite\<close>:
  \<^verbatim>\<open>bp_start = std::min(bp_start, bpTPos + (surfBPoffset - surfBPhalfLength) / neurite_length);\<close>
  \<^verbatim>\<open>bp_end = std::max(bp_end, bpTPos + (surfBPoffset + surfBPhalfLength) / neurite_length);\<close>
\<close>

definition update_extent :: "real \<Rightarrow> bp_state \<Rightarrow> branch_geom \<Rightarrow> bp_state" where
  "update_extent nlen st g =
     st \<lparr> bp_start := std_min (bp_start st)
             (fadd (Fin (g_bpTPos g))
                (fdiv (fsub (g_surfBPoffset g) (g_surfBPhalfLength g)) (Fin nlen))),
          bp_end := std_max (bp_end st)
             (fadd (Fin (g_bpTPos g))
                (fdiv (fadd (g_surfBPoffset g) (g_surfBPhalfLength g)) (Fin nlen))),
          surfBPoffset := g_surfBPoffset g,
          branchOffset := branchOffset st @ [g_branchOffset g],
          surfBPhalfLength := g_surfBPhalfLength g \<rparr>"

text \<open>
  \<^verbatim>\<open>create_neurite_with_er\<close>:
  \<^verbatim>\<open>bp_start = std::min(bp_start, bpTPos - surfBPhalfLength / neurite_length);\<close>
  \<^verbatim>\<open>bp_end = std::max(bp_end, bpTPos + surfBPhalfLength / neurite_length);\<close>
\<close>

definition update_extent_er :: "real \<Rightarrow> bp_state \<Rightarrow> branch_geom \<Rightarrow> bp_state" where
  "update_extent_er nlen st g =
     st \<lparr> bp_start := std_min (bp_start st)
             (fsub (Fin (g_bpTPos g)) (fdiv (g_surfBPhalfLength g) (Fin nlen))),
          bp_end := std_max (bp_end st)
             (fadd (Fin (g_bpTPos g)) (fdiv (g_surfBPhalfLength g) (Fin nlen))),
          surfBPoffset := g_surfBPoffset g,
          branchOffset := branchOffset st @ [g_branchOffset g],
          surfBPhalfLength := g_surfBPhalfLength g \<rparr>"

text \<open>
  The loop itself, over the ids \<open>vNid[1], vNid[2], ...\<close>; it starts from
  \<open>bp_start = 1.0\<close>, \<open>bp_end = 0.0\<close> and \<^verbatim>\<open>branchOffset\<close> holding \<open>0.0\<close> at index 0.
  \<^verbatim>\<open>surfBPoffset\<close> is declared without a value; the model starts it, and the half-length,
  at \<open>0\<close>.
\<close>

fun branch_loop ::
  "(real \<Rightarrow> bp_state \<Rightarrow> branch_geom \<Rightarrow> bp_state) \<Rightarrow> Neurite list \<Rightarrow> real list list \<Rightarrow> nat \<Rightarrow> nat \<Rightarrow>
     real \<Rightarrow> BranchingRegion \<Rightarrow> nat list \<Rightarrow> bp_state \<Rightarrow> error + bp_state" where
  "branch_loop upd vNeurites vR nid curSec nlen brit [] st = Inr st"
| "branch_loop upd vNeurites vR nid curSec nlen brit (brInd # rest) st =
     (case branch_geometry vNeurites vR nid curSec brit brInd of
        Inl e \<Rightarrow> Inl e
      | Inr g \<Rightarrow> branch_loop upd vNeurites vR nid curSec nlen brit rest (upd nlen st g))"

definition bp_state_init :: bp_state where
  "bp_state_init = \<lparr> bp_start = Fin 1, bp_end = Fin 0, surfBPoffset = Fin 0,
                      branchOffset = [Fin 0], surfBPhalfLength = Fin 0 \<rparr>"

definition create_neurite_branching_region ::
  "Neurite list \<Rightarrow> vector3 list list \<Rightarrow> real list list \<Rightarrow> nat \<Rightarrow> nat \<Rightarrow> BranchingRegion \<Rightarrow> error + bp_state" where
  "create_neurite_branching_region vNeurites vPos vR nid curSec brit =
     (if \<not> nid < length vPos then Inl IndexOutOfRange
      else branch_loop update_extent vNeurites vR nid curSec (neurite_length (vPos ! nid)) brit
             (tl (vNid (bp brit))) bp_state_init)"

definition create_neurite_with_er_branching_region ::
  "Neurite list \<Rightarrow> vector3 list list \<Rightarrow> real list list \<Rightarrow> nat \<Rightarrow> nat \<Rightarrow> BranchingRegion \<Rightarrow> error + bp_state" where
  "create_neurite_with_er_branching_region vNeurites vPos vR nid curSec brit =
     (if \<not> nid < length vPos then Inl IndexOutOfRange
      else branch_loop update_extent_er vNeurites vR nid curSec (neurite_length (vPos ! nid)) brit
             (tl (vNid (bp brit))) bp_state_init)"

text \<open>
  An example: a straight parent neurite of length 10 and radius 1/2 along the x axis, with
  support points at 0, 5 and 10, and three children that leave it at the support point
  (5, 0, 0): child 1 in direction (4, 3, 0), child 2 at a right angle and child 3 in the
  direction of the parent. As in the lists of the decomposition, each child starts with
  the branching point itself, with its radius 1/2; the radius at the second point of a
  child is 1/4.
\<close>

definition ex_parent :: Neurite where
  "ex_parent = \<lparr> refDir = (0, 0, 1),
     vSec = [\<lparr> endParam = 1 / 2, splineParamsX = (0, 0, - 10, 5), splineParamsY = (0, 0, 0, 0),
               splineParamsZ = (0, 0, 0, 0), splineParamsR = (0, 0, 0, 1 / 2) \<rparr>,
             \<lparr> endParam = 1, splineParamsX = (0, 0, - 10, 10), splineParamsY = (0, 0, 0, 0),
               splineParamsZ = (0, 0, 0, 0), splineParamsR = (0, 0, 0, 1 / 2) \<rparr>],
     vBR = [] \<rparr>"

definition ex_child :: "real \<Rightarrow> real \<Rightarrow> Neurite" where
  "ex_child dx dy = \<lparr> refDir = (0, 0, 1),
     vSec = [\<lparr> endParam = 1, splineParamsX = (0, 0, - dx, 5 + dx), splineParamsY = (0, 0, - dy, dy),
               splineParamsZ = (0, 0, 0, 0), splineParamsR = (0, 0, 1 / 4, 1 / 4) \<rparr>],
     vBR = [] \<rparr>"

definition ex_vNeurites :: "Neurite list" where
  "ex_vNeurites = [ex_parent, ex_child 4 3, ex_child 0 5, ex_child 5 0]"

definition ex_vPos :: "vector3 list list" where
  "ex_vPos = [[(0, 0, 0), (5, 0, 0), (10, 0, 0)], [(5, 0, 0), (9, 3, 0)], [(5, 0, 0), (5, 5, 0)], [(5, 0, 0), (10, 0, 0)]]"

definition ex_vR :: "real list list" where
  "ex_vR = [[1 / 2, 1 / 2, 1 / 2], [1 / 2, 1 / 4], [1 / 2, 1 / 4], [1 / 2, 1 / 4]]"

definition ex_brit :: "nat \<Rightarrow> BranchingRegion" where
  "ex_brit child = \<lparr> br_t = 1 / 2, bp = \<lparr> vNid = [0, child] \<rparr> \<rparr>"



definition ex_st_perp :: bp_state where
  "ex_st_perp = \<lparr> bp_start = Fin (9 / 20), bp_end = Fin (11 / 20), surfBPoffset = Fin 0,
        branchOffset = [Fin 0, Fin (sqrt 2 / 4)], surfBPhalfLength = Fin (1 / 2) \<rparr>"

section \<open>Spline fit\<close>

text \<open>
  \<^verbatim>\<open>create_spline_data_for_neurites\<close>, for one neurite with support points \<open>pos\<close> and radii
  \<open>r\<close>: the parameters of the support points, the moment matrix, its right-hand sides, the
  moments and the sections. The registration of the branching regions is left out.

  The first loop stores the length of the polyline before each support point but the
  last, and sums the total length.
\<close>

fun cumulative_lengths :: "vector3 list \<Rightarrow> real \<Rightarrow> real list \<times> real" where
  "cumulative_lengths (p # q # ps) totalLength =
     (let (ts, total) = cumulative_lengths (q # ps) (totalLength + VecDistance p q)
      in (totalLength # ts, total))"
| "cumulative_lengths _ totalLength = ([], totalLength)"

text \<open>\<^verbatim>\<open>tSuppPos[i] /= totalLength\<close> for \<open>i < nVrt - 1\<close>, and \<^verbatim>\<open>tSuppPos[nVrt-1] = 1.0\<close>.\<close>

definition tSuppPos_of :: "vector3 list \<Rightarrow> real list" where
  "tSuppPos_of pos =
     (let (ts, totalLength) = cumulative_lengths pos 0
      in map (\<lambda>x. x / totalLength) ts @ [1])"

text \<open>\<^verbatim>\<open>dt[i+1] = tSuppPos[i+1] - tSuppPos[i]\<close>; \<^verbatim>\<open>dt[0]\<close> keeps its initial value 0.\<close>

definition dt_of :: "real list \<Rightarrow> real list" where
  "dt_of tSuppPos = 0 # map (\<lambda>i. tSuppPos ! (i + 1) - tSuppPos ! i) [0..<length tSuppPos - 1]"

text \<open>
  The moment matrix: 2.0 on the diagonal of every row and, in the rows \<open>1 \<le> i < nVrt - 1\<close>
  only, \<^verbatim>\<open>dt[i+1] / h2\<close> right and \<^verbatim>\<open>dt[i] / h2\<close> left of the diagonal, where
  \<^verbatim>\<open>h2 = tSuppPos[i+1] - tSuppPos[i-1]\<close>. All other entries are the zeros that
  \<^verbatim>\<open>mat.resize(nVrt, nVrt)\<close> leaves.
\<close>

definition moment_entry :: "real list \<Rightarrow> nat \<Rightarrow> nat \<Rightarrow> real" where
  "moment_entry tSuppPos i j =
     (let nVrt = length tSuppPos; dt = dt_of tSuppPos
      in if j = i then 2
         else if 1 \<le> i \<and> i < nVrt - 1 \<and> j = i + 1
           then dt ! (i + 1) / (tSuppPos ! (i + 1) - tSuppPos ! (i - 1))
         else if 1 \<le> i \<and> i < nVrt - 1 \<and> j + 1 = i
           then dt ! i / (tSuppPos ! (i + 1) - tSuppPos ! (i - 1))
         else 0)"

definition moment_matrix :: "real list \<Rightarrow> real list list" where
  "moment_matrix tSuppPos =
     map (\<lambda>i. map (\<lambda>j. moment_entry tSuppPos i j) [0..<length tSuppPos]) [0..<length tSuppPos]"

text \<open>
  The right-hand side for one coordinate \<open>xs\<close> of the support points. Only the entries
  \<open>1 \<le> i < nVrt - 1\<close> are written; the first and the last keep the zero of
  \<^verbatim>\<open>rhs.resize(nVrt)\<close>.
\<close>

definition moment_rhs :: "real list \<Rightarrow> real list \<Rightarrow> real list" where
  "moment_rhs tSuppPos xs =
     (let nVrt = length tSuppPos; dt = dt_of tSuppPos
      in map (\<lambda>i. if 1 \<le> i \<and> i < nVrt - 1
                   then 6 / (tSuppPos ! (i + 1) - tSuppPos ! (i - 1)) *
                        ((xs ! (i + 1) - xs ! i) / dt ! (i + 1) - (xs ! i - xs ! (i - 1)) / dt ! i)
                   else 0) [0..<nVrt])"

text \<open>The product \<^verbatim>\<open>mat*rhs\<close> of a matrix, given by its rows, and a vector.\<close>

definition mat_vec :: "real list list \<Rightarrow> real list \<Rightarrow> real list" where
  "mat_vec m v = map (\<lambda>row. sum_list (map2 (*) row v)) m"

text \<open>
  \<^verbatim>\<open>Invert\<close> belongs to the ug4 library and is a parameter of the model: it gives the
  inverse, or nothing when it fails. What is assumed of a result is that it has the rows
  of the matrix and undoes it.
\<close>

definition inverts :: "real list list \<Rightarrow> real list list \<Rightarrow> bool" where
  "inverts m minv \<longleftrightarrow>
     length minv = length m \<and> (\<forall>v. length v = length m \<longrightarrow> mat_vec m (mat_vec minv v) = v)"

text \<open>The coefficients of section \<open>i\<close> for one coordinate \<open>xs\<close> with the moments \<open>x\<close>.\<close>

definition section_params :: "real list \<Rightarrow> real list \<Rightarrow> real list \<Rightarrow> nat \<Rightarrow> spline" where
  "section_params dt x xs i =
     ((x ! i - x ! (i + 1)) / (6 * dt ! (i + 1)),
      1 / 2 * x ! (i + 1),
      - (dt ! (i + 1) / 6 * (x ! i + 2 * x ! (i + 1)) + (xs ! (i + 1) - xs ! i) / dt ! (i + 1)),
      xs ! (i + 1))"

text \<open>
  The moments of the four coordinates. The source divides by the total length and by the
  parameter steps without a check; where one of them is 0 its results are not finite, and
  the model stops with \<open>DivisionByZero\<close>, which is a mark of the model and not an exception
  of the source. No support point at all, or fewer radii than support points, makes the
  source read outside its vectors.
\<close>

record moments =
  x0 :: "real list"
  x1 :: "real list"
  x2 :: "real list"
  xr :: "real list"

definition spline_moments ::
  "(real list list \<Rightarrow> real list list option) \<Rightarrow> vector3 list \<Rightarrow> real list \<Rightarrow> error + moments" where
  "spline_moments Invert pos r =
     (if pos = [] then Inl IndexOutOfRange
      else if 2 \<le> length pos \<and> length r < length pos then Inl IndexOutOfRange
      else if 2 \<le> length pos \<and> (snd (cumulative_lengths pos 0) = 0 \<or> 0 \<in> set (tl (dt_of (tSuppPos_of pos))))
        then Inl DivisionByZero
      else
        let tSuppPos = tSuppPos_of pos
        in case Invert (moment_matrix tSuppPos) of
             None \<Rightarrow> Inl InvertFailed
           | Some mat \<Rightarrow>
               Inr \<lparr> x0 = mat_vec mat (moment_rhs tSuppPos (map fst pos)),
                     x1 = mat_vec mat (moment_rhs tSuppPos (map (fst \<circ> snd) pos)),
                     x2 = mat_vec mat (moment_rhs tSuppPos (map (snd \<circ> snd) pos)),
                     xr = mat_vec mat (moment_rhs tSuppPos r) \<rparr>)"

definition create_spline_data_for_neurite ::
  "(real list list \<Rightarrow> real list list option) \<Rightarrow> vector3 list \<Rightarrow> real list \<Rightarrow> error + Section list" where
  "create_spline_data_for_neurite Invert pos r =
     (case spline_moments Invert pos r of
        Inl e \<Rightarrow> Inl e
      | Inr m \<Rightarrow>
          let tSuppPos = tSuppPos_of pos; dt = dt_of tSuppPos
          in Inr (map (\<lambda>i. \<lparr> endParam = tSuppPos ! (i + 1),
                              splineParamsX = section_params dt (x0 m) (map fst pos) i,
                              splineParamsY = section_params dt (x1 m) (map (fst \<circ> snd) pos) i,
                              splineParamsZ = section_params dt (x2 m) (map (snd \<circ> snd) pos) i,
                              splineParamsR = section_params dt (xr m) r i \<rparr>)
                     [0..<length pos - 1]))"

text \<open>
  Position and radius of a section at the parameter \<open>t\<close>, as the build paths evaluate them:
  \<^verbatim>\<open>monom = sec.endParam - segAxPos; p0 = sp[0]*monom + sp[1]; p0 = p0*monom + sp[2]; p0 = p0*monom + sp[3]\<close>.
\<close>

definition section_position :: "Section \<Rightarrow> real \<Rightarrow> vector3" where
  "section_position sec t =
     (let monom = endParam sec - t
      in (spline_value (splineParamsX sec) monom,
          spline_value (splineParamsY sec) monom,
          spline_value (splineParamsZ sec) monom))"

definition section_radius :: "Section \<Rightarrow> real \<Rightarrow> real" where
  "section_radius sec t = spline_value (splineParamsR sec) (endParam sec - t)"

text \<open>
  An example: the polyline (0,0,0), (3,0,0), (3,4,0) with radii 1, 2, 1, and the inverse of
  its moment matrix.
\<close>

definition ex_spline_pos :: "vector3 list" where
  "ex_spline_pos = [(0, 0, 0), (3, 0, 0), (3, 4, 0)]"

definition ex_spline_r :: "real list" where
  "ex_spline_r = [1, 2, 1]"

definition ex_Invert :: "real list list \<Rightarrow> real list list option" where
  "ex_Invert m =
     (if m = [[2, 0, 0], [3 / 7, 2, 4 / 7], [0, 0, 2]]
      then Some [[1 / 2, 0, 0], [- 3 / 28, 1 / 2, - 1 / 7], [0, 0, 1 / 2]]
      else None)"

text \<open>
  The first and second derivative of \<open>spline_value\<close> in its argument. The argument is
  \<open>endParam - t\<close>, so the second derivative in \<open>t\<close> is the same.
\<close>

fun spline_deriv :: "spline \<Rightarrow> real \<Rightarrow> real" where
  "spline_deriv (s0, s1, s2, s3) m = (3 * s0 * m + 2 * s1) * m + s2"

fun spline_second_deriv :: "spline \<Rightarrow> real \<Rightarrow> real" where
  "spline_second_deriv (s0, s1, s2, s3) m = 6 * s0 * m + 2 * s1"

definition ex_moments :: moments where
  "ex_moments = \<lparr> x0 = [0, - 21, 0], x1 = [0, 21, 0], x2 = [0, 0, 0], xr = [0, - 49 / 4, 0] \<rparr>"

definition ex_sections :: "Section list" where
  "ex_sections =
     [\<lparr> endParam = 3 / 7, splineParamsX = (49 / 6, - 21 / 2, - 4, 3), splineParamsY = (- 49 / 6, 21 / 2, - 3, 0),
        splineParamsZ = (0, 0, 0, 0), splineParamsR = (343 / 72, - 49 / 8, - 7 / 12, 2) \<rparr>,
      \<lparr> endParam = 1, splineParamsX = (- 49 / 8, 0, 2, 3), splineParamsY = (49 / 8, 0, - 9, 4),
        splineParamsZ = (0, 0, 0, 0), splineParamsR = (- 343 / 96, 0, 35 / 12, 1) \<rparr>]"

section \<open>Resampling\<close>

text \<open>
  \<^verbatim>\<open>GaussLegendre gl(5)\<close> is a quadrature rule of the ug4 library on the interval [0, 1].
  The model takes it as a parameter: the list of its points \<^verbatim>\<open>gl.point(i)[0]\<close> with their
  weights \<^verbatim>\<open>gl.weight(i)\<close>.
\<close>

type_synonym quadrature = "(real \<times> real) list"

text \<open>
  The loop over the quadrature points of one section, in both
  \<^verbatim>\<open>calculate_length_over_radius\<close> and \<^verbatim>\<open>calculate_segment_axial_positions\<close>: it adds
  \<^verbatim>\<open>gl.weight(i) * sqrt(VecNormSquared(vel)) / r\<close> to \<^verbatim>\<open>sec_integral\<close> and throws where
  \<^verbatim>\<open>r*r <= VecNormSquared(vel)*1e-12\<close>.
\<close>

fun section_quadrature :: "quadrature \<Rightarrow> Section \<Rightarrow> real \<Rightarrow> real \<Rightarrow> real \<Rightarrow> error + real" where
  "section_quadrature [] sec sec_tstart dt sec_integral = Inr sec_integral"
| "section_quadrature ((p, w) # gl) sec sec_tstart dt sec_integral =
     (let t = endParam sec - (sec_tstart + dt * p);
          vel = section_velocity sec t;
          r = spline_value (splineParamsR sec) t
      in if r * r \<le> VecNormSquared vel * (1 / 10 ^ 12) then Inl RadiusTooSmall
         else section_quadrature gl sec sec_tstart dt (sec_integral + w * sqrt (VecNormSquared vel) / r))"

text \<open>
  The loop over the sections of \<^verbatim>\<open>calculate_length_over_radius\<close>; \<open>prev\<close> is the end
  parameter of the section before the current one, or 0.0 at the first section of the
  neurite.
\<close>

fun length_over_radius_loop ::
  "quadrature \<Rightarrow> real \<Rightarrow> real \<Rightarrow> Section list \<Rightarrow> real \<Rightarrow> real \<Rightarrow> error + real" where
  "length_over_radius_loop gl t_end prev [] t_start integral = Inr integral"
| "length_over_radius_loop gl t_end prev (sec # secs) t_start integral =
     (let sec_tstart = max t_start prev;
          sec_tend = min t_end (endParam sec);
          dt = sec_tend - sec_tstart
      in case section_quadrature gl sec sec_tstart dt 0 of
           Inl e \<Rightarrow> Inl e
         | Inr sec_integral \<Rightarrow>
             if sec_tend \<ge> t_end then Inr (integral + dt * sec_integral)
             else length_over_radius_loop gl t_end (endParam sec) secs sec_tend
                    (integral + dt * sec_integral))"

definition section_start :: "Section list \<Rightarrow> nat \<Rightarrow> real" where
  "section_start secs startSec = (if startSec > 0 then endParam (secs ! (startSec - 1)) else 0)"

definition calculate_length_over_radius ::
  "quadrature \<Rightarrow> real \<Rightarrow> real \<Rightarrow> Neurite \<Rightarrow> nat \<Rightarrow> error + real" where
  "calculate_length_over_radius gl t_start t_end neurite startSec =
     (if \<not> startSec < length (vSec neurite) then Inl IndexOutOfRange
      else
        let sec_tstart = section_start (vSec neurite) startSec;
            sec_tend = endParam (vSec neurite ! startSec)
        in if sec_tend < t_start \<or> sec_tstart > t_start then Inl WrongSectionIterator
           else length_over_radius_loop gl t_end sec_tstart (drop startSec (vSec neurite)) t_start 0)"

text \<open>
  The inner loop of \<^verbatim>\<open>calculate_segment_axial_positions\<close>:
  \<^verbatim>\<open>while (integral >= (seg+1)*segLength) { lastIntegral = integral - dt * sec_integral;\<close>
  \<^verbatim>\<open>segAxPosOut[seg] = t_start + ((seg+1)*segLength - lastIntegral) / sec_integral; ++seg; }\<close>.
  The write is not checked against the size of the vector.
\<close>

function fill_positions ::
  "real \<Rightarrow> real \<Rightarrow> real \<Rightarrow> real \<Rightarrow> real \<Rightarrow> number list \<Rightarrow> nat \<Rightarrow> error + number list \<times> nat" where
  "fill_positions integral t_start dt sec_integral segLength segAxPosOut seg =
     (if integral \<ge> (real seg + 1) * segLength
      then if seg < length segAxPosOut
           then let lastIntegral = integral - dt * sec_integral
                in fill_positions integral t_start dt sec_integral segLength
                     (segAxPosOut[seg := fadd (Fin t_start)
                         (fdiv (Fin ((real seg + 1) * segLength - lastIntegral)) (Fin sec_integral))])
                     (seg + 1)
           else Inl IndexOutOfRange
      else Inr (segAxPosOut, seg))"
  by pat_completeness auto
termination
  by (relation "measure (\<lambda>(integral, t_start, dt, sec_integral, segLength, segAxPosOut, seg).
                   length segAxPosOut - seg)") auto

declare fill_positions.simps [simp del]

text \<open>The loop over the sections; it returns the positions, \<open>seg\<close> and the integral.\<close>

fun segment_positions_loop ::
  "quadrature \<Rightarrow> real \<Rightarrow> real \<Rightarrow> real \<Rightarrow> Section list \<Rightarrow> real \<Rightarrow> real \<Rightarrow> number list \<Rightarrow> nat \<Rightarrow>
     error + number list \<times> nat \<times> real" where
  "segment_positions_loop gl t_end segLength prev [] t_start integral segAxPosOut seg =
     Inr (segAxPosOut, seg, integral)"
| "segment_positions_loop gl t_end segLength prev (sec # secs) t_start integral segAxPosOut seg =
     (let sec_tstart = max t_start prev;
          sec_tend = min t_end (endParam sec);
          dt = sec_tend - sec_tstart
      in case section_quadrature gl sec sec_tstart dt 0 of
           Inl e \<Rightarrow> Inl e
         | Inr sec_integral \<Rightarrow>
             (case fill_positions (integral + dt * sec_integral) t_start dt sec_integral segLength
                     segAxPosOut seg of
                Inl e \<Rightarrow> Inl e
              | Inr (segAxPosOut', seg') \<Rightarrow>
                  if sec_tend \<ge> t_end then Inr (segAxPosOut', seg', integral + dt * sec_integral)
                  else segment_positions_loop gl t_end segLength (endParam sec) secs sec_tend
                         (integral + dt * sec_integral) segAxPosOut' seg'))"

text \<open>
  \<^verbatim>\<open>calculate_segment_axial_positions\<close>. After the loop,
  \<^verbatim>\<open>if (seg+1 == nSeg && (nSeg*segLength - integral)/integral < 1e-6) { segAxPosOut[nSeg-1] = t_end; ++seg; }\<close>.
  The result is the vector and \<open>seg\<close>, which \<^verbatim>\<open>UG_ASSERT\<close> compares with \<open>nSeg\<close> in a debug
  build.
\<close>

definition calculate_segment_axial_positions ::
  "quadrature \<Rightarrow> number list \<Rightarrow> real \<Rightarrow> real \<Rightarrow> Neurite \<Rightarrow> nat \<Rightarrow> real \<Rightarrow> error + number list \<times> nat" where
  "calculate_segment_axial_positions gl segAxPosOut t_start t_end neurite startSec segLength =
     (if \<not> startSec < length (vSec neurite) then Inl IndexOutOfRange
      else
        let nSeg = length segAxPosOut;
            sec_tstart = section_start (vSec neurite) startSec;
            sec_tend = endParam (vSec neurite ! startSec)
        in if sec_tend < t_start \<or> sec_tstart > t_start then Inl WrongSectionIterator
           else case segment_positions_loop gl t_end segLength sec_tstart (drop startSec (vSec neurite))
                       t_start 0 segAxPosOut 0 of
                  Inl e \<Rightarrow> Inl e
                | Inr (segAxPos, seg, integral) \<Rightarrow>
                    if seg + 1 = nSeg \<and>
                       flt (fdiv (Fin (real nSeg * segLength - integral)) (Fin integral)) (Fin (1 / 10 ^ 6))
                    then Inr (segAxPos[nSeg - 1 := Fin t_end], seg + 1)
                    else Inr (segAxPos, seg))"

text \<open>
  The number of segments in the build paths:
  \<^verbatim>\<open>size_t nSeg = (size_t) floor(lengthOverRadius / (anisotropy*0.5*PI)); if (!nSeg) nSeg = 1;\<close>.
  The conversion is undefined for a value that is not finite, negative or too large.
\<close>

definition segment_count :: "real \<Rightarrow> real \<Rightarrow> error + nat" where
  "segment_count lengthOverRadius anisotropy =
     (if anisotropy * (1 / 2) * pi = 0 then Inl ConversionOutOfRange
      else
        let q = lengthOverRadius / (anisotropy * (1 / 2) * pi)
        in if q < 0 \<or> 2 ^ 64 \<le> \<lfloor>q\<rfloor> then Inl ConversionOutOfRange
           else let nSeg = nat \<lfloor>q\<rfloor> in Inr (if nSeg = 0 then 1 else nSeg))"

text \<open>
  The resampling of the span from \<open>t_start\<close> to \<open>t_end\<close> in \<^verbatim>\<open>create_neurite\<close> and
  \<^verbatim>\<open>create_neurite_with_er\<close>: the length over radius, the number of segments, the segment
  length, the axial positions and, when the span ends at a branching region, its end
  \<open>bp_end\<close> as one more position.
\<close>

definition resample_span ::
  "quadrature \<Rightarrow> Neurite \<Rightarrow> nat \<Rightarrow> real \<Rightarrow> real \<Rightarrow> real \<Rightarrow> number option \<Rightarrow> error + number list" where
  "resample_span gl neurite curSec t_start t_end anisotropy bp_end_opt =
     (case calculate_length_over_radius gl t_start t_end neurite curSec of
        Inl e \<Rightarrow> Inl e
      | Inr lengthOverRadius \<Rightarrow>
          (case segment_count lengthOverRadius anisotropy of
             Inl e \<Rightarrow> Inl e
           | Inr nSeg \<Rightarrow>
               let segLength = lengthOverRadius / real nSeg
               in case calculate_segment_axial_positions gl (replicate nSeg (Fin 0)) t_start t_end
                         neurite curSec segLength of
                    Inl e \<Rightarrow> Inl e
                  | Inr (vSegAxPos, seg) \<Rightarrow>
                      Inr (case bp_end_opt of None \<Rightarrow> vSegAxPos | Some e \<Rightarrow> vSegAxPos @ [e])))"

text \<open>
  A point of a section where the integrand is positive and the check of the radius
  passes; \<open>m\<close> is the argument \<open>endParam - t\<close> of the cubics.
\<close>

definition regular_point :: "Section \<Rightarrow> real \<Rightarrow> bool" where
  "regular_point sec m \<longleftrightarrow>
     0 < spline_value (splineParamsR sec) m \<and>
     0 < VecNormSquared (section_velocity sec m) \<and>
     VecNormSquared (section_velocity sec m) * (1 / 10 ^ 12)
       < spline_value (splineParamsR sec) m * spline_value (splineParamsR sec) m"

text \<open>
  Sections whose end parameters increase from \<open>prev\<close> and whose points are regular, each
  section on its own part of the parameter line.
\<close>

fun regular_sections :: "real \<Rightarrow> Section list \<Rightarrow> bool" where
  "regular_sections prev [] \<longleftrightarrow> True"
| "regular_sections prev (sec # secs) \<longleftrightarrow>
     prev < endParam sec \<and>
     (\<forall>m. 0 \<le> m \<and> m \<le> endParam sec - prev \<longrightarrow> regular_point sec m) \<and>
     regular_sections (endParam sec) secs"

definition regular_quadrature :: "quadrature \<Rightarrow> bool" where
  "regular_quadrature gl \<longleftrightarrow> gl \<noteq> [] \<and> (\<forall>(p, w) \<in> set gl. 0 \<le> p \<and> p \<le> 1 \<and> 0 < w)"

text \<open>
  An example: the Gauss-Legendre rule with three points on [0, 1], and a straight
  neurite of two sections with velocity 5 and radius 1, whose length over radius is 5.
\<close>

definition ex_gl :: quadrature where
  "ex_gl = [(1 / 2 - sqrt (3 / 5) / 2, 5 / 18), (1 / 2, 4 / 9), (1 / 2 + sqrt (3 / 5) / 2, 5 / 18)]"

definition ex_sec_a :: Section where
  "ex_sec_a = \<lparr> endParam = 1 / 2, splineParamsX = (0, 0, - 5, 5 / 2), splineParamsY = (0, 0, 0, 0),
                 splineParamsZ = (0, 0, 0, 0), splineParamsR = (0, 0, 0, 1) \<rparr>"

definition ex_sec_b :: Section where
  "ex_sec_b = \<lparr> endParam = 1, splineParamsX = (0, 0, - 5, 5), splineParamsY = (0, 0, 0, 0),
                 splineParamsZ = (0, 0, 0, 0), splineParamsR = (0, 0, 0, 1) \<rparr>"

definition ex_straight :: Neurite where
  "ex_straight = \<lparr> refDir = (0, 0, 1), vSec = [ex_sec_a, ex_sec_b], vBR = [] \<rparr>"

section \<open>Decomposition into neurites\<close>

text \<open>
  \<^verbatim>\<open>SWCPoint\<close> and \<^verbatim>\<open>swc_type\<close> are declared outside the files at hand; the fields are those
  that \<^verbatim>\<open>import_swc\<close> and \<^verbatim>\<open>convert_pointlist_to_neuritelist\<close> use.
\<close>

datatype swc_type = SWC_UNDF | SWC_SOMA | SWC_AXON | SWC_DEND | SWC_APIC

record SWCPoint =
  type :: swc_type
  coords :: vector3
  radius :: real
  conns :: "nat list"

text \<open>
  The output vectors of \<^verbatim>\<open>convert_pointlist_to_neuritelist\<close> and the variables of its outer
  loop. A branching point info is the pair of the index of the branching point in its
  neurite and the ids of the neurites that start there.
\<close>

record neurite_lists =
  vSomaPoints :: "SWCPoint list"
  vPosOut :: "vector3 list list"
  vRadOut :: "real list list"
  vBPInfoOut :: "(nat \<times> nat list) list list"
  vRootNeuriteIndsOut :: "nat list"
  ptProcessed :: "bool list"
  nProcessed :: nat
  curNeuriteInd :: nat

text \<open>
  The state of the walk over one neuron adds the stack of pairs (parent index, index),
  with its top at the head of the list, and the helper map, whose newest entry for a key
  is the first in the list.
\<close>

record walk_state = neurite_lists +
  processing_stack :: "(nat \<times> nat) list"
  helperMap :: "(nat \<times> nat \<times> nat) list"

text \<open>
  The angle between the direction to the connected point \<open>c\<close> and the incoming direction:
  \<^verbatim>\<open>VecSubtract(dir, vPoints[pt.conns[i]].coords, pt.coords); VecNormalize(dir, dir);\<close>
  \<^verbatim>\<open>angle = acos(VecProd(dir, parentDir))\<close>, in double precision. The product of two
  normalised vectors can be rounded to a value above 1, and the angle is NaN then.
\<close>

definition branch_angle :: "SWCPoint list \<Rightarrow> SWCPoint \<Rightarrow> vector3 \<Rightarrow> nat \<Rightarrow> number" where
  "branch_angle vPoints pt parentDir c =
     (let dir = VecNormalize_d (VecSubtract_d (coords (vPoints ! c)) (coords pt))
      in d_acos (VecProd_d dir parentDir))"

text \<open>
  The loop at a branching point that finds the connection to the parent and the child of
  minimal angle; \<open>minAngle\<close> starts at infinity and \<^verbatim>\<open>if (angle < minAngle)\<close> is strict, and
  false for an angle that is NaN.
\<close>

fun select_branch ::
  "SWCPoint list \<Rightarrow> SWCPoint \<Rightarrow> nat \<Rightarrow> vector3 \<Rightarrow> nat \<Rightarrow> nat list \<Rightarrow> nat \<times> nat \<times> number \<Rightarrow>
     nat \<times> nat \<times> number" where
  "select_branch vPoints pt pind parentDir i [] acc = acc"
| "select_branch vPoints pt pind parentDir i (c # cs) (parentToBeDiscarded, minAngleInd, minAngle) =
     (if c = pind
      then select_branch vPoints pt pind parentDir (i + 1) cs (i, minAngleInd, minAngle)
      else
        let angle = branch_angle vPoints pt parentDir c
        in if flt angle minAngle
           then select_branch vPoints pt pind parentDir (i + 1) cs (parentToBeDiscarded, i, angle)
           else select_branch vPoints pt pind parentDir (i + 1) cs
                  (parentToBeDiscarded, minAngleInd, minAngle))"

text \<open>Appending to the inner vector at index \<open>n\<close>.\<close>

definition push_back_at :: "'a list list \<Rightarrow> nat \<Rightarrow> 'a \<Rightarrow> 'a list list" where
  "push_back_at xss n x = xss[n := xss ! n @ [x]]"

text \<open>
  The three cases of a pass of the walk. In each, \<open>st\<close> is the state after the point
  \<open>pt\<close> with index \<open>ind\<close> has been taken off the stack and appended to the current neurite.
  Reads and writes outside the vectors, which the source does not check, end the model
  with \<open>IndexOutOfRange\<close>.

  The branching point (\<^verbatim>\<open>nConn > 2\<close>): all children but the one of minimal angle are
  pushed and entered in the helper map, then the child of minimal angle is pushed, and
  the branching point info is appended to the current neurite.
\<close>

definition branching_point :: "SWCPoint list \<Rightarrow> nat \<Rightarrow> nat \<Rightarrow> walk_state \<Rightarrow> error + walk_state" where
  "branching_point vPoints pind ind st =
     (let pt = vPoints ! ind;
          cur = curNeuriteInd st;
          nConn = length (conns pt)
      in if \<not> (pind < length vPoints \<and> (\<forall>c \<in> set (conns pt). c < length vPoints)
                \<and> cur < length (vBPInfoOut st))
         then Inl IndexOutOfRange
         else
           let parentDir = VecNormalize_d (VecSubtract_d (coords pt) (coords (vPoints ! pind)));
               (parentToBeDiscarded, minAngleInd, minAngle) =
                  select_branch vPoints pt pind parentDir 0 (conns pt) (0, 0, PInf);
               bp = (length (vPosOut st ! cur) - 1, []);
               others = map (\<lambda>i. conns pt ! i)
                          (filter (\<lambda>i. \<not> (i = parentToBeDiscarded \<or> i = minAngleInd)) [0..<nConn])
           in Inr (st \<lparr> vPosOut := vPosOut st @ replicate (nConn - 2) [],
                        vRadOut := vRadOut st @ replicate (nConn - 2) [],
                        vBPInfoOut := push_back_at (vBPInfoOut st @ replicate (nConn - 2) []) cur bp,
                        processing_stack :=
                          (ind, conns pt ! minAngleInd) # rev (map (Pair ind) others) @ processing_stack st,
                        helperMap :=
                          (if others = [] then helperMap st
                           else (ind, cur, length (vBPInfoOut st ! cur)) # helperMap st) \<rparr>))"

text \<open>
  The end point (\<^verbatim>\<open>nConn == 1\<close>): if the stack is not empty, the next point on it starts
  a new neurite, which begins with the parent of that point if the helper map knows it.
\<close>

definition end_point :: "SWCPoint list \<Rightarrow> walk_state \<Rightarrow> error + walk_state" where
  "end_point vPoints st =
     (let cur = curNeuriteInd st
      in case processing_stack st of
           [] \<Rightarrow> Inr st
         | (nextParentID, next) # rest \<Rightarrow>
             (case map_of (helperMap st) nextParentID of
                None \<Rightarrow>
                  Inr (st \<lparr> curNeuriteInd := cur + 1,
                            vRootNeuriteIndsOut := vRootNeuriteIndsOut st @ [cur + 1] \<rparr>)
              | Some (nextParentNeuriteID, nextParentBPID) \<Rightarrow>
                  if \<not> (cur + 1 < length (vPosOut st) \<and> cur + 1 < length (vRadOut st)
                         \<and> nextParentID < length vPoints
                         \<and> nextParentNeuriteID < length (vBPInfoOut st)
                         \<and> nextParentBPID < length (vBPInfoOut st ! nextParentNeuriteID))
                  then Inl IndexOutOfRange
                  else
                    let bps = vBPInfoOut st ! nextParentNeuriteID;
                        bp = bps ! nextParentBPID
                    in Inr (st \<lparr> curNeuriteInd := cur + 1,
                                 vPosOut := push_back_at (vPosOut st) (cur + 1)
                                              (coords (vPoints ! nextParentID)),
                                 vRadOut := push_back_at (vRadOut st) (cur + 1)
                                              (radius (vPoints ! nextParentID)),
                                 vBPInfoOut := (vBPInfoOut st)
                                   [nextParentNeuriteID :=
                                      bps[nextParentBPID := (fst bp, snd bp @ [cur + 1])]] \<rparr>)))"

text \<open>The normal point: its connections other than the parent are pushed.\<close>

definition normal_point :: "SWCPoint list \<Rightarrow> nat \<Rightarrow> nat \<Rightarrow> walk_state \<Rightarrow> error + walk_state" where
  "normal_point vPoints pind ind st =
     Inr (st \<lparr> processing_stack :=
                 rev (map (Pair ind) (filter (\<lambda>c. c \<noteq> pind) (conns (vPoints ! ind)))) @ processing_stack st \<rparr>)"

text \<open>
  One pass of the loop \<^verbatim>\<open>while (!processing_stack.empty())\<close>: the top of the stack is
  taken off and marked, a soma point is refused, and the point is appended to the current
  neurite.
\<close>

definition walk_step :: "SWCPoint list \<Rightarrow> walk_state \<Rightarrow> error + walk_state" where
  "walk_step vPoints st =
     (case processing_stack st of
        [] \<Rightarrow> Inr st
      | (pind, ind) # stack \<Rightarrow>
          if \<not> (ind < length vPoints \<and> ind < length (ptProcessed st)) then Inl IndexOutOfRange
          else
            let pt = vPoints ! ind;
                cur = curNeuriteInd st
            in if type pt = SWC_SOMA then Inl MoreThanOneSoma
               else if \<not> (cur < length (vPosOut st) \<and> cur < length (vRadOut st)) then Inl IndexOutOfRange
               else
                 let st1 = st \<lparr> ptProcessed := (ptProcessed st)[ind := True],
                                nProcessed := nProcessed st + 1,
                                vPosOut := push_back_at (vPosOut st) cur (coords pt),
                                vRadOut := push_back_at (vRadOut st) cur (radius pt),
                                processing_stack := stack \<rparr>;
                     nConn = length (conns pt)
                 in if nConn > 2 then branching_point vPoints pind ind st1
                    else if nConn = 1 then end_point vPoints st1
                    else normal_point vPoints pind ind st1)"

text \<open>
  The loop itself. It need not end (the connections may form a cycle), so it runs on
  fuel: \<open>None\<close> is a walk that has not ended when the fuel is used up.
\<close>

fun walk_loop :: "nat \<Rightarrow> SWCPoint list \<Rightarrow> walk_state \<Rightarrow> (error + walk_state) option" where
  "walk_loop 0 vPoints st = None"
| "walk_loop (Suc fuel) vPoints st =
     (if processing_stack st = [] then Some (Inr st)
      else case walk_step vPoints st of
             Inl e \<Rightarrow> Some (Inl e)
           | Inr st' \<Rightarrow> walk_loop fuel vPoints st')"

text \<open>
  The loop over the queue that starts at a soma point: soma points are marked and their
  other connections queued, every other point is the root point of a neurite. The queue
  has its front at the head of the list. The loop runs on fuel like the walk.
\<close>

fun soma_loop ::
  "nat \<Rightarrow> SWCPoint list \<Rightarrow> (nat \<times> nat) list \<Rightarrow> (nat \<times> nat) list \<Rightarrow> neurite_lists \<Rightarrow>
     (error + (nat \<times> nat) list \<times> neurite_lists) option" where
  "soma_loop 0 vPoints soma_queue rootPts st = None"
| "soma_loop (Suc fuel) vPoints [] rootPts st = Some (Inr (rootPts, st))"
| "soma_loop (Suc fuel) vPoints ((pind, ind) # soma_queue) rootPts st =
     (if \<not> (ind < length vPoints \<and> ind < length (ptProcessed st)) then Some (Inl IndexOutOfRange)
      else
        let pt = vPoints ! ind
        in if type pt = SWC_SOMA
           then soma_loop fuel vPoints
                  (soma_queue @ map (Pair ind) (filter (\<lambda>c. c \<noteq> pind) (conns pt))) rootPts
                  (st \<lparr> ptProcessed := (ptProcessed st)[ind := True], nProcessed := nProcessed st + 1 \<rparr>)
           else soma_loop fuel vPoints soma_queue (rootPts @ [(pind, ind)]) st)"

text \<open>The first soma point that is not processed yet.\<close>

definition find_soma :: "SWCPoint list \<Rightarrow> bool list \<Rightarrow> nat option" where
  "find_soma vPoints processed =
     find (\<lambda>i. type (vPoints ! i) = SWC_SOMA \<and> \<not> processed ! i) [0..<length vPoints]"

text \<open>\<^verbatim>\<open>(size_t)-1\<close>, the parent index of the first soma point in the queue.\<close>

definition no_parent :: nat where
  "no_parent = 2 ^ 64 - 1"

text \<open>The outer loop \<^verbatim>\<open>while (nProcessed != nPts)\<close>, one neuron in each pass.\<close>

fun convert_loop :: "nat \<Rightarrow> SWCPoint list \<Rightarrow> neurite_lists \<Rightarrow> (error + neurite_lists) option" where
  "convert_loop 0 vPoints st = None"
| "convert_loop (Suc fuel) vPoints st =
     (if nProcessed st = length vPoints then Some (Inr st)
      else case find_soma vPoints (ptProcessed st) of
             None \<Rightarrow> Some (Inl NoSoma)
           | Some i \<Rightarrow>
               (case soma_loop fuel vPoints [(no_parent, i)] []
                       (st \<lparr> vSomaPoints := vSomaPoints st @ [vPoints ! i] \<rparr>) of
                  None \<Rightarrow> None
                | Some (Inl e) \<Rightarrow> Some (Inl e)
                | Some (Inr (rootPts, st1)) \<Rightarrow>
                    (case walk_loop fuel vPoints
                            \<lparr> vSomaPoints = vSomaPoints st1,
                              vPosOut = vPosOut st1 @ replicate (length rootPts) [],
                              vRadOut = vRadOut st1 @ replicate (length rootPts) [],
                              vBPInfoOut = vBPInfoOut st1 @ replicate (length rootPts) [],
                              vRootNeuriteIndsOut = vRootNeuriteIndsOut st1 @ [curNeuriteInd st1],
                              ptProcessed = ptProcessed st1,
                              nProcessed = nProcessed st1,
                              curNeuriteInd = curNeuriteInd st1,
                              processing_stack = rev rootPts,
                              helperMap = [] \<rparr> of
                       None \<Rightarrow> None
                     | Some (Inl e) \<Rightarrow> Some (Inl e)
                     | Some (Inr w) \<Rightarrow>
                         convert_loop fuel vPoints
                           \<lparr> vSomaPoints = vSomaPoints w, vPosOut = vPosOut w, vRadOut = vRadOut w,
                             vBPInfoOut = vBPInfoOut w, vRootNeuriteIndsOut = vRootNeuriteIndsOut w,
                             ptProcessed = ptProcessed w, nProcessed = nProcessed w,
                             curNeuriteInd = curNeuriteInd w + 1 \<rparr>)))"

text \<open>
  \<^verbatim>\<open>convert_pointlist_to_neuritelist\<close>: the output vectors but \<^verbatim>\<open>vSomaPoints\<close> are cleared.
\<close>

definition convert_pointlist_to_neuritelist ::
  "nat \<Rightarrow> SWCPoint list \<Rightarrow> SWCPoint list \<Rightarrow> (error + neurite_lists) option" where
  "convert_pointlist_to_neuritelist fuel vPoints vSomaPointsIn =
     convert_loop fuel vPoints
       \<lparr> vSomaPoints = vSomaPointsIn, vPosOut = [], vRadOut = [], vBPInfoOut = [],
         vRootNeuriteIndsOut = [], ptProcessed = replicate (length vPoints) False,
         nProcessed = 0, curNeuriteInd = 0 \<rparr>"

text \<open>The first \<open>k\<close> passes of the loop of the walk.\<close>

fun walk_steps :: "nat \<Rightarrow> SWCPoint list \<Rightarrow> walk_state \<Rightarrow> error + walk_state" where
  "walk_steps 0 vPoints st = Inr st"
| "walk_steps (Suc k) vPoints st =
     (case walk_step vPoints st of Inl e \<Rightarrow> Inl e | Inr st' \<Rightarrow> walk_steps k vPoints st')"

text \<open>
  Examples. A neuron with a soma, two points of a dendrite and, at the second, two
  children at the same angle of 90 degrees to the incoming direction; and a dendrite
  between two soma points.
\<close>

definition ex_pt :: "swc_type \<Rightarrow> vector3 \<Rightarrow> nat list \<Rightarrow> SWCPoint" where
  "ex_pt ty c cs = \<lparr> type = ty, coords = c, radius = 1, conns = cs \<rparr>"

definition ex_fork :: "SWCPoint list" where
  "ex_fork = [ex_pt SWC_SOMA (0, 0, 0) [1], ex_pt SWC_DEND (1, 0, 0) [0, 2],
              ex_pt SWC_DEND (2, 0, 0) [1, 3, 4], ex_pt SWC_DEND (2, 1, 0) [2],
              ex_pt SWC_DEND (2, - 1, 0) [2]]"

definition ex_two_somata :: "SWCPoint list" where
  "ex_two_somata = [ex_pt SWC_SOMA (0, 0, 0) [1], ex_pt SWC_DEND (1, 0, 0) [0, 2],
                    ex_pt SWC_SOMA (2, 0, 0) [1]]"

definition ex_fork_lists :: neurite_lists where
  "ex_fork_lists =
     \<lparr> vSomaPoints = [ex_pt SWC_SOMA (0, 0, 0) [1]],
       vPosOut = [[(1, 0, 0), (2, 0, 0), (2, 1, 0)], [(2, 0, 0), (2, - 1, 0)]],
       vRadOut = [[1, 1, 1], [1, 1]],
       vBPInfoOut = [[(1, [1])], []],
       vRootNeuriteIndsOut = [0],
       ptProcessed = [True, True, True, True, True],
       nProcessed = 5, curNeuriteInd = 2 \<rparr>"

text \<open>
  The states of the walk through the first example, from the root point of its dendrite
  to its end, and the two first states of the walk through the second example.
\<close>

definition ex_w0 :: walk_state where
  "ex_w0 = \<lparr> vSomaPoints = [ex_pt SWC_SOMA (0, 0, 0) [1]], vPosOut = [[]], vRadOut = [[]], vBPInfoOut = [[]],
       vRootNeuriteIndsOut = [0], ptProcessed = [True, False, False, False, False],
       nProcessed = 1, curNeuriteInd = 0, processing_stack = [(0, 1)], helperMap = [] \<rparr>"

definition ex_w1 :: walk_state where
  "ex_w1 = ex_w0 \<lparr> vPosOut := [[(1, 0, 0)]], vRadOut := [[1]],
      ptProcessed := [True, True, False, False, False], nProcessed := 2, processing_stack := [(1, 2)] \<rparr>"

definition ex_w2 :: walk_state where
  "ex_w2 = ex_w0 \<lparr> vPosOut := [[(1, 0, 0), (2, 0, 0)], []], vRadOut := [[1, 1], []],
      vBPInfoOut := [[(1, [])], []],
      ptProcessed := [True, True, True, False, False], nProcessed := 3,
      processing_stack := [(2, 3), (2, 4)], helperMap := [(2, 0, 0)] \<rparr>"

definition ex_w3 :: walk_state where
  "ex_w3 = ex_w0 \<lparr> vPosOut := [[(1, 0, 0), (2, 0, 0), (2, 1, 0)], [(2, 0, 0)]], vRadOut := [[1, 1, 1], [1]],
      vBPInfoOut := [[(1, [1])], []],
      ptProcessed := [True, True, True, True, False], nProcessed := 4, curNeuriteInd := 1,
      processing_stack := [(2, 4)], helperMap := [(2, 0, 0)] \<rparr>"

definition ex_w4 :: walk_state where
  "ex_w4 = ex_w0 \<lparr> vPosOut := [[(1, 0, 0), (2, 0, 0), (2, 1, 0)], [(2, 0, 0), (2, - 1, 0)]],
      vRadOut := [[1, 1, 1], [1, 1]], vBPInfoOut := [[(1, [1])], []],
      ptProcessed := [True, True, True, True, True], nProcessed := 5, curNeuriteInd := 1,
      processing_stack := [], helperMap := [(2, 0, 0)] \<rparr>"

definition ex_v0 :: walk_state where
  "ex_v0 = \<lparr> vSomaPoints = [ex_pt SWC_SOMA (0, 0, 0) [1]], vPosOut = [[]], vRadOut = [[]], vBPInfoOut = [[]],
       vRootNeuriteIndsOut = [0], ptProcessed = [True, False, False],
       nProcessed = 1, curNeuriteInd = 0, processing_stack = [(0, 1)], helperMap = [] \<rparr>"

definition ex_v1 :: walk_state where
  "ex_v1 = ex_v0 \<lparr> vPosOut := [[(1, 0, 0)]], vRadOut := [[1]],
      ptProcessed := [True, True, False], nProcessed := 2, processing_stack := [(1, 2)] \<rparr>"

text \<open>
  The third example: the points (1,1,1), (2,2,2) and (3,3,3) lie on a line, and at
  (2,2,2) a second child leaves at a right angle, to (3,1,2). The straight child is the
  first in the connection list of the branching point. The states are those of the walk.
\<close>

definition ex_diag :: "SWCPoint list" where
  "ex_diag = [ex_pt SWC_SOMA (0, 0, 0) [1], ex_pt SWC_DEND (1, 1, 1) [0, 2],
              ex_pt SWC_DEND (2, 2, 2) [1, 3, 4], ex_pt SWC_DEND (3, 3, 3) [2],
              ex_pt SWC_DEND (3, 1, 2) [2]]"

text \<open>
  The doubles of this example: the length of (1,1,1), its inverse, the square of the
  inverse, twice the square, and the product of the normalised vector with itself, which
  is \<open>1 + 2^-52\<close>.
\<close>

definition ex_len3 :: real where
  "ex_len3 = 7800463371553962 / 2 ^ 52"

definition ex_inv3 :: real where
  "ex_inv3 = 5200308914369309 / 2 ^ 53"

definition ex_sq3 :: real where
  "ex_sq3 = 6004799503160663 / 2 ^ 54"

definition ex_twice_sq3 :: real where
  "ex_twice_sq3 = 6004799503160663 / 2 ^ 53"

definition ex_dot3 :: real where
  "ex_dot3 = 4503599627370497 / 2 ^ 52"

definition ex_d1 :: walk_state where
  "ex_d1 = ex_w0 \<lparr> vPosOut := [[(1, 1, 1)]], vRadOut := [[1]],
      ptProcessed := [True, True, False, False, False], nProcessed := 2, processing_stack := [(1, 2)] \<rparr>"

definition ex_d2 :: walk_state where
  "ex_d2 = ex_w0 \<lparr> vPosOut := [[(1, 1, 1), (2, 2, 2)], []], vRadOut := [[1, 1], []],
      vBPInfoOut := [[(1, [])], []],
      ptProcessed := [True, True, True, False, False], nProcessed := 3,
      processing_stack := [(2, 4), (2, 3)], helperMap := [(2, 0, 0)] \<rparr>"

definition ex_d3 :: walk_state where
  "ex_d3 = ex_w0 \<lparr> vPosOut := [[(1, 1, 1), (2, 2, 2), (3, 1, 2)], [(2, 2, 2)]], vRadOut := [[1, 1, 1], [1]],
      vBPInfoOut := [[(1, [1])], []],
      ptProcessed := [True, True, True, False, True], nProcessed := 4, curNeuriteInd := 1,
      processing_stack := [(2, 3)], helperMap := [(2, 0, 0)] \<rparr>"

definition ex_d4 :: walk_state where
  "ex_d4 = ex_w0 \<lparr> vPosOut := [[(1, 1, 1), (2, 2, 2), (3, 1, 2)], [(2, 2, 2), (3, 3, 3)]],
      vRadOut := [[1, 1, 1], [1, 1]], vBPInfoOut := [[(1, [1])], []],
      ptProcessed := [True, True, True, True, True], nProcessed := 5, curNeuriteInd := 1,
      processing_stack := [], helperMap := [(2, 0, 0)] \<rparr>"

definition ex_diag_lists :: neurite_lists where
  "ex_diag_lists =
     \<lparr> vSomaPoints = [ex_pt SWC_SOMA (0, 0, 0) [1]],
       vPosOut = [[(1, 1, 1), (2, 2, 2), (3, 1, 2)], [(2, 2, 2), (3, 3, 3)]],
       vRadOut = [[1, 1, 1], [1, 1]],
       vBPInfoOut = [[(1, [1])], []],
       vRootNeuriteIndsOut = [0],
       ptProcessed = [True, True, True, True, True],
       nProcessed = 5, curNeuriteInd = 2 \<rparr>"

section \<open>Properties\<close>

subsection \<open>Arithmetic\<close>

lemma sqrt_sq_eq: "0 \<le> a \<Longrightarrow> b = a * a \<Longrightarrow> sqrt b = a"
  by (simp add: real_sqrt_mult)


subsection \<open>Rounding to double precision\<close>

lemma round_even_near:
  assumes "\<bar>q - of_int m\<bar> < 1 / 2"
  shows "round_even q = m"
proof (cases "of_int m \<le> q")
  case True
  then have "\<lfloor>q\<rfloor> = m" using assms by (intro floor_unique) (simp_all add: abs_less_iff)
  then show ?thesis using assms True by (simp add: round_even_def Let_def abs_less_iff)
next
  case False
  then have "\<lfloor>q\<rfloor> = m - 1" using assms by (intro floor_unique) (simp_all add: abs_less_iff)
  then show ?thesis using assms False by (simp add: round_even_def Let_def abs_less_iff)
qed

lemma round_even_of_int: "round_even (of_int m) = m"
  by (rule round_even_near) simp

lemma round_even_bounds: "of_int (round_even q) \<le> q + 1 / 2" "q - 1 / 2 \<le> of_int (round_even q)"
proof -
  have f: "of_int \<lfloor>q\<rfloor> \<le> q" "q < of_int \<lfloor>q\<rfloor> + 1" by linarith+
  consider "q - of_int \<lfloor>q\<rfloor> < 1 / 2" | "1 / 2 < q - of_int \<lfloor>q\<rfloor>" | "q - of_int \<lfloor>q\<rfloor> = 1 / 2"
    by linarith
  then have "of_int (round_even q) \<le> q + 1 / 2 \<and> q - 1 / 2 \<le> of_int (round_even q)"
  proof cases
    case 1
    then have "real_of_int (round_even q) = of_int \<lfloor>q\<rfloor>" by (simp add: round_even_def)
    then show ?thesis using f 1 by linarith
  next
    case 2
    then have "real_of_int (round_even q) = of_int \<lfloor>q\<rfloor> + 1" by (simp add: round_even_def Let_def)
    then show ?thesis using f 2 by linarith
  next
    case 3
    then have "real_of_int (round_even q) = of_int \<lfloor>q\<rfloor> \<or> real_of_int (round_even q) = of_int \<lfloor>q\<rfloor> + 1"
      by (simp add: round_even_def Let_def)
    then show ?thesis using f 3 by linarith
  qed
  then show "of_int (round_even q) \<le> q + 1 / 2" "q - 1 / 2 \<le> of_int (round_even q)" by simp_all
qed

lemma round_even_minus: "round_even (- q) = - round_even q"
proof (cases "q = of_int \<lfloor>q\<rfloor>")
  case True
  then obtain m where "q = of_int m" by blast
  then show ?thesis using round_even_of_int[of "- m"] round_even_of_int[of m] by simp
next
  case False
  then have f: "\<lfloor>- q\<rfloor> = - \<lfloor>q\<rfloor> - 1"
    by (intro floor_unique) linarith+
  have d: "- q - of_int (- \<lfloor>q\<rfloor> - 1) = 1 - (q - of_int \<lfloor>q\<rfloor>)" by simp
  show ?thesis
    unfolding round_even_def Let_def f d by auto
qed

lemma floor_log2:
  fixes x :: real
  assumes "2 powr of_int b \<le> x" and "x < 2 powr (of_int b + 1)"
  shows "\<lfloor>log 2 x\<rfloor> = b"
proof -
  have "0 < (2::real) powr of_int b" by simp
  then have p: "0 < x" using assms(1) by linarith
  have c: "2 powr log 2 x = x" using p by simp
  have "2 powr of_int b \<le> 2 powr log 2 x" using assms(1) unfolding c .
  then have "of_int b \<le> log 2 x" by (subst (asm) powr_le_cancel_iff) simp_all
  moreover have "2 powr log 2 x < 2 powr (of_int b + 1)" using assms(2) unfolding c .
  then have "log 2 x < of_int b + 1" by (subst (asm) powr_less_cancel_iff) simp_all
  ultimately show ?thesis by (intro floor_unique) simp_all
qed


text \<open>The unit of a number: \<open>x / u\<close> lies between \<open>2^52\<close> and \<open>2^53\<close>.\<close>

lemma unit_bounds:
  assumes "x \<noteq> 0"
  defines "u \<equiv> 2 powr (of_int \<lfloor>log 2 \<bar>x\<bar>\<rfloor> - 52)"
  shows "0 < u" and "2 ^ 52 \<le> \<bar>x\<bar> / u" and "\<bar>x\<bar> / u < 2 ^ 53"
proof -
  let ?b = "\<lfloor>log 2 \<bar>x\<bar>\<rfloor>"
  show u: "0 < u" by (simp add: u_def)
  have p: "0 < \<bar>x\<bar>" using assms(1) by simp
  have c: "2 powr log 2 \<bar>x\<bar> = \<bar>x\<bar>" using p by simp
  have "2 powr of_int ?b \<le> 2 powr log 2 \<bar>x\<bar>" by (subst powr_le_cancel_iff) simp_all
  then have lo: "2 powr of_int ?b \<le> \<bar>x\<bar>" unfolding c .
  have "log 2 \<bar>x\<bar> < of_int ?b + 1" by linarith
  then have "2 powr log 2 \<bar>x\<bar> < 2 powr (of_int ?b + 1)" by (subst powr_less_cancel_iff) simp_all
  then have hi: "\<bar>x\<bar> < 2 powr (of_int ?b + 1)" unfolding c .
  have e1: "2 powr of_int ?b = 2 ^ 52 * u"
    unfolding u_def by (simp add: powr_diff powr_realpow[symmetric])
  have e2: "2 powr (of_int ?b + 1) = 2 ^ 53 * u"
    unfolding u_def by (simp add: powr_diff powr_add powr_realpow[symmetric])
  show "2 ^ 52 \<le> \<bar>x\<bar> / u" using lo u unfolding e1 by (simp add: pos_le_divide_eq)
  show "\<bar>x\<bar> / u < 2 ^ 53" using hi u unfolding e2 by (simp add: pos_divide_less_eq)
qed

lemma round_double_near:
  fixes m e :: int
  assumes "2 ^ 52 < \<bar>m\<bar>" and "\<bar>m\<bar> < 2 ^ 53"
    and "\<bar>x / 2 powr of_int e - of_int m\<bar> < 1 / 2"
  shows "round_double x = of_int m * 2 powr of_int e"
proof -
  let ?q = "x / 2 powr of_int e"
  have m1: "2 ^ 52 + 1 \<le> \<bar>real_of_int m\<bar>"
  proof -
    have "2 ^ 52 + 1 \<le> \<bar>m\<bar>" using assms(1) by simp
    then have "real_of_int (2 ^ 52 + 1) \<le> real_of_int \<bar>m\<bar>" by (rule of_int_le_iff[THEN iffD2])
    then show ?thesis by simp
  qed
  have m2: "\<bar>real_of_int m\<bar> \<le> 2 ^ 53 - 1"
  proof -
    have "\<bar>m\<bar> \<le> 2 ^ 53 - 1" using assms(2) by simp
    then have "real_of_int \<bar>m\<bar> \<le> real_of_int (2 ^ 53 - 1)" by (rule of_int_le_iff[THEN iffD2])
    then show ?thesis by simp
  qed
  have q: "2 ^ 52 \<le> \<bar>?q\<bar>" "\<bar>?q\<bar> < 2 ^ 53"
    using m1 m2 assms(3) by linarith+
  have x0: "x \<noteq> 0" using q(1) by auto
  have aq: "\<bar>?q\<bar> = \<bar>x\<bar> / 2 powr of_int e" by simp
  have lo: "2 powr of_int (e + 52) \<le> \<bar>x\<bar>"
    using q(1) unfolding aq by (simp add: powr_add powr_realpow[symmetric] pos_le_divide_eq mult.commute)
  have hi: "\<bar>x\<bar> < 2 powr (of_int (e + 52) + 1)"
    using q(2) unfolding aq
    by (simp add: powr_add powr_realpow[symmetric] pos_divide_less_eq mult.commute mult.left_commute)
  have b: "\<lfloor>log 2 \<bar>x\<bar>\<rfloor> = e + 52" by (rule floor_log2[OF lo hi])
  have "round_even ?q = m" by (rule round_even_near[OF assms(3)])
  then show ?thesis using x0 by (simp add: round_double_def b)
qed


lemma round_double_0 [simp]: "round_double 0 = 0"
  by (simp add: round_double_def)

lemma round_double_minus: "round_double (- x) = - round_double x"
  by (simp add: round_double_def Let_def round_even_minus)

lemma round_double_pos:
  assumes "0 < x"
  shows "0 < round_double x"
proof -
  let ?u = "2 powr (of_int \<lfloor>log 2 \<bar>x\<bar>\<rfloor> - 52)"
  have x0: "x \<noteq> 0" using assms by simp
  have "2 ^ 52 \<le> \<bar>x\<bar> / ?u" by (rule unit_bounds(2)[OF x0])
  then have "2 ^ 52 \<le> x / ?u" using assms by simp
  moreover have "(1::real) \<le> 2 ^ 52" by simp
  ultimately have "0 < real_of_int (round_even (x / ?u))"
    using round_even_bounds(2)[of "x / ?u"] by linarith
  then show ?thesis using x0 by (simp add: round_double_def Let_def)
qed

lemma round_double_exact_less:
  fixes m e :: int
  assumes "\<bar>m\<bar> < 2 ^ 53"
  shows "round_double (of_int m * 2 powr of_int e) = of_int m * 2 powr of_int e"
proof (cases "m = 0")
  case True
  then show ?thesis by simp
next
  case False
  let ?x = "real_of_int m * 2 powr of_int e"
  let ?b = "\<lfloor>log 2 \<bar>?x\<bar>\<rfloor>"
  let ?u = "2 powr (of_int ?b - 52)"
  define k where "k = e - ?b + 52"
  have x0: "?x \<noteq> 0" using False by simp
  have q: "?x / ?u = of_int m * 2 powr of_int k"
    by (simp add: k_def powr_diff powr_add)
  have "2 ^ 52 \<le> \<bar>?x\<bar> / ?u" by (rule unit_bounds(2)[OF x0])
  then have lo: "2 ^ 52 \<le> \<bar>real_of_int m\<bar> * 2 powr of_int k"
    using q by (simp add: abs_mult)
  have m: "\<bar>real_of_int m\<bar> < 2 ^ 53"
  proof -
    have "real_of_int \<bar>m\<bar> < real_of_int (2 ^ 53)" using assms by (rule of_int_less_iff[THEN iffD2])
    then show ?thesis by simp
  qed
  have k0: "0 \<le> k"
  proof (rule ccontr)
    assume "\<not> 0 \<le> k"
    then have "real_of_int k \<le> - 1" by simp
    then have "(2::real) powr of_int k \<le> 2 powr (- 1 :: real)" by (subst powr_le_cancel_iff) simp_all
    then have "(2::real) powr of_int k \<le> 1 / 2" by (simp add: powr_minus inverse_eq_divide)
    then have "\<bar>real_of_int m\<bar> * 2 powr of_int k \<le> \<bar>real_of_int m\<bar> * (1 / 2)"
      by (intro mult_left_mono) simp_all
    moreover have "(2::real) ^ 53 = 2 * 2 ^ 52" by simp
    ultimately show False using lo m by linarith
  qed
  have p: "2 powr real_of_int k = 2 ^ nat k"
    using k0 by (simp add: powr_realpow[symmetric])
  have "?x / ?u = real_of_int (m * 2 ^ nat k)" unfolding q p by simp
  then have "round_even (?x / ?u) = m * 2 ^ nat k" by (simp only: round_even_of_int)
  then have "round_double ?x = real_of_int (m * 2 ^ nat k) * ?u"
    using x0 by (simp add: round_double_def Let_def)
  also have "\<dots> = (?x / ?u) * ?u" unfolding q p by simp
  also have "\<dots> = ?x" by simp
  finally show ?thesis .
qed

lemma round_double_exact:
  fixes m e :: int
  assumes "\<bar>m\<bar> \<le> 2 ^ 53"
  shows "round_double (of_int m * 2 powr of_int e) = of_int m * 2 powr of_int e"
proof (cases "\<bar>m\<bar> < 2 ^ 53")
  case True
  then show ?thesis by (rule round_double_exact_less)
next
  case False
  then have v: "m = 2 ^ 53 \<or> m = - (2 ^ 53)" using assms by linarith
  then have e: "real_of_int m * 2 powr of_int e = real_of_int (m div 2) * 2 powr of_int (e + 1)"
    by (auto simp add: powr_add)
  have "\<bar>m div 2\<bar> < 2 ^ 53" using v by auto
  then show ?thesis unfolding e by (rule round_double_exact_less)
qed

lemma round_double_idem: "round_double (round_double x) = round_double x"
proof (cases "x = 0")
  case True
  then show ?thesis by simp
next
  case False
  let ?b = "\<lfloor>log 2 \<bar>x\<bar>\<rfloor>"
  let ?u = "2 powr (of_int ?b - 52)"
  let ?n = "round_even (x / ?u)"
  have r: "round_double x = of_int ?n * 2 powr of_int (?b - 52)"
    using False by (simp add: round_double_def Let_def)
  have "\<bar>x\<bar> / ?u < 2 ^ 53" by (rule unit_bounds(3)[OF False])
  then have "\<bar>x / ?u\<bar> < 2 ^ 53" by simp
  then have "\<bar>real_of_int ?n\<bar> < 2 ^ 53 + 1"
    using round_even_bounds[of "x / ?u"] by linarith
  then have "real_of_int \<bar>?n\<bar> < real_of_int (2 ^ 53 + 1)" by simp
  then have "\<bar>?n\<bar> < 2 ^ 53 + 1" by (rule of_int_less_iff[THEN iffD1])
  then have "\<bar>?n\<bar> \<le> 2 ^ 53" by simp
  then show ?thesis unfolding r by (rule round_double_exact)
qed

text \<open>The lemmas in the form in which the examples use them.\<close>

lemma round_double_near_div:
  fixes m :: int and k :: nat
  assumes "2 ^ 52 < m" and "m < 2 ^ 53" and "\<bar>x * 2 ^ k - of_int m\<bar> < 1 / 2"
  shows "round_double x = of_int m / 2 ^ k"
proof -
  have p: "2 powr real_of_int (- int k) = 1 / 2 ^ k"
    by (simp add: powr_minus powr_realpow inverse_eq_divide)
  have "\<bar>x / 2 powr real_of_int (- int k) - of_int m\<bar> < 1 / 2"
    using assms(3) unfolding p by simp
  then have "round_double x = of_int m * 2 powr real_of_int (- int k)"
    using assms(1,2) by (intro round_double_near) simp_all
  then show ?thesis unfolding p by simp
qed

lemma round_double_exact_div:
  fixes m :: int and k :: nat
  assumes "\<bar>m\<bar> \<le> 2 ^ 53"
  shows "round_double (of_int m / 2 ^ k) = of_int m / 2 ^ k"
proof -
  have p: "2 powr real_of_int (- int k) = 1 / 2 ^ k"
    by (simp add: powr_minus powr_realpow inverse_eq_divide)
  show ?thesis using round_double_exact[OF assms, of "- int k"] unfolding p by simp
qed

lemma round_double_of_int:
  fixes m :: int
  assumes "\<bar>m\<bar> \<le> 2 ^ 53"
  shows "round_double (of_int m) = of_int m"
  using round_double_exact[OF assms, of 0] by simp

lemma round_double_1 [simp]: "round_double 1 = 1"
  using round_double_of_int[of 1] by simp

lemma round_double_numeral [simp]:
  "(numeral n :: int) \<le> 2 ^ 53 \<Longrightarrow> round_double (numeral n) = numeral n"
  using round_double_of_int[of "numeral n"] by simp

lemma flt_trans: "flt a b \<Longrightarrow> flt b c \<Longrightarrow> flt a c"
  by (cases a; cases b; cases c) simp_all

lemma flt_irrefl: "\<not> flt a a"
  by (cases a) simp_all

lemma flt_PInf: "a \<noteq> NaN \<Longrightarrow> a \<noteq> PInf \<Longrightarrow> flt a PInf"
  by (cases a) simp_all

lemmas d_ops = d_add_def d_sub_def d_mul_def d_div_def d_sqrt_def round_double_minus
  VecSubtract_d.simps VecProd_d.simps VecScale_d.simps

subsection \<open>The example branch points\<close>

lemma ex_neurite_length: "neurite_length (ex_vPos ! 0) = 10"
  by (simp add: ex_vPos_def VecDistance_def VecLength_def VecNormSquared_def sqrt_sq_eq[of 5])

lemma ex_find_brSec: "find_brSec (vSec (ex_vNeurites ! 0)) 0 (1 / 2) = 0"
  by (simp add: find_brSec_def ex_vNeurites_def ex_parent_def)

lemma ex_brScProd: 
  "brScProd_of (vSec (ex_vNeurites ! 0) ! 0) (vSec (ex_vNeurites ! 1) ! 0) = Fin (4 / 5)"
  "brScProd_of (vSec (ex_vNeurites ! 0) ! 0) (vSec (ex_vNeurites ! 2) ! 0) = Fin 0"
  by (simp_all add: brScProd_of_def neuriteDir_at_def branchDir_of_def section_end_velocity_def
      section_velocity_def ex_vNeurites_def ex_parent_def ex_child_def VecNormalize_def VecLength_def
      VecNormSquared_def sqrt_sq_eq[of 5] sqrt_sq_eq[of 10] Let_def)





lemma ex_geom2: "branch_geometry ex_vNeurites ex_vR 0 0 (ex_brit 2) 2 =
  Inr \<lparr> g_bpTPos = 1 / 2, g_surfBPoffset = Fin 0, g_branchOffset = Fin (sqrt 2 / 4),
        g_surfBPhalfLength = Fin (1 / 2) \<rparr>"
proof -
  have b: "br_t (ex_brit 2) = 1 / 2" by (simp add: ex_brit_def)
  have l: "length ex_vNeurites = 4" "length (vSec (ex_vNeurites ! 0)) = 2" "length (vSec (ex_vNeurites ! 2)) = 1"
    by (simp_all add: ex_vNeurites_def ex_parent_def ex_child_def)
  have r: "length ex_vR = 4" "ex_vR ! 0 = [1 / 2, 1 / 2, 1 / 2]" "ex_vR ! 2 = [1 / 2, 1 / 4]"
    by (simp_all add: ex_vR_def)
  show ?thesis
    by (simp add: branch_geometry_def Let_def b ex_find_brSec l r ex_brScProd fsub_def)
qed

lemma ex_region2: "create_neurite_branching_region ex_vNeurites ex_vPos ex_vR 0 0 (ex_brit 2) = Inr ex_st_perp"
proof -
  have v: "tl (vNid (bp (ex_brit 2))) = [2]" "length ex_vPos = 4" by (simp_all add: ex_brit_def ex_vPos_def)
  show ?thesis
    by (simp add: create_neurite_branching_region_def v ex_geom2 ex_neurite_length update_extent_def
        bp_state_init_def std_min_def std_max_def fsub_def ex_st_perp_def)
qed

lemma ex_region2_er: "create_neurite_with_er_branching_region ex_vNeurites ex_vPos ex_vR 0 0 (ex_brit 2) = Inr ex_st_perp"
proof -
  have v: "tl (vNid (bp (ex_brit 2))) = [2]" "length ex_vPos = 4" by (simp_all add: ex_brit_def ex_vPos_def)
  show ?thesis
    by (simp add: create_neurite_with_er_branching_region_def v ex_geom2 ex_neurite_length update_extent_er_def
        bp_state_init_def std_min_def std_max_def fsub_def ex_st_perp_def)
qed

subsection \<open>Branch geometry\<close>

lemma branch_geometry_InrD:
  assumes "branch_geometry vNeurites vR nid curSec brit brInd = Inr g"
  shows "g = (let brSec = find_brSec (vSec (vNeurites ! nid)) curSec (br_t brit);
                 c = brScProd_of (vSec (vNeurites ! nid) ! brSec) (vSec (vNeurites ! brInd) ! 0);
                 sinAlphaInv = fdiv (Fin 1) (fsqrt (fsub (Fin 1) (fmul c c)))
             in \<lparr> g_bpTPos = br_t brit,
                  g_surfBPoffset = fmul (fmul (Fin (1 / 2 * sqrt 2 * (vR ! nid ! (brSec + 1)))) c) sinAlphaInv,
                  g_branchOffset = fmul (Fin (1 / 2 * sqrt 2 * (vR ! nid ! (brSec + 1)))) sinAlphaInv,
                  g_surfBPhalfLength = fmul (Fin (vR ! brInd ! 0)) sinAlphaInv \<rparr>)"
  using assms by (simp add: branch_geometry_def Let_def split: if_splits)

lemma branch_geometry_InrI:
  assumes "nid < length vNeurites" "nid < length vR" "brInd < length vR" "vR ! brInd \<noteq> []"
    and "brInd < length vNeurites" "vSec (vNeurites ! brInd) \<noteq> []"
    and "find_brSec (vSec (vNeurites ! nid)) curSec (br_t brit) < length (vSec (vNeurites ! nid))"
    and "find_brSec (vSec (vNeurites ! nid)) curSec (br_t brit) + 1 < length (vR ! nid)"
  shows "\<exists>g. branch_geometry vNeurites vR nid curSec brit brInd = Inr g"
  using assms by (simp add: branch_geometry_def Let_def)

lemma single_child_region:
  assumes "tl (vNid (bp brit)) = [child]"
    and "create_neurite_branching_region vNeurites vPos vR nid curSec brit = Inr st"
  shows "\<exists>g. branch_geometry vNeurites vR nid curSec brit child = Inr g \<and>
             st = update_extent (neurite_length (vPos ! nid)) bp_state_init g"
  using assms
  by (auto simp add: create_neurite_branching_region_def split: if_splits sum.splits)

lemma single_child_region_er:
  assumes "tl (vNid (bp brit)) = [child]"
    and "create_neurite_with_er_branching_region vNeurites vPos vR nid curSec brit = Inr st"
  shows "\<exists>g. branch_geometry vNeurites vR nid curSec brit child = Inr g \<and>
             st = update_extent_er (neurite_length (vPos ! nid)) bp_state_init g"
  using assms
  by (auto simp add: create_neurite_with_er_branching_region_def split: if_splits sum.splits)

lemma update_extent_fields:
  "surfBPoffset (update_extent L st g) = g_surfBPoffset g"
  "surfBPhalfLength (update_extent L st g) = g_surfBPhalfLength g"
  "surfBPoffset (update_extent_er L st g) = g_surfBPoffset g"
  "surfBPhalfLength (update_extent_er L st g) = g_surfBPhalfLength g"
  by (simp_all add: update_extent_def update_extent_er_def)





text \<open>
  Claim C7. When the dot product of the normalised parent tangent and the normalised
  initial tangent of the child is 0 (a branch at 90 degrees), the half-length of the
  branching region is the radius at the child's first support point and the offset is 0,
  in \<^verbatim>\<open>create_neurite\<close> and in \<^verbatim>\<open>create_neurite_with_er\<close>.
\<close>

theorem right_angle_branch:
  assumes "tl (vNid (bp brit)) = [child]"
    and "create_neurite_branching_region vNeurites vPos vR nid curSec brit = Inr st"
    and "create_neurite_with_er_branching_region vNeurites vPos vR nid curSec brit = Inr st_er"
    and "brScProd_of (vSec (vNeurites ! nid) ! find_brSec (vSec (vNeurites ! nid)) curSec (br_t brit))
           (vSec (vNeurites ! child) ! 0) = Fin 0"
  shows "surfBPhalfLength st = Fin (vR ! child ! 0) \<and> surfBPoffset st = Fin 0 \<and>
         surfBPhalfLength st_er = Fin (vR ! child ! 0) \<and> surfBPoffset st_er = Fin 0"
proof -
  obtain g where g: "branch_geometry vNeurites vR nid curSec brit child = Inr g"
    and st: "st = update_extent (neurite_length (vPos ! nid)) bp_state_init g"
    using single_child_region[OF assms(1,2)] by blast
  obtain g' where g': "branch_geometry vNeurites vR nid curSec brit child = Inr g'"
    and st_er: "st_er = update_extent_er (neurite_length (vPos ! nid)) bp_state_init g'"
    using single_child_region_er[OF assms(1,3)] by blast
  have e: "g' = g" using g g' by simp
  note d = branch_geometry_InrD[OF g, unfolded Let_def assms(4)]
  have "g_surfBPhalfLength g = Fin (vR ! child ! 0)" "g_surfBPoffset g = Fin 0"
    by (subst d, simp add: fsub_def)+
  then show ?thesis
    by (simp add: st st_er e update_extent_fields)
qed

text \<open>The theorem at child 2 of the example.\<close>

theorem right_angle_branch_witness:
  "create_neurite_branching_region ex_vNeurites ex_vPos ex_vR 0 0 (ex_brit 2) = Inr ex_st_perp \<and>
   create_neurite_with_er_branching_region ex_vNeurites ex_vPos ex_vR 0 0 (ex_brit 2) = Inr ex_st_perp \<and>
   surfBPhalfLength ex_st_perp = Fin (ex_vR ! 2 ! 0) \<and> surfBPoffset ex_st_perp = Fin 0"
proof -
  have v: "tl (vNid (bp (ex_brit 2))) = [2]" by (simp add: ex_brit_def)
  have c: "brScProd_of (vSec (ex_vNeurites ! 0) ! find_brSec (vSec (ex_vNeurites ! 0)) 0 (br_t (ex_brit 2)))
           (vSec (ex_vNeurites ! 2) ! 0) = Fin 0"
    using ex_find_brSec ex_brScProd(2) by (simp add: ex_brit_def)
  show ?thesis
    using right_angle_branch[OF v ex_region2 ex_region2_er c] ex_region2 ex_region2_er by simp
qed






text \<open>
  The branch geometry raises no error but those of the indices and of the section that
  is not found; the angle between the tangents is not looked at.
\<close>

lemma branching_region_returns:
  assumes "tl (vNid (bp brit)) = [child]"
    and "nid < length vNeurites" and "nid < length vR" and "nid < length vPos"
    and "child < length vR" and "vR ! child \<noteq> []"
    and "child < length vNeurites" and "vSec (vNeurites ! child) \<noteq> []"
    and "brSec = find_brSec (vSec (vNeurites ! nid)) curSec (br_t brit)"
    and "brSec < length (vSec (vNeurites ! nid))" and "brSec + 1 < length (vR ! nid)"
  shows "\<exists>st st_er.
           create_neurite_branching_region vNeurites vPos vR nid curSec brit = Inr st \<and>
           create_neurite_with_er_branching_region vNeurites vPos vR nid curSec brit = Inr st_er"
proof -
  obtain g where g: "branch_geometry vNeurites vR nid curSec brit child = Inr g"
    using branch_geometry_InrI[of nid vNeurites vR child curSec brit] assms by auto
  show ?thesis
    using assms(1,4) g
    by (simp add: create_neurite_branching_region_def create_neurite_with_er_branching_region_def)
qed

text \<open>
  Claim C8, as the code has it. At a branch point with one child whose section is found,
  neither build path raises an error, whatever the tangents of parent and child are: also
  when the initial tangent of the child is collinear with the tangent of the parent, the
  division by \<open>sqrt (1 - cos\<^sup>2 \<theta>)\<close> is carried out without a check, and the build goes on
  with what it yields.
\<close>

theorem collinear_branch_raises_no_error:
  assumes "tl (vNid (bp brit)) = [child]"
    and "nid < length vNeurites" and "nid < length vR" and "nid < length vPos"
    and "child < length vR" and "vR ! child \<noteq> []"
    and "child < length vNeurites" and "vSec (vNeurites ! child) \<noteq> []"
    and "brSec = find_brSec (vSec (vNeurites ! nid)) curSec (br_t brit)"
    and "brSec < length (vSec (vNeurites ! nid))" and "brSec + 1 < length (vR ! nid)"
  shows "\<exists>st st_er.
           create_neurite_branching_region vNeurites vPos vR nid curSec brit = Inr st \<and>
           create_neurite_with_er_branching_region vNeurites vPos vR nid curSec brit = Inr st_er"
  using assms by (rule branching_region_returns)

lemma ex_collinear_valid:
  "tl (vNid (bp (ex_brit 3))) = [3]"
  "0 < length ex_vNeurites" "0 < length ex_vR" "0 < length ex_vPos"
  "3 < length ex_vR" "ex_vR ! 3 \<noteq> []" "3 < length ex_vNeurites" "vSec (ex_vNeurites ! 3) \<noteq> []"
  "0 = find_brSec (vSec (ex_vNeurites ! 0)) 0 (br_t (ex_brit 3))"
  "0 < length (vSec (ex_vNeurites ! 0))" "0 + 1 < length (ex_vR ! 0)"
  using ex_find_brSec
  by (simp_all add: ex_vNeurites_def ex_vR_def ex_vPos_def ex_child_def ex_parent_def ex_brit_def)

lemma ex_collinear_tangents:
  "section_end_velocity (vSec (ex_vNeurites ! 0) ! 0) = (10, 0, 0)"
  "section_velocity (vSec (ex_vNeurites ! 3) ! 0) (endParam (vSec (ex_vNeurites ! 3) ! 0)) = (5, 0, 0)"
  by (simp_all add: section_end_velocity_def section_velocity_def ex_vNeurites_def ex_parent_def
      ex_child_def)

text \<open>
  The theorem at child 3 of the example, whose initial tangent (5, 0, 0) is collinear
  with the tangent (10, 0, 0) of the parent.
\<close>

theorem collinear_branch_raises_no_error_witness:
  "section_end_velocity (vSec (ex_vNeurites ! 0) ! 0) = (10, 0, 0) \<and>
   section_velocity (vSec (ex_vNeurites ! 3) ! 0) (endParam (vSec (ex_vNeurites ! 3) ! 0)) = (5, 0, 0) \<and>
   (\<exists>st st_er.
      create_neurite_branching_region ex_vNeurites ex_vPos ex_vR 0 0 (ex_brit 3) = Inr st \<and>
      create_neurite_with_er_branching_region ex_vNeurites ex_vPos ex_vR 0 0 (ex_brit 3) = Inr st_er)"
  using collinear_branch_raises_no_error[OF ex_collinear_valid] ex_collinear_tangents by simp

text \<open>
  Claim C8 as stated fails at child 3 of the example: the tangents are collinear, and
  neither build path returns an error.
\<close>

theorem collinear_branch_counterexample:
  "section_end_velocity (vSec (ex_vNeurites ! 0) ! 0) = (10, 0, 0) \<and>
   section_velocity (vSec (ex_vNeurites ! 3) ! 0) (endParam (vSec (ex_vNeurites ! 3) ! 0)) = (5, 0, 0) \<and>
   \<not> isl (create_neurite_branching_region ex_vNeurites ex_vPos ex_vR 0 0 (ex_brit 3)) \<and>
   \<not> isl (create_neurite_with_er_branching_region ex_vNeurites ex_vPos ex_vR 0 0 (ex_brit 3))"
proof -
  obtain st st_er where
    "create_neurite_branching_region ex_vNeurites ex_vPos ex_vR 0 0 (ex_brit 3) = Inr st"
    "create_neurite_with_er_branching_region ex_vNeurites ex_vPos ex_vR 0 0 (ex_brit 3) = Inr st_er"
    using branching_region_returns[OF ex_collinear_valid] by blast
  then show ?thesis using ex_collinear_tangents by simp
qed

subsection \<open>Spline fit\<close>

lemma spline_value_deriv:
  "((\<lambda>m. spline_value s m) has_field_derivative spline_deriv s m) (at m)"
  by (cases s) (auto intro!: derivative_eq_intros simp add: algebra_simps)

lemma spline_deriv_deriv:
  "((\<lambda>m. spline_deriv s m) has_field_derivative spline_second_deriv s m) (at m)"
  by (cases s) (auto intro!: derivative_eq_intros simp add: algebra_simps)

lemma ex_tSuppPos: "tSuppPos_of ex_spline_pos = [0, 3 / 7, 1]"
  by (simp add: tSuppPos_of_def ex_spline_pos_def VecDistance_def VecLength_def VecNormSquared_def
      sqrt_sq_eq[of 3] sqrt_sq_eq[of 4])

lemma ex_total: "snd (cumulative_lengths ex_spline_pos 0) = 7"
  by (simp add: ex_spline_pos_def VecDistance_def VecLength_def VecNormSquared_def
      sqrt_sq_eq[of 3] sqrt_sq_eq[of 4])

lemma ex_dt: "dt_of [0, 3 / 7, 1] = [0, 3 / 7, 4 / 7]"
  by (simp add: dt_of_def upt_rec)

lemma ex_moment_matrix: "moment_matrix [0, 3 / 7, 1] = [[2, 0, 0], [3 / 7, 2, 4 / 7], [0, 0, 2]]"
  by (simp add: moment_matrix_def moment_entry_def ex_dt upt_rec)

lemma ex_Invert_eq:
  "ex_Invert (moment_matrix [0, 3 / 7, 1]) = Some [[1 / 2, 0, 0], [- 3 / 28, 1 / 2, - 1 / 7], [0, 0, 1 / 2]]"
  by (simp add: ex_moment_matrix ex_Invert_def)

lemma ex_inverts:
  "inverts (moment_matrix [0, 3 / 7, 1]) [[1 / 2, 0, 0], [- 3 / 28, 1 / 2, - 1 / 7], [0, 0, 1 / 2]]"
proof -
  have "mat_vec [[2, 0, 0], [3 / 7, 2, 4 / 7], [0, 0, 2]]
          (mat_vec [[1 / 2, 0, 0], [- 3 / 28, 1 / 2, - 1 / 7], [0, 0, 1 / 2]] v) = v"
    if len: "length v = 3" for v :: "real list"
  proof -
    obtain a b c where v: "v = [a, b, c]"
      using len by (auto simp add: length_Suc_conv eval_nat_numeral)
    show ?thesis by (simp add: v mat_vec_def)
  qed
  then show ?thesis by (simp add: inverts_def ex_moment_matrix)
qed

lemma ex_rhs:
  "moment_rhs [0, 3 / 7, 1] (map fst ex_spline_pos) = [0, - 42, 0]"
  "moment_rhs [0, 3 / 7, 1] (map (fst \<circ> snd) ex_spline_pos) = [0, 42, 0]"
  "moment_rhs [0, 3 / 7, 1] (map (snd \<circ> snd) ex_spline_pos) = [0, 0, 0]"
  "moment_rhs [0, 3 / 7, 1] ex_spline_r = [0, - 49 / 2, 0]"
  by (simp_all add: moment_rhs_def ex_dt upt_rec ex_spline_pos_def ex_spline_r_def)

lemma ex_spline_moments: "spline_moments ex_Invert ex_spline_pos ex_spline_r = Inr ex_moments"
proof -
  have l: "ex_spline_pos \<noteq> []" "length ex_spline_pos = 3" "length ex_spline_r = 3"
    by (simp_all add: ex_spline_pos_def ex_spline_r_def)
  show ?thesis
    by (simp add: spline_moments_def l ex_total ex_tSuppPos ex_dt ex_Invert_eq ex_rhs mat_vec_def
        ex_moments_def)
qed

lemma ex_spline_sections:
  "create_spline_data_for_neurite ex_Invert ex_spline_pos ex_spline_r = Inr ex_sections"
proof -
  have l: "length ex_spline_pos = 3" by (simp add: ex_spline_pos_def)
  have p: "map fst ex_spline_pos = [0, 3, 3]" "map (fst \<circ> snd) ex_spline_pos = [0, 0, 4]"
    "map (snd \<circ> snd) ex_spline_pos = [0, 0, 0]"
    by (simp_all add: ex_spline_pos_def)
  show ?thesis
    unfolding create_spline_data_for_neurite_def ex_spline_moments
    by (simp add: ex_tSuppPos ex_dt l upt_rec
        section_params_def ex_moments_def p ex_spline_r_def ex_sections_def)
qed

lemma unit_row_product:
  assumes "i < n" and "length x = n"
  shows "sum_list (map2 (*) (map (\<lambda>j. if j = i then c else 0) [0..<n]) x) = c * (x ! i :: real)" (is "?l = _")
proof -
  have "?l = (\<Sum>k = 0..<n. (if k = i then c else 0) * x ! k)"
    using assms(2) by (simp add: sum_list_sum_nth)
  also have "\<dots> = (\<Sum>k = 0..<n. if k = i then c * x ! k else 0)"
    by (rule sum.cong) simp_all
  also have "\<dots> = c * x ! i"
    using assms(1) by (simp add: sum.delta)
  finally show ?thesis .
qed

lemma moment_matrix_boundary_rows:
  assumes "0 < length ts"
  shows "moment_matrix ts ! 0 = map (\<lambda>j. if j = 0 then 2 else 0) [0..<length ts]"
    and "moment_matrix ts ! (length ts - 1) = map (\<lambda>j. if j = length ts - 1 then 2 else 0) [0..<length ts]"
  using assms by (auto simp add: moment_matrix_def moment_entry_def)

lemma moment_rhs_boundary:
  assumes "0 < length ts"
  shows "moment_rhs ts xs ! 0 = 0" and "moment_rhs ts xs ! (length ts - 1) = 0"
    and "length (moment_rhs ts xs) = length ts"
  using assms by (simp_all add: moment_rhs_def Let_def)

lemma boundary_moments_zero:
  assumes "inverts (moment_matrix ts) mat" and "0 < length ts"
  shows "mat_vec mat (moment_rhs ts xs) ! 0 = 0"
    and "mat_vec mat (moment_rhs ts xs) ! (length ts - 1) = 0"
proof -
  let ?x = "mat_vec mat (moment_rhs ts xs)"
  have lm: "length (moment_matrix ts) = length ts" by (simp add: moment_matrix_def)
  have lx: "length ?x = length ts" using assms(1) by (simp add: mat_vec_def inverts_def lm)
  have e: "mat_vec (moment_matrix ts) ?x = moment_rhs ts xs"
    using assms by (simp add: inverts_def lm moment_rhs_boundary(3))
  have r: "mat_vec (moment_matrix ts) ?x ! i = sum_list (map2 (*) (moment_matrix ts ! i) ?x)"
    if "i < length ts" for i
    using that by (simp add: mat_vec_def lm)
  have "2 * ?x ! 0 = moment_rhs ts xs ! 0"
    using r[of 0] assms(2) unit_row_product[of 0 "length ts" ?x 2] lx
      moment_matrix_boundary_rows(1)[OF assms(2)]
    by (simp add: e)
  then show "?x ! 0 = 0" using assms(2) by (simp add: moment_rhs_boundary)
  have "2 * ?x ! (length ts - 1) = moment_rhs ts xs ! (length ts - 1)"
    using r[of "length ts - 1"] assms(2) unit_row_product[of "length ts - 1" "length ts" ?x 2] lx
      moment_matrix_boundary_rows(2)[OF assms(2)]
    by (simp add: e)
  then show "?x ! (length ts - 1) = 0"
    using assms(2) moment_rhs_boundary(2)[OF assms(2), of xs] by simp
qed

lemma length_cumulative_lengths: "length (fst (cumulative_lengths pos a)) = length pos - 1"
  by (induction pos a rule: cumulative_lengths.induct) (auto simp add: Let_def split: prod.splits)

lemma length_tSuppPos: "length (tSuppPos_of pos) = length pos - 1 + 1"
  using length_cumulative_lengths[of pos 0]
  by (cases "cumulative_lengths pos 0") (simp add: tSuppPos_of_def)

text \<open>
  Claim C5, as the code has it. The boundary rows of the moment system have the single
  entry 2.0, on the diagonal, and their right-hand side is 0; so for every inverse that
  \<^verbatim>\<open>Invert\<close> returns the moments at both ends are 0, for all four coordinates: the natural
  boundary condition of zero second derivative at both ends is what the system imposes.
\<close>

theorem natural_boundary_moments:
  assumes "spline_moments Invert pos r = Inr m"
    and "\<forall>mat. Invert (moment_matrix (tSuppPos_of pos)) = Some mat \<longrightarrow>
               inverts (moment_matrix (tSuppPos_of pos)) mat"
  shows "moment_matrix (tSuppPos_of pos) ! 0 = 2 # replicate (length pos - 1) 0 \<and>
         moment_matrix (tSuppPos_of pos) ! (length pos - 1) = replicate (length pos - 1) 0 @ [2] \<and>
         x0 m ! 0 = 0 \<and> x0 m ! (length pos - 1) = 0 \<and>
         x1 m ! 0 = 0 \<and> x1 m ! (length pos - 1) = 0 \<and>
         x2 m ! 0 = 0 \<and> x2 m ! (length pos - 1) = 0 \<and>
         xr m ! 0 = 0 \<and> xr m ! (length pos - 1) = 0"
proof -
  let ?ts = "tSuppPos_of pos"
  have n: "pos \<noteq> []" using assms(1) by (auto simp add: spline_moments_def split: if_splits)
  then have l: "length ?ts = length pos" "0 < length ?ts" "length ?ts - 1 = length pos - 1"
    by (simp_all add: length_tSuppPos)
  obtain mat where i: "Invert (moment_matrix ?ts) = Some mat"
    and m: "m = \<lparr> x0 = mat_vec mat (moment_rhs ?ts (map fst pos)),
                  x1 = mat_vec mat (moment_rhs ?ts (map (fst \<circ> snd) pos)),
                  x2 = mat_vec mat (moment_rhs ?ts (map (snd \<circ> snd) pos)),
                  xr = mat_vec mat (moment_rhs ?ts r) \<rparr>"
    using assms(1) by (auto simp add: spline_moments_def Let_def split: if_splits option.splits)
  have inv: "inverts (moment_matrix ?ts) mat" using assms(2) i by blast
  note z = boundary_moments_zero[OF inv l(2), unfolded l(3)]
  have r0: "moment_matrix ?ts ! 0 = 2 # replicate (length pos - 1) 0"
  proof -
    have "map (\<lambda>j. if j = 0 then 2 else (0::real)) [0..<Suc k] = 2 # replicate k 0" for k
      by (rule nth_equalityI) (auto simp add: nth_Cons' simp del: upt_Suc)
    from this[of "length pos - 1"] show ?thesis
      using n moment_matrix_boundary_rows(1)[OF l(2)] by (simp add: l(1))
  qed
  have r1: "moment_matrix ?ts ! (length pos - 1) = replicate (length pos - 1) 0 @ [2]"
  proof -
    have "map (\<lambda>j. if j = k then 2 else (0::real)) [0..<Suc k] = replicate k 0 @ [2]" for k
      by (rule nth_equalityI) (auto simp add: nth_append simp del: upt_Suc)
    from this[of "length pos - 1"] show ?thesis
      using n moment_matrix_boundary_rows(2)[OF l(2)] by (simp add: l(1))
  qed
  show ?thesis
    using r0 r1 z by (simp add: m)
qed

text \<open>The theorem at the example.\<close>

theorem natural_boundary_moments_witness:
  "spline_moments ex_Invert ex_spline_pos ex_spline_r = Inr ex_moments \<and>
   moment_matrix (tSuppPos_of ex_spline_pos) ! 0 = [2, 0, 0] \<and>
   moment_matrix (tSuppPos_of ex_spline_pos) ! 2 = [0, 0, 2] \<and>
   x0 ex_moments ! 0 = 0 \<and> x0 ex_moments ! 2 = 0 \<and> x1 ex_moments ! 0 = 0 \<and> x1 ex_moments ! 2 = 0 \<and>
   x2 ex_moments ! 0 = 0 \<and> x2 ex_moments ! 2 = 0 \<and> xr ex_moments ! 0 = 0 \<and> xr ex_moments ! 2 = 0"
proof -
  have i: "\<forall>mat. ex_Invert (moment_matrix (tSuppPos_of ex_spline_pos)) = Some mat \<longrightarrow>
             inverts (moment_matrix (tSuppPos_of ex_spline_pos)) mat"
    using ex_inverts by (simp add: ex_tSuppPos ex_Invert_eq)
  have l: "length ex_spline_pos - 1 = 2" by (simp add: ex_spline_pos_def)
  show ?thesis
    using natural_boundary_moments[OF ex_spline_moments i, unfolded l] ex_spline_moments
    by (simp add: eval_nat_numeral)
qed

text \<open>
  Claim C5 as stated fails at the example: the moment matrix has 2.0 on the diagonal of
  its boundary rows, and the moments at both ends are 0, not 2.
\<close>

theorem boundary_moments_counterexample:
  "spline_moments ex_Invert ex_spline_pos ex_spline_r =
     Inr \<lparr> x0 = [0, - 21, 0], x1 = [0, 21, 0], x2 = [0, 0, 0], xr = [0, - 49 / 4, 0] \<rparr> \<and>
   inverts (moment_matrix (tSuppPos_of ex_spline_pos)) (the (ex_Invert (moment_matrix (tSuppPos_of ex_spline_pos)))) \<and>
   spline_second_deriv (splineParamsX (ex_sections ! 0)) (endParam (ex_sections ! 0) - 0) = 0 \<and>
   spline_second_deriv (splineParamsX (ex_sections ! 1)) (endParam (ex_sections ! 1) - 1) = 0"
  using ex_spline_moments ex_inverts
  by (simp add: ex_moments_def ex_tSuppPos ex_Invert_eq ex_sections_def)

text \<open>
  Claim C6. Every section of a spline fit, evaluated at its end parameter, gives the
  position and the radius of the support point that ends it: section \<open>i\<close> gives support
  point \<open>i + 1\<close>.
\<close>

theorem sections_interpolate_support_points:
  assumes "create_spline_data_for_neurite Invert pos r = Inr secs"
    and "i < length pos - 1"
  shows "length secs = length pos - 1 \<and>
         section_position (secs ! i) (endParam (secs ! i)) = pos ! (i + 1) \<and>
         section_radius (secs ! i) (endParam (secs ! i)) = r ! (i + 1)"
proof -
  obtain m where m: "spline_moments Invert pos r = Inr m"
    using assms(1) by (auto simp add: create_spline_data_for_neurite_def split: sum.splits)
  have s: "secs = map (\<lambda>i. \<lparr> endParam = tSuppPos_of pos ! (i + 1),
                      splineParamsX = section_params (dt_of (tSuppPos_of pos)) (x0 m) (map fst pos) i,
                      splineParamsY = section_params (dt_of (tSuppPos_of pos)) (x1 m) (map (fst \<circ> snd) pos) i,
                      splineParamsZ = section_params (dt_of (tSuppPos_of pos)) (x2 m) (map (snd \<circ> snd) pos) i,
                      splineParamsR = section_params (dt_of (tSuppPos_of pos)) (xr m) r i \<rparr>)
                 [0..<length pos - 1]"
    using assms(1) by (simp add: create_spline_data_for_neurite_def m Let_def)
  have v: "spline_value (section_params dt x xs i) 0 = xs ! (i + 1)" for dt x xs
    by (simp add: section_params_def)
  have p: "(map fst pos ! (i + 1), map (fst \<circ> snd) pos ! (i + 1), map (snd \<circ> snd) pos ! (i + 1)) = pos ! (i + 1)"
    using assms(2) by (cases "pos ! (i + 1)") simp
  show ?thesis
    using assms(2) p by (simp add: s section_position_def section_radius_def v)
qed

text \<open>The theorem at the example, for both of its sections.\<close>

theorem sections_interpolate_support_points_witness:
  "create_spline_data_for_neurite ex_Invert ex_spline_pos ex_spline_r = Inr ex_sections \<and>
   section_position (ex_sections ! 0) (endParam (ex_sections ! 0)) = ex_spline_pos ! 1 \<and>
   section_radius (ex_sections ! 0) (endParam (ex_sections ! 0)) = ex_spline_r ! 1 \<and>
   section_position (ex_sections ! 1) (endParam (ex_sections ! 1)) = ex_spline_pos ! 2 \<and>
   section_radius (ex_sections ! 1) (endParam (ex_sections ! 1)) = ex_spline_r ! 2"
proof -
  have l: "0 < length ex_spline_pos - 1" "1 < length ex_spline_pos - 1"
    by (simp_all add: ex_spline_pos_def)
  show ?thesis
    using sections_interpolate_support_points[OF ex_spline_sections l(1)]
      sections_interpolate_support_points[OF ex_spline_sections l(2)] ex_spline_sections
    by (simp add: eval_nat_numeral)
qed

subsection \<open>Resampling\<close>

lemma ex_quadrature:
  "section_quadrature ex_gl ex_sec_a a d 0 = Inr 5"
  "section_quadrature ex_gl ex_sec_b a d 0 = Inr 5"
  by (simp_all add: ex_gl_def ex_sec_a_def ex_sec_b_def section_velocity_def VecNormSquared_def
      sqrt_sq_eq[of 5])

lemma ex_endParam: "endParam ex_sec_a = 1 / 2" "endParam ex_sec_b = 1"
  by (simp_all add: ex_sec_a_def ex_sec_b_def)

lemma ex_length_over_radius: "calculate_length_over_radius ex_gl 0 1 ex_straight 0 = Inr 5"
  by (simp add: calculate_length_over_radius_def ex_straight_def section_start_def ex_endParam
      ex_quadrature Let_def)

lemma ex_positions:
  "calculate_segment_axial_positions ex_gl [Fin 0, Fin 0] 0 1 ex_straight 0 (5 / 2) =
     Inr ([Fin (1 / 2), Fin 1], 2)"
  by (simp add: calculate_segment_axial_positions_def ex_straight_def section_start_def ex_endParam
      ex_quadrature Let_def fill_positions.simps)

lemma ex_positions_one:
  "calculate_segment_axial_positions ex_gl [Fin 0] 0 1 ex_straight 0 5 = Inr ([Fin 1], 1)"
  by (simp add: calculate_segment_axial_positions_def ex_straight_def section_start_def ex_endParam
      ex_quadrature Let_def fill_positions.simps)

lemma pi_ge_3: "3 \<le> pi"
proof -
  have "sin (pi / 6) \<le> pi / 6" by (rule sin_x_le_x) simp
  then show ?thesis by (simp add: sin_30)
qed

lemma length_fill_positions:
  "fill_positions I t_start dt si sL pos seg = Inr (pos', seg') \<Longrightarrow> length pos' = length pos"
proof (induction I t_start dt si sL pos seg rule: fill_positions.induct)
  case (1 integral t_start dt sec_integral segLength segAxPosOut seg)
  show ?case
  proof (cases "integral \<ge> (real seg + 1) * segLength \<and> seg < length segAxPosOut")
    case True
    then have "fill_positions integral t_start dt sec_integral segLength
                 (segAxPosOut[seg := fadd (Fin t_start)
                    (fdiv (Fin ((real seg + 1) * segLength - (integral - dt * sec_integral))) (Fin sec_integral))])
                 (seg + 1) = Inr (pos', seg')"
      using "1.prems" by (subst (asm) fill_positions.simps) (simp add: Let_def)
    with True "1.IH" show ?thesis by (simp add: Let_def)
  next
    case False
    then show ?thesis
      using "1.prems" by (subst (asm) fill_positions.simps) (auto split: if_splits)
  qed
qed

lemma length_segment_positions_loop:
  "segment_positions_loop gl t_end sL prev secs t_start I pos seg = Inr (pos', seg', L) \<Longrightarrow>
   length pos' = length pos"
proof (induction secs arbitrary: prev t_start I pos seg)
  case Nil
  then show ?case by simp
next
  case (Cons sec secs)
  let ?a = "max t_start prev"
  let ?b = "min t_end (endParam sec)"
  obtain si where q: "section_quadrature gl sec ?a (?b - ?a) 0 = Inr si"
    using Cons.prems by (auto simp add: Let_def split: sum.splits)
  obtain pos1 seg1 where f: "fill_positions (I + (?b - ?a) * si) t_start (?b - ?a) si sL pos seg = Inr (pos1, seg1)"
    using Cons.prems q by (auto simp add: Let_def split: sum.splits)
  have l: "length pos1 = length pos" using length_fill_positions[OF f] .
  show ?case
  proof (cases "?b \<ge> t_end")
    case True
    then have "pos' = pos1" using Cons.prems q f by (simp add: Let_def)
    then show ?thesis using l by simp
  next
    case False
    then have "segment_positions_loop gl t_end sL (endParam sec) secs ?b (I + (?b - ?a) * si) pos1 seg1
               = Inr (pos', seg', L)"
      using Cons.prems q f by (simp add: Let_def)
    from Cons.IH[OF this] l show ?thesis by simp
  qed
qed

lemma length_calculate_segment_axial_positions:
  assumes "calculate_segment_axial_positions gl pos t_start t_end neurite startSec sL = Inr (pos', seg')"
  shows "length pos' = length pos"
proof -
  let ?r = "segment_positions_loop gl t_end sL (section_start (vSec neurite) startSec)
              (drop startSec (vSec neurite)) t_start 0 pos 0"
  obtain pos1 seg1 I where r: "?r = Inr (pos1, seg1, I)"
    and p: "pos' = pos1 \<or> pos' = pos1[length pos - 1 := Fin t_end]"
    using assms
    by (auto simp add: calculate_segment_axial_positions_def Let_def split: if_splits sum.splits prod.splits)
  show ?thesis
    using length_segment_positions_loop[OF r] p by auto
qed

lemma segment_count_InrD:
  assumes "segment_count lengthOverRadius anisotropy = Inr nSeg"
  shows "nSeg = max 1 (nat \<lfloor>lengthOverRadius / (anisotropy * (pi / 2))\<rfloor>)"
proof -
  define n where "n = nat \<lfloor>lengthOverRadius / (anisotropy * (pi / 2))\<rfloor>"
  have e: "anisotropy * (1 / 2) * pi = anisotropy * (pi / 2)" by simp
  have "Inr nSeg = (Inr (if n = 0 then 1 else n) :: error + nat)"
    using assms unfolding segment_count_def e Let_def n_def[symmetric]
    by (simp only: split: if_splits) simp_all
  then have "nSeg = (if n = 0 then 1 else n)" by simp
  then have "nSeg = max 1 n" by (simp add: max_def)
  then show ?thesis by (simp only: n_def)
qed

text \<open>
  Claim C2, as the code has it. The number of axial positions of a resampled span is the
  largest integer that is not above \<open>lengthOverRadius / (anisotropy * \<pi>/2)\<close>, and at least
  1; one more position, the end of the branching region, follows when the span ends at
  one.
\<close>

theorem segment_count_is_floor:
  assumes "resample_span gl neurite curSec t_start t_end anisotropy bp_end_opt = Inr vSegAxPos"
    and "calculate_length_over_radius gl t_start t_end neurite curSec = Inr lengthOverRadius"
  shows "length vSegAxPos =
           max 1 (nat \<lfloor>lengthOverRadius / (anisotropy * (pi / 2))\<rfloor>) +
           (case bp_end_opt of None \<Rightarrow> 0 | Some e \<Rightarrow> 1)"
proof -
  obtain nSeg pos seg where n: "segment_count lengthOverRadius anisotropy = Inr nSeg"
    and c: "calculate_segment_axial_positions gl (replicate nSeg (Fin 0)) t_start t_end neurite curSec
              (lengthOverRadius / real nSeg) = Inr (pos, seg)"
    and v: "vSegAxPos = (case bp_end_opt of None \<Rightarrow> pos | Some e \<Rightarrow> pos @ [e])"
    using assms by (auto simp add: resample_span_def Let_def split: sum.splits)
  have "length pos = nSeg"
    using length_calculate_segment_axial_positions[OF c] by simp
  moreover have "nSeg = max 1 (nat \<lfloor>lengthOverRadius / (anisotropy * (pi / 2))\<rfloor>)"
    using n by (rule segment_count_InrD)
  ultimately show ?thesis
    by (simp add: v split: option.splits)
qed

lemma ex_segment_count: "segment_count 5 2 = Inr 1"
proof -
  have "1 \<le> 5 / pi" using pi_less_4 by (simp add: field_simps)
  moreover have "5 / pi < 2" using pi_ge_3 by (simp add: field_simps)
  ultimately have f: "\<lfloor>5 / pi\<rfloor> = 1" by (simp add: floor_unique)
  have e: "(2::real) * (1 / 2) * pi = pi" by simp
  have n: "\<not> 5 / pi < 0" by (simp add: not_less)
  show ?thesis
    unfolding segment_count_def e Let_def f using n by simp
qed

lemma ex_resample: "resample_span ex_gl ex_straight 0 0 1 2 None = Inr [Fin 1]"
  by (simp add: resample_span_def ex_length_over_radius ex_segment_count ex_positions_one)

text \<open>The theorem at the straight neurite with anisotropy 2.\<close>

theorem segment_count_is_floor_witness:
  "resample_span ex_gl ex_straight 0 0 1 2 None = Inr [Fin 1] \<and>
   calculate_length_over_radius ex_gl 0 1 ex_straight 0 = Inr 5 \<and>
   length [Fin 1] = max 1 (nat \<lfloor>5 / (2 * (pi / 2))\<rfloor>) + 0"
  using segment_count_is_floor[OF ex_resample ex_length_over_radius] ex_resample ex_length_over_radius
  by simp

text \<open>
  Claim C2 as stated fails at the straight neurite with anisotropy 2: its length over
  radius is 5, the smallest integer that is not below \<open>5 / \<pi>\<close> is 2, and the resampling
  gives one position.
\<close>

theorem segment_count_counterexample:
  "calculate_length_over_radius ex_gl 0 1 ex_straight 0 = Inr 5 \<and>
   resample_span ex_gl ex_straight 0 0 1 2 None = Inr [Fin 1] \<and>
   \<lceil>5 / (2 * (pi / 2))\<rceil> = (2 :: int)"
proof -
  have "1 < 5 / pi" using pi_less_4 by (simp add: field_simps)
  moreover have "5 / pi \<le> 2" using pi_ge_3 by (simp add: field_simps)
  ultimately have "\<lceil>5 / pi\<rceil> = 2" by (simp add: ceiling_unique)
  then show ?thesis using ex_length_over_radius ex_resample by simp
qed

lemma section_quadrature_pos:
  assumes "\<forall>(p, w) \<in> set gl. 0 \<le> p \<and> p \<le> 1 \<and> 0 < w"
    and "\<forall>m. lo \<le> m \<and> m \<le> hi \<longrightarrow> regular_point sec m"
    and "0 \<le> dt" and "lo \<le> endParam sec - (a + dt)" and "endParam sec - a \<le> hi"
  shows "\<exists>si. section_quadrature gl sec a dt acc = Inr si \<and> acc \<le> si \<and> (gl \<noteq> [] \<longrightarrow> acc < si)"
  using assms(1)
proof (induction gl arbitrary: acc)
  case Nil
  then show ?case by simp
next
  case (Cons pw gl)
  obtain p w where pw: "pw = (p, w)" by (cases pw)
  have p: "0 \<le> p" "p \<le> 1" "0 < w" using Cons.prems pw by auto
  let ?t = "endParam sec - (a + dt * p)"
  have "0 \<le> dt * p" "dt * p \<le> dt"
    using p assms(3) by (simp_all add: mult_left_le)
  then have "lo \<le> ?t" "?t \<le> hi" using assms(4,5) by linarith+
  then have r: "regular_point sec ?t" using assms(2) by blast
  let ?v = "VecNormSquared (section_velocity sec ?t)"
  let ?r = "spline_value (splineParamsR sec) ?t"
  have c: "\<not> ?r * ?r \<le> ?v * (1 / 10 ^ 12)" "0 < ?r" "0 < ?v"
    using r by (simp_all add: regular_point_def not_le)
  have t: "0 < w * sqrt ?v / ?r" using c p by simp
  have g: "\<forall>(p, w) \<in> set gl. 0 \<le> p \<and> p \<le> 1 \<and> 0 < w" using Cons.prems by simp
  obtain si where s: "section_quadrature gl sec a dt (acc + w * sqrt ?v / ?r) = Inr si"
    and l: "acc + w * sqrt ?v / ?r \<le> si"
    using Cons.IH[OF g, of "acc + w * sqrt ?v / ?r"] by blast
  have "section_quadrature (pw # gl) sec a dt acc = Inr si"
    using c(1) s by (simp add: pw Let_def)
  then show ?case using l t by auto
qed

lemma fill_positions_spec:
  assumes "0 < sL" and "real seg * sL \<le> I" and "I < (real (length pos) + 1) * sL" and "si \<noteq> 0"
  shows "\<exists>pos' seg'. fill_positions I t_start dt si sL pos seg = Inr (pos', seg') \<and>
           length pos' = length pos \<and> seg \<le> seg' \<and>
           real seg' * sL \<le> I \<and> I < (real seg' + 1) * sL \<and>
           (\<forall>j. seg \<le> j \<and> j < seg' \<longrightarrow>
                pos' ! j = Fin (t_start + ((real j + 1) * sL - (I - dt * si)) / si)) \<and>
           (\<forall>j. j < seg \<longrightarrow> pos' ! j = pos ! j)"
  using assms
proof (induction I t_start dt si sL pos seg rule: fill_positions.induct)
  case (1 integral t_start dt sec_integral segLength segAxPosOut seg)
  show ?case
  proof (cases "integral \<ge> (real seg + 1) * segLength")
    case False
    then have "fill_positions integral t_start dt sec_integral segLength segAxPosOut seg
               = Inr (segAxPosOut, seg)"
      by (subst fill_positions.simps) simp
    then show ?thesis using False "1.prems" by (auto simp add: not_le)
  next
    case True
    have lt: "seg < length segAxPosOut"
    proof (rule ccontr)
      assume "\<not> seg < length segAxPosOut"
      then have "real (length segAxPosOut) + 1 \<le> real seg + 1" by simp
      then have "(real (length segAxPosOut) + 1) * segLength \<le> (real seg + 1) * segLength"
        using "1.prems"(1) by (simp add: mult_right_mono)
      then show False using True "1.prems"(3) by linarith
    qed
    let ?v = "fadd (Fin t_start)
                (fdiv (Fin ((real seg + 1) * segLength - (integral - dt * sec_integral))) (Fin sec_integral))"
    let ?pos = "segAxPosOut[seg := ?v]"
    have v: "?v = Fin (t_start + ((real seg + 1) * segLength - (integral - dt * sec_integral)) / sec_integral)"
      using "1.prems"(4) by simp
    have e: "fill_positions integral t_start dt sec_integral segLength segAxPosOut seg
             = fill_positions integral t_start dt sec_integral segLength ?pos (seg + 1)"
      using True lt by (subst fill_positions.simps) (simp add: Let_def)
    have p2: "real (seg + 1) * segLength \<le> integral" using True by (simp add: add.commute)
    have p3: "integral < (real (length ?pos) + 1) * segLength" using "1.prems"(3) by simp
    obtain pos' seg' where r: "fill_positions integral t_start dt sec_integral segLength ?pos (seg + 1)
                               = Inr (pos', seg')"
      and l: "length pos' = length ?pos" and s: "seg + 1 \<le> seg'"
      and b: "real seg' * segLength \<le> integral" "integral < (real seg' + 1) * segLength"
      and n: "\<forall>j. seg + 1 \<le> j \<and> j < seg' \<longrightarrow>
                pos' ! j = Fin (t_start + ((real j + 1) * segLength - (integral - dt * sec_integral)) / sec_integral)"
      and o: "\<forall>j. j < seg + 1 \<longrightarrow> pos' ! j = ?pos ! j"
      using "1.IH"[OF True lt refl "1.prems"(1) p2 p3 "1.prems"(4)] by blast
    have n': "pos' ! j = Fin (t_start + ((real j + 1) * segLength - (integral - dt * sec_integral)) / sec_integral)"
      if "seg \<le> j" "j < seg'" for j
    proof (cases "j = seg")
      case True
      then have "pos' ! j = ?pos ! seg" using o by simp
      then show ?thesis using lt v True by simp
    next
      case False
      then show ?thesis using that n by simp
    qed
    have o': "pos' ! j = segAxPosOut ! j" if "j < seg" for j
      using o that by simp
    show ?thesis
      using e r l s b n' o' by auto
  qed
qed

lemma length_over_radius_loop_increases:
  assumes "regular_quadrature gl" and "regular_sections prev secs" and "secs \<noteq> []"
    and "prev \<le> t_start" and "t_start \<le> endParam (hd secs)"
    and "t_start < t_end" and "t_end \<le> endParam (last secs)"
  shows "\<exists>L. length_over_radius_loop gl t_end prev secs t_start I = Inr L \<and> I < L"
  using assms(2-7)
proof (induction secs arbitrary: prev t_start I)
  case Nil
  then show ?case by simp
next
  case (Cons sec secs)
  let ?e = "endParam sec"
  let ?b = "min t_end ?e"
  have g: "\<forall>(p, w) \<in> set gl. 0 \<le> p \<and> p \<le> 1 \<and> 0 < w" "gl \<noteq> []"
    using assms(1) by (simp_all add: regular_quadrature_def)
  have a: "max t_start prev = t_start" using Cons.prems(3) by simp
  have ts: "t_start \<le> ?e" using Cons.prems(4) by simp
  have dt: "0 \<le> ?b - t_start" using ts Cons.prems(5) by simp
  have reg: "\<forall>m. 0 \<le> m \<and> m \<le> ?e - prev \<longrightarrow> regular_point sec m"
    using Cons.prems(1) by simp
  obtain si where q: "section_quadrature gl sec t_start (?b - t_start) 0 = Inr si" and si: "0 < si"
    using section_quadrature_pos[OF g(1) reg dt, of t_start 0] g(2) Cons.prems(3) by auto
  show ?case
  proof (cases "?b \<ge> t_end")
    case True
    then have b: "?b = t_end" by simp
    have "0 < (t_end - t_start) * si" using si Cons.prems(5) by simp
    then show ?thesis using q True by (simp add: a Let_def b)
  next
    case False
    then have lt: "?e < t_end" by simp
    then have b: "?b = ?e" by simp
    have ne: "secs \<noteq> []" using Cons.prems(6) lt by (cases secs) auto
    then obtain r rs where rs: "secs = r # rs" by (cases secs) auto
    have h: "?e \<le> endParam (hd secs)" using Cons.prems(1) rs by simp
    have l: "t_end \<le> endParam (last secs)" using Cons.prems(6) ne by simp
    have rg: "regular_sections ?e secs" using Cons.prems(1) by simp
    obtain L where L: "length_over_radius_loop gl t_end ?e secs ?e (I + (?e - t_start) * si) = Inr L"
      and IL: "I + (?e - t_start) * si < L"
      using Cons.IH[OF rg ne order_refl h lt l] by blast
    have "0 \<le> (?e - t_start) * si" using si ts by simp
    then have "I < L" using IL by linarith
    moreover have "length_over_radius_loop gl t_end prev (sec # secs) t_start I = Inr L"
      using q lt L by (simp add: a Let_def b)
    ultimately show ?thesis by blast
  qed
qed

lemma segment_positions_loop_spec:
  assumes "regular_quadrature gl" and "0 < sL"
    and "regular_sections prev secs" and "secs \<noteq> []"
    and "prev \<le> t_start" and "t_start \<le> endParam (hd secs)"
    and "t_start < t_end" and "t_end \<le> endParam (last secs)"
    and "real seg * sL \<le> I" and "I < (real seg + 1) * sL"
    and "length_over_radius_loop gl t_end prev secs t_start I = Inr L"
    and "L < (real (length pos) + 1) * sL"
  shows "\<exists>pos' seg'. segment_positions_loop gl t_end sL prev secs t_start I pos seg = Inr (pos', seg', L) \<and>
           length pos' = length pos \<and> seg \<le> seg' \<and>
           real seg' * sL \<le> L \<and> L < (real seg' + 1) * sL \<and>
           (\<forall>j. seg \<le> j \<and> j < seg' \<and> (real j + 1) * sL = L \<longrightarrow> pos' ! j = Fin t_end)"
  using assms(3-12)
proof (induction secs arbitrary: prev t_start I pos seg)
  case Nil
  then show ?case by simp
next
  case (Cons sec secs)
  let ?e = "endParam sec"
  let ?b = "min t_end ?e"
  have g: "\<forall>(p, w) \<in> set gl. 0 \<le> p \<and> p \<le> 1 \<and> 0 < w" "gl \<noteq> []"
    using assms(1) by (simp_all add: regular_quadrature_def)
  have a: "max t_start prev = t_start" using Cons.prems(3) by simp
  have ts: "t_start \<le> ?e" using Cons.prems(4) by simp
  have dt: "0 \<le> ?b - t_start" using ts Cons.prems(5) by simp
  have reg: "\<forall>m. 0 \<le> m \<and> m \<le> ?e - prev \<longrightarrow> regular_point sec m"
    using Cons.prems(1) by simp
  obtain si where q: "section_quadrature gl sec t_start (?b - t_start) 0 = Inr si" and si: "0 < si"
    using section_quadrature_pos[OF g(1) reg dt, of t_start 0] g(2) Cons.prems(3) by auto
  let ?I = "I + (?b - t_start) * si"
  have I1: "I \<le> ?I" using si dt by simp
  show ?case
  proof (cases "?b \<ge> t_end")
    case True
    then have b: "?b = t_end" by simp
    have L: "L = ?I" using Cons.prems(9) q True by (simp add: a Let_def)
    have p2: "real seg * sL \<le> ?I" using Cons.prems(7) I1 by linarith
    have p3: "?I < (real (length pos) + 1) * sL" using Cons.prems(10) L by simp
    obtain pos' seg' where f: "fill_positions ?I t_start (?b - t_start) si sL pos seg = Inr (pos', seg')"
      and l: "length pos' = length pos" "seg \<le> seg'"
      and bd: "real seg' * sL \<le> ?I" "?I < (real seg' + 1) * sL"
      and n: "\<forall>j. seg \<le> j \<and> j < seg' \<longrightarrow>
                pos' ! j = Fin (t_start + ((real j + 1) * sL - (?I - (?b - t_start) * si)) / si)"
      using fill_positions_spec[OF assms(2) p2 p3, of si t_start "?b - t_start"] si by auto
    have r: "segment_positions_loop gl t_end sL prev (sec # secs) t_start I pos seg = Inr (pos', seg', L)"
      using q f True by (simp add: a Let_def L)
    have "pos' ! j = Fin t_end" if j: "seg \<le> j" "j < seg'" "(real j + 1) * sL = L" for j
    proof -
      have "pos' ! j = Fin (t_start + (L - (?I - (?b - t_start) * si)) / si)"
        using n j by simp
      also have "L - (?I - (?b - t_start) * si) = (t_end - t_start) * si"
        by (simp add: L b)
      also have "t_start + (t_end - t_start) * si / si = t_end" using si by simp
      finally show ?thesis .
    qed
    then show ?thesis using r l bd L by auto
  next
    case False
    then have lt: "?e < t_end" by simp
    then have b: "?b = ?e" by simp
    have ne: "secs \<noteq> []" using Cons.prems(6) lt by (cases secs) auto
    then obtain r rs where rs: "secs = r # rs" by (cases secs) auto
    have h: "?e \<le> endParam (hd secs)" using Cons.prems(1) rs by simp
    have la: "t_end \<le> endParam (last secs)" using Cons.prems(6) ne by simp
    have rg: "regular_sections ?e secs" using Cons.prems(1) by simp
    have L: "length_over_radius_loop gl t_end ?e secs ?e ?I = Inr L"
      using Cons.prems(9) q lt by (simp add: a Let_def b)
    have IL: "?I < L"
      using length_over_radius_loop_increases[OF assms(1) rg ne order_refl h lt la, of ?I] L by auto
    have p2: "real seg * sL \<le> ?I" using Cons.prems(7) I1 by linarith
    have p3: "?I < (real (length pos) + 1) * sL" using Cons.prems(10) IL by linarith
    obtain pos1 seg1 where f: "fill_positions ?I t_start (?b - t_start) si sL pos seg = Inr (pos1, seg1)"
      and l: "length pos1 = length pos" "seg \<le> seg1"
      and bd: "real seg1 * sL \<le> ?I" "?I < (real seg1 + 1) * sL"
      using fill_positions_spec[OF assms(2) p2 p3, of si t_start "?b - t_start"] si by auto
    have p4: "L < (real (length pos1) + 1) * sL" using Cons.prems(10) l by simp
    obtain pos' seg' where r: "segment_positions_loop gl t_end sL ?e secs ?e ?I pos1 seg1 = Inr (pos', seg', L)"
      and l': "length pos' = length pos1" "seg1 \<le> seg'"
      and bd': "real seg' * sL \<le> L" "L < (real seg' + 1) * sL"
      and n': "\<forall>j. seg1 \<le> j \<and> j < seg' \<and> (real j + 1) * sL = L \<longrightarrow> pos' ! j = Fin t_end"
      using Cons.IH[OF rg ne order_refl h lt la bd L p4] by blast
    have r0: "segment_positions_loop gl t_end sL prev (sec # secs) t_start I pos seg = Inr (pos', seg', L)"
      using q f lt r by (simp add: a Let_def b)
    have "pos' ! j = Fin t_end" if j: "seg \<le> j" "j < seg'" "(real j + 1) * sL = L" for j
    proof (cases "seg1 \<le> j")
      case True
      then show ?thesis using n' j by simp
    next
      case False
      then have "real j + 1 \<le> real seg1" by simp
      then have "(real j + 1) * sL \<le> real seg1 * sL" using assms(2) by (simp add: mult_right_mono)
      then have "(real j + 1) * sL < L" using bd(1) IL by linarith
      then show ?thesis using j(3) by simp
    qed
    then show ?thesis using r0 l l' bd' by auto
  qed
qed

lemma mult_cancel_bounds:
  fixes sL :: real
  assumes "0 < sL" and "real a * sL \<le> L" and "L < (real b + 1) * sL"
  shows "a \<le> b"
proof (rule ccontr)
  assume "\<not> a \<le> b"
  then have "real b + 1 \<le> real a" by simp
  then have "(real b + 1) * sL \<le> real a * sL" using assms(1) by (simp add: mult_right_mono)
  then show False using assms(2,3) by linarith
qed

text \<open>
  The last position over the reals. Let the sections from \<open>startSec\<close> on have increasing
  end parameters and regular points, let \<open>t_start < t_end\<close> lie in them, and let \<open>L\<close> be the
  length over radius of the span. If the \<open>nSeg\<close> sub-targets of length \<open>segLength\<close> add up to
  \<open>L\<close>, or if \<open>L\<close> reaches all of them but the last and misses the last by less than \<open>1e-6\<close>
  of \<open>L\<close>, then \<^verbatim>\<open>calculate_segment_axial_positions\<close> fills all \<open>nSeg\<close> positions and the
  last one is \<open>t_end\<close>: in the first case by the interpolation, in the second by the
  correction after the loop.

  In the code \<open>segLength\<close> is the rounded quotient \<^verbatim>\<open>lengthOverRadius / nSeg\<close> and the
  sub-targets are the rounded products \<^verbatim>\<open>(seg+1)*segLength\<close>; whether they add up to the
  integral, exceed it or fall short of it is a matter of this rounding and of the
  rounding in the quadrature, which the arithmetic of the reals used here does not show.
  When they fall short of it, all positions come from the interpolation and the last
  one lies before \<open>t_end\<close>, as in the third of the examples below.
\<close>

lemma last_axial_position_over_reals:
  assumes "regular_quadrature gl"
    and "startSec < length (vSec neurite)"
    and "regular_sections (section_start (vSec neurite) startSec) (drop startSec (vSec neurite))"
    and "section_start (vSec neurite) startSec \<le> t_start"
    and "t_start \<le> endParam (vSec neurite ! startSec)"
    and "t_start < t_end" and "t_end \<le> endParam (last (vSec neurite))"
    and "calculate_length_over_radius gl t_start t_end neurite startSec = Inr L"
    and "nSeg = length segAxPosOut" and "0 < nSeg"
    and "real nSeg * segLength = L \<or>
         (real (nSeg - 1) * segLength \<le> L \<and> L < real nSeg * segLength \<and>
          (real nSeg * segLength - L) / L < 1 / 10 ^ 6)"
  shows "\<exists>pos. calculate_segment_axial_positions gl segAxPosOut t_start t_end neurite startSec segLength
                 = Inr (pos, nSeg) \<and>
               length pos = nSeg \<and> pos ! (nSeg - 1) = Fin t_end"
proof -
  let ?secs = "drop startSec (vSec neurite)"
  let ?prev = "section_start (vSec neurite) startSec"
  have ne: "?secs \<noteq> []" using assms(2) by simp
  have hd: "t_start \<le> endParam (hd ?secs)"
    using assms(2,5) by (simp add: hd_drop_conv_nth)
  have la: "t_end \<le> endParam (last ?secs)"
    using assms(2,7) by simp
  have chk: "\<not> (endParam (vSec neurite ! startSec) < t_start \<or> ?prev > t_start)"
    using assms(4,5) by simp
  have lor: "length_over_radius_loop gl t_end ?prev ?secs t_start 0 = Inr L"
    using assms(8) assms(2) chk by (simp add: calculate_length_over_radius_def Let_def)
  have L0: "0 < L"
    using length_over_radius_loop_increases[OF assms(1,3) ne assms(4) hd assms(6) la, of 0] lor by auto
  have n0: "0 < real nSeg" using assms(10) by simp
  have tgt: "L \<le> real nSeg * segLength" using assms(11) by auto
  have sL: "0 < segLength"
  proof -
    have "0 < real nSeg * segLength" using tgt L0 by linarith
    then show ?thesis using n0 by (simp add: zero_less_mult_iff)
  qed
  have p1: "real 0 * segLength \<le> 0" "0 < (real 0 + 1) * segLength" using sL by simp_all
  have p3: "L < (real (length segAxPosOut) + 1) * segLength"
    using tgt sL assms(9) by (simp add: distrib_right)
  obtain pos' seg' where
    r: "segment_positions_loop gl t_end segLength ?prev ?secs t_start 0 segAxPosOut 0 = Inr (pos', seg', L)"
    and l: "length pos' = length segAxPosOut"
    and bd: "real seg' * segLength \<le> L" "L < (real seg' + 1) * segLength"
    and n: "\<forall>j. 0 \<le> j \<and> j < seg' \<and> (real j + 1) * segLength = L \<longrightarrow> pos' ! j = Fin t_end"
    using segment_positions_loop_spec[OF assms(1) sL assms(3) ne assms(4) hd assms(6) la p1 lor p3]
    by blast
  have unfold: "calculate_segment_axial_positions gl segAxPosOut t_start t_end neurite startSec segLength =
          (if seg' + 1 = nSeg \<and>
              flt (fdiv (Fin (real nSeg * segLength - L)) (Fin L)) (Fin (1 / 10 ^ 6))
           then Inr (pos'[nSeg - 1 := Fin t_end], seg' + 1)
           else Inr (pos', seg'))"
    using assms(2) chk r by (simp add: calculate_segment_axial_positions_def Let_def assms(9))
  from assms(11) show ?thesis
  proof
    assume a: "real nSeg * segLength = L"
    have "real nSeg * segLength < (real seg' + 1) * segLength" using bd(2) a by simp
    then have "nSeg \<le> seg'"
      using mult_cancel_bounds[OF sL, of nSeg L seg'] a bd(2) by simp
    moreover have "seg' \<le> nSeg"
    proof -
      have "L < (real nSeg + 1) * segLength" using a sL by (simp add: distrib_right)
      then show ?thesis using mult_cancel_bounds[OF sL bd(1)] by simp
    qed
    ultimately have s: "seg' = nSeg" by simp
    have j: "(real (nSeg - 1) + 1) * segLength = L" using a assms(10) by (simp add: of_nat_diff)
    have "pos' ! (nSeg - 1) = Fin t_end"
      using n j assms(10) s by simp
    then show ?thesis using unfold s l assms(9) by simp
  next
    assume b: "real (nSeg - 1) * segLength \<le> L \<and> L < real nSeg * segLength \<and>
               (real nSeg * segLength - L) / L < 1 / 10 ^ 6"
    have "L < (real (nSeg - 1) + 1) * segLength" using b assms(10) by (simp add: of_nat_diff)
    then have "seg' \<le> nSeg - 1" using mult_cancel_bounds[OF sL bd(1)] by simp
    moreover have "nSeg - 1 \<le> seg'" using mult_cancel_bounds[OF sL _ bd(2)] b by simp
    ultimately have s: "seg' + 1 = nSeg" using assms(10) by simp
    have f: "flt (fdiv (Fin (real nSeg * segLength - L)) (Fin L)) (Fin (1 / 10 ^ 6))"
      using b L0 by simp
    have "calculate_segment_axial_positions gl segAxPosOut t_start t_end neurite startSec segLength =
          Inr (pos'[nSeg - 1 := Fin t_end], nSeg)"
      unfolding unfold using s f by simp
    moreover have "pos'[nSeg - 1 := Fin t_end] ! (nSeg - 1) = Fin t_end"
      using l assms(9,10) by simp
    ultimately show ?thesis using l assms(9) by simp
  qed
qed

lemma ex_regular_quadrature: "regular_quadrature ex_gl"
proof -
  have a: "sqrt (3 / 5) \<le> 1" "0 \<le> sqrt (3 / 5)" by simp_all
  have "0 \<le> 1 / 2 - sqrt (3 / 5) / 2" using a by linarith
  moreover have "1 / 2 - sqrt (3 / 5) / 2 \<le> 1" using a by linarith
  moreover have "0 \<le> 1 / 2 + sqrt (3 / 5) / 2" using a by linarith
  moreover have "1 / 2 + sqrt (3 / 5) / 2 \<le> 1" using a by linarith
  ultimately show ?thesis
    unfolding regular_quadrature_def ex_gl_def by simp (use a in linarith)
qed

lemma ex_regular_sections: "regular_sections 0 [ex_sec_a, ex_sec_b]"
  by (simp add: regular_point_def ex_sec_a_def ex_sec_b_def section_velocity_def VecNormSquared_def)

lemma ex_positions_corrected:
  "calculate_segment_axial_positions ex_gl [Fin 0, Fin 0] 0 1 ex_straight 0 (5 / 2 + 1 / 10 ^ 9) =
     Inr ([Fin (1 / 2 + 1 / (5 * 10 ^ 9)), Fin 1], 2)"
  by (simp add: calculate_segment_axial_positions_def ex_straight_def section_start_def ex_endParam
      ex_quadrature Let_def fill_positions.simps)

text \<open>
  The straight neurite with two positions and sub-targets that fall short of the length
  over radius 5 by \<open>2e-9\<close>: the last position is \<open>1 - 4e-10\<close>, and there is no correction.
\<close>

lemma ex_positions_short:
  "calculate_segment_axial_positions ex_gl [Fin 0, Fin 0] 0 1 ex_straight 0 (5 / 2 - 1 / 10 ^ 9) =
     Inr ([Fin (1 / 2 - 1 / (5 * 10 ^ 9)), Fin (1 - 2 / (5 * 10 ^ 9))], 2)"
  by (simp add: calculate_segment_axial_positions_def ex_straight_def section_start_def ex_endParam
      ex_quadrature Let_def fill_positions.simps)

subsection \<open>Decomposition into neurites\<close>

lemma ex_fork_nth:
  "ex_fork ! 0 = ex_pt SWC_SOMA (0, 0, 0) [1]" "ex_fork ! Suc 0 = ex_pt SWC_DEND (1, 0, 0) [0, 2]"
  "ex_fork ! 2 = ex_pt SWC_DEND (2, 0, 0) [1, 3, 4]" "ex_fork ! 3 = ex_pt SWC_DEND (2, 1, 0) [2]"
  "ex_fork ! 4 = ex_pt SWC_DEND (2, - 1, 0) [2]" "length ex_fork = 5"
  by (simp_all add: ex_fork_def)

lemma ex_pt_sel: "type (ex_pt ty c cs) = ty" "coords (ex_pt ty c cs) = c" "radius (ex_pt ty c cs) = 1"
  "conns (ex_pt ty c cs) = cs"
  by (simp_all add: ex_pt_def)

lemma walk_loop_numeral:
  "walk_loop (numeral k) vPoints st =
     (if processing_stack st = [] then Some (Inr st)
      else case walk_step vPoints st of
             Inl e \<Rightarrow> Some (Inl e)
           | Inr st' \<Rightarrow> walk_loop (pred_numeral k) vPoints st')"
  by (simp add: numeral_eq_Suc)

lemma soma_loop_numeral:
  "soma_loop (numeral k) vPoints [] rootPts st = Some (Inr (rootPts, st))"
  "soma_loop (numeral k) vPoints ((pind, ind) # soma_queue) rootPts st =
     (if \<not> (ind < length vPoints \<and> ind < length (ptProcessed st)) then Some (Inl IndexOutOfRange)
      else
        let pt = vPoints ! ind
        in if type pt = SWC_SOMA
           then soma_loop (pred_numeral k) vPoints
                  (soma_queue @ map (Pair ind) (filter (\<lambda>c. c \<noteq> pind) (conns pt))) rootPts
                  (st \<lparr> ptProcessed := (ptProcessed st)[ind := True], nProcessed := nProcessed st + 1 \<rparr>)
           else soma_loop (pred_numeral k) vPoints soma_queue (rootPts @ [(pind, ind)]) st)"
  by (simp_all add: numeral_eq_Suc)

lemma no_parent_neq: "1 \<noteq> no_parent" "Suc 0 \<noteq> no_parent"
  by (simp_all add: no_parent_def)

lemma convert_loop_numeral:
  "convert_loop (numeral k) vPoints st =
     (if nProcessed st = length vPoints then Some (Inr st)
      else case find_soma vPoints (ptProcessed st) of
             None \<Rightarrow> Some (Inl NoSoma)
           | Some i \<Rightarrow>
               (case soma_loop (pred_numeral k) vPoints [(no_parent, i)] []
                       (st \<lparr> vSomaPoints := vSomaPoints st @ [vPoints ! i] \<rparr>) of
                  None \<Rightarrow> None
                | Some (Inl e) \<Rightarrow> Some (Inl e)
                | Some (Inr (rootPts, st1)) \<Rightarrow>
                    (case walk_loop (pred_numeral k) vPoints
                            \<lparr> vSomaPoints = vSomaPoints st1,
                              vPosOut = vPosOut st1 @ replicate (length rootPts) [],
                              vRadOut = vRadOut st1 @ replicate (length rootPts) [],
                              vBPInfoOut = vBPInfoOut st1 @ replicate (length rootPts) [],
                              vRootNeuriteIndsOut = vRootNeuriteIndsOut st1 @ [curNeuriteInd st1],
                              ptProcessed = ptProcessed st1,
                              nProcessed = nProcessed st1,
                              curNeuriteInd = curNeuriteInd st1,
                              processing_stack = rev rootPts,
                              helperMap = [] \<rparr> of
                       None \<Rightarrow> None
                     | Some (Inl e) \<Rightarrow> Some (Inl e)
                     | Some (Inr w) \<Rightarrow>
                         convert_loop (pred_numeral k) vPoints
                           \<lparr> vSomaPoints = vSomaPoints w, vPosOut = vPosOut w, vRadOut = vRadOut w,
                             vBPInfoOut = vBPInfoOut w, vRootNeuriteIndsOut = vRootNeuriteIndsOut w,
                             ptProcessed = ptProcessed w, nProcessed = nProcessed w,
                             curNeuriteInd = curNeuriteInd w + 1 \<rparr>)))"
  by (simp add: numeral_eq_Suc)

lemma ex_replicate: "replicate 5 x = [x, x, x, x, x]" "replicate 3 x = [x, x, x]"
  by (simp_all add: numeral_eq_Suc)

lemma ex_soma_loop:
  "soma_loop 9 ex_fork [(no_parent, 0)] []
     \<lparr> vSomaPoints = [ex_pt SWC_SOMA (0, 0, 0) [Suc 0]], vPosOut = [], vRadOut = [], vBPInfoOut = [],
       vRootNeuriteIndsOut = [], ptProcessed = [False, False, False, False, False], nProcessed = 0,
       curNeuriteInd = 0 \<rparr>
   = Some (Inr ([(0, Suc 0)], 
     \<lparr> vSomaPoints = [ex_pt SWC_SOMA (0, 0, 0) [Suc 0]], vPosOut = [], vRadOut = [], vBPInfoOut = [],
       vRootNeuriteIndsOut = [], ptProcessed = [True, False, False, False, False], nProcessed = Suc 0, curNeuriteInd = 0 \<rparr>))"
  by (simp add: soma_loop_numeral ex_fork_nth ex_pt_sel Let_def no_parent_neq)

lemma ex_find_soma:
  "find_soma ex_fork [False, False, False, False, False] = Some 0"
  "find_soma ex_two_somata [False, False, False] = Some 0"
  by (simp_all add: find_soma_def ex_fork_def ex_two_somata_def ex_pt_sel upt_rec)

lemma ex_normalize:
  "VecNormalize_d (1, 0, 0) = (1, 0, 0)" "VecNormalize_d (0, 1, 0) = (0, 1, 0)"
  "VecNormalize_d (0, - 1, 0) = (0, - 1, 0)"
  by (simp_all add: VecNormalize_d_def VecLength_d_def d_ops)

lemma d_acos_0: "d_acos 0 = Fin (round_double (pi / 2))"
  by (simp add: d_acos_def)

lemma ex_angles:
  "branch_angle ex_fork (ex_pt ty (2, 0, 0) cs) (1, 0, 0) 3 = Fin (round_double (pi / 2))"
  "branch_angle ex_fork (ex_pt ty (2, 0, 0) cs) (1, 0, 0) 4 = Fin (round_double (pi / 2))"
  by (simp_all add: branch_angle_def ex_fork_nth ex_pt_sel d_ops ex_normalize d_acos_0)

lemma ex_select:
  "select_branch ex_fork (ex_pt SWC_DEND (2, 0, 0) [1, 3, 4]) 1 (1, 0, 0) 0 [1, 3, 4] (0, 0, PInf)
   = (0, 1, Fin (round_double (pi / 2)))"
  by (simp add: ex_angles)

text \<open>The four passes of the walk through the first example.\<close>

lemma ex_step1: "walk_step ex_fork ex_w0 = Inr ex_w1"
  by (simp add: walk_step_def normal_point_def ex_w0_def ex_w1_def ex_fork_nth ex_pt_sel Let_def
      push_back_at_def)

lemma ex_step2: "walk_step ex_fork ex_w1 = Inr ex_w2"
proof -
  have u: "[0..<3] = [0, 1, 2]" by (simp add: upt_rec)
  show ?thesis
    by (simp add: walk_step_def branching_point_def ex_w0_def ex_w1_def ex_w2_def ex_fork_nth
        ex_pt_sel Let_def push_back_at_def d_ops ex_normalize ex_angles u)
qed

lemma ex_step3: "walk_step ex_fork ex_w2 = Inr ex_w3"
  by (simp add: walk_step_def end_point_def ex_w0_def ex_w2_def ex_w3_def ex_fork_nth ex_pt_sel
      Let_def push_back_at_def)

lemma ex_step4: "walk_step ex_fork ex_w3 = Inr ex_w4"
  by (simp add: walk_step_def end_point_def ex_w0_def ex_w3_def ex_w4_def ex_fork_nth ex_pt_sel
      Let_def push_back_at_def)

lemma ex_stacks:
  "processing_stack ex_w0 \<noteq> []" "processing_stack ex_w1 \<noteq> []" "processing_stack ex_w2 \<noteq> []"
  "processing_stack ex_w3 \<noteq> []" "processing_stack ex_w4 = []"
  "processing_stack ex_v0 \<noteq> []" "processing_stack ex_v1 = [(1, 2)]"
  by (simp_all add: ex_w0_def ex_w1_def ex_w2_def ex_w3_def ex_w4_def ex_v0_def ex_v1_def)

lemma ex_walk: "walk_loop 9 ex_fork ex_w0 = Some (Inr ex_w4)"
  by (simp add: walk_loop_numeral ex_stacks ex_step1 ex_step2 ex_step3 ex_step4)

text \<open>
  The decomposition of the first example: the dendrite goes on into the first of the two
  children at the same angle, the second child is a neurite of its own that starts at
  the branching point.
\<close>

lemma ex_fork_decomposition:
  "convert_pointlist_to_neuritelist 10 ex_fork [] = Some (Inr ex_fork_lists)"
proof -
  have w: "\<lparr> vSomaPoints = [ex_pt SWC_SOMA (0, 0, 0) [Suc 0]], vPosOut = [[]], vRadOut = [[]],
             vBPInfoOut = [[]], vRootNeuriteIndsOut = [0],
             ptProcessed = [True, False, False, False, False], nProcessed = Suc 0, curNeuriteInd = 0,
             processing_stack = [(0, Suc 0)], helperMap = [] \<rparr> = ex_w0"
    by (simp add: ex_w0_def)
  have r: "convert_loop 9 ex_fork
             \<lparr> vSomaPoints = vSomaPoints ex_w4, vPosOut = vPosOut ex_w4, vRadOut = vRadOut ex_w4,
               vBPInfoOut = vBPInfoOut ex_w4, vRootNeuriteIndsOut = vRootNeuriteIndsOut ex_w4,
               ptProcessed = ptProcessed ex_w4, nProcessed = nProcessed ex_w4,
               curNeuriteInd = Suc (curNeuriteInd ex_w4) \<rparr> = Some (Inr ex_fork_lists)"
    by (simp add: convert_loop_numeral ex_w4_def ex_w0_def ex_fork_lists_def ex_fork_nth)
  show ?thesis
    unfolding convert_pointlist_to_neuritelist_def
    by (subst convert_loop_numeral)
      (simp add: ex_fork_nth ex_replicate ex_find_soma ex_soma_loop w ex_walk r)
qed

text \<open>The second example: the walk comes to the second soma point in its second pass.\<close>

lemma ex_two_somata_nth:
  "ex_two_somata ! 0 = ex_pt SWC_SOMA (0, 0, 0) [1]"
  "ex_two_somata ! Suc 0 = ex_pt SWC_DEND (1, 0, 0) [0, 2]"
  "ex_two_somata ! 2 = ex_pt SWC_SOMA (2, 0, 0) [1]" "length ex_two_somata = 3"
  by (simp_all add: ex_two_somata_def)

lemma ex_two_somata_soma_loop:
  "soma_loop 9 ex_two_somata [(no_parent, 0)] []
     \<lparr> vSomaPoints = [ex_pt SWC_SOMA (0, 0, 0) [Suc 0]], vPosOut = [], vRadOut = [], vBPInfoOut = [],
       vRootNeuriteIndsOut = [], ptProcessed = [False, False, False], nProcessed = 0,
       curNeuriteInd = 0 \<rparr>
   = Some (Inr ([(0, Suc 0)], 
     \<lparr> vSomaPoints = [ex_pt SWC_SOMA (0, 0, 0) [Suc 0]], vPosOut = [], vRadOut = [], vBPInfoOut = [],
       vRootNeuriteIndsOut = [], ptProcessed = [True, False, False], nProcessed = Suc 0, curNeuriteInd = 0 \<rparr>))"
  by (simp add: soma_loop_numeral ex_two_somata_nth ex_pt_sel Let_def no_parent_neq)

lemma ex_two_somata_step1: "walk_step ex_two_somata ex_v0 = Inr ex_v1"
  by (simp add: walk_step_def normal_point_def ex_v0_def ex_v1_def ex_two_somata_nth ex_pt_sel
      Let_def push_back_at_def)

lemma walk_step_soma:
  assumes "processing_stack st = (pind, ind) # stack"
    and "ind < length vPoints" and "ind < length (ptProcessed st)"
    and "type (vPoints ! ind) = SWC_SOMA"
  shows "walk_step vPoints st = Inl MoreThanOneSoma"
  using assms by (simp add: walk_step_def Let_def)

lemma walk_step_empty: "processing_stack st = [] \<Longrightarrow> walk_step vPoints st = Inr st"
  by (simp add: walk_step_def)

lemma walk_steps_empty: "processing_stack st = [] \<Longrightarrow> walk_steps k vPoints st = Inr st"
  by (induction k) (simp_all add: walk_step_empty)

lemma walk_loop_after_steps:
  assumes "walk_steps k vPoints st0 = Inr st" and "processing_stack st \<noteq> []"
  shows "walk_loop (k + fuel) vPoints st0 = walk_loop fuel vPoints st"
  using assms
proof (induction k arbitrary: st0)
  case 0
  then show ?case by simp
next
  case (Suc k)
  have ne: "processing_stack st0 \<noteq> []"
  proof
    assume "processing_stack st0 = []"
    then have "walk_steps (Suc k) vPoints st0 = Inr st0" by (rule walk_steps_empty)
    then show False using Suc.prems \<open>processing_stack st0 = []\<close> by simp
  qed
  obtain st1 where s: "walk_step vPoints st0 = Inr st1" and r: "walk_steps k vPoints st1 = Inr st"
    using Suc.prems(1) by (auto split: sum.splits)
  show ?case
    using ne s Suc.IH[OF r Suc.prems(2)] by simp
qed

text \<open>
  Claim C10. When the walk over the neurites of a neuron comes, after any number of
  passes, to a point of type soma, the pass throws "Detected neuron with more than one
  soma." before the point is appended to a neurite, and so the walk ends with this
  error as soon as it is given fuel for these passes and one more.
\<close>

theorem walk_reaching_soma_fails:
  assumes "walk_steps k vPoints st0 = Inr st"
    and "processing_stack st = (pind, ind) # stack"
    and "ind < length vPoints" and "ind < length (ptProcessed st)"
    and "type (vPoints ! ind) = SWC_SOMA"
  shows "walk_step vPoints st = Inl MoreThanOneSoma \<and>
         (\<forall>fuel. k < fuel \<longrightarrow> walk_loop fuel vPoints st0 = Some (Inl MoreThanOneSoma))"
proof -
  have s: "walk_step vPoints st = Inl MoreThanOneSoma"
    using assms(2-5) by (rule walk_step_soma)
  have "walk_loop fuel vPoints st0 = Some (Inl MoreThanOneSoma)" if lt: "k < fuel" for fuel
  proof -
    obtain n where f: "fuel = k + Suc n" using less_imp_Suc_add[OF lt] by auto
    have "walk_loop (k + Suc n) vPoints st0 = walk_loop (Suc n) vPoints st"
      using assms(1,2) by (intro walk_loop_after_steps) simp_all
    then show ?thesis using s assms(2) by (simp add: f)
  qed
  then show ?thesis using s by blast
qed

text \<open>
  The theorem at the second example, after the first pass of the walk, and the failure
  of the whole decomposition of this example.
\<close>

theorem walk_reaching_soma_fails_witness:
  "walk_steps 1 ex_two_somata ex_v0 = Inr ex_v1 \<and> processing_stack ex_v1 = [(1, 2)] \<and>
   type (ex_two_somata ! 2) = SWC_SOMA \<and>
   walk_step ex_two_somata ex_v1 = Inl MoreThanOneSoma \<and>
   walk_loop 2 ex_two_somata ex_v0 = Some (Inl MoreThanOneSoma)"
proof -
  have h: "walk_steps 1 ex_two_somata ex_v0 = Inr ex_v1" "processing_stack ex_v1 = [(1, 2)]"
    "2 < length ex_two_somata" "2 < length (ptProcessed ex_v1)"
    "type (ex_two_somata ! 2) = SWC_SOMA"
    using ex_two_somata_step1
    by (simp_all add: ex_stacks ex_two_somata_nth ex_pt_sel) (simp add: ex_v1_def ex_v0_def)
  have "(1::nat) < 2" by simp
  then show ?thesis
    using walk_reaching_soma_fails[OF h] h(1,2,5) by blast
qed

lemma ex_two_somata_fails:
  "convert_pointlist_to_neuritelist 10 ex_two_somata [] = Some (Inl MoreThanOneSoma)"
proof -
  have w: "\<lparr> vSomaPoints = [ex_pt SWC_SOMA (0, 0, 0) [Suc 0]], vPosOut = [[]], vRadOut = [[]],
             vBPInfoOut = [[]], vRootNeuriteIndsOut = [0],
             ptProcessed = [True, False, False], nProcessed = Suc 0, curNeuriteInd = 0,
             processing_stack = [(0, Suc 0)], helperMap = [] \<rparr> = ex_v0"
    by (simp add: ex_v0_def)
  have s: "walk_step ex_two_somata ex_v1 = Inl MoreThanOneSoma"
    by (rule walk_step_soma[where pind = 1 and ind = 2 and stack = "[]"])
      (simp_all add: ex_stacks ex_two_somata_nth ex_pt_sel ex_v1_def ex_v0_def)
  have l: "walk_loop 9 ex_two_somata ex_v0 = Some (Inl MoreThanOneSoma)"
    by (simp add: walk_loop_numeral ex_stacks ex_two_somata_step1 s)
  show ?thesis
    by (simp add: convert_pointlist_to_neuritelist_def convert_loop_numeral ex_two_somata_nth
        ex_replicate ex_find_soma ex_two_somata_soma_loop w l)
qed

text \<open>An error of the walk ends the decomposition with this error.\<close>

lemma convert_loop_walk_error:
  assumes "nProcessed s \<noteq> length vPoints" and "find_soma vPoints (ptProcessed s) = Some i"
    and "soma_loop fuel vPoints [(no_parent, i)] [] (s \<lparr> vSomaPoints := vSomaPoints s @ [vPoints ! i] \<rparr>)
         = Some (Inr (rootPts, st1))"
    and "walk_loop fuel vPoints
           \<lparr> vSomaPoints = vSomaPoints st1,
             vPosOut = vPosOut st1 @ replicate (length rootPts) [],
             vRadOut = vRadOut st1 @ replicate (length rootPts) [],
             vBPInfoOut = vBPInfoOut st1 @ replicate (length rootPts) [],
             vRootNeuriteIndsOut = vRootNeuriteIndsOut st1 @ [curNeuriteInd st1],
             ptProcessed = ptProcessed st1, nProcessed = nProcessed st1,
             curNeuriteInd = curNeuriteInd st1,
             processing_stack = rev rootPts, helperMap = [] \<rparr> = Some (Inl e)"
  shows "convert_loop (Suc fuel) vPoints s = Some (Inl e)"
  using assms by simp

text \<open>
  The loop keeps the least angle so far that is a number, with the first index at which
  it was found: no child seen has a smaller angle, and no child before that index has
  the same.
\<close>

lemma select_branch_min:
  assumes "length pre = i" and "m \<noteq> NaN"
    and "\<forall>j < length pre. pre ! j \<noteq> pind \<longrightarrow> \<not> flt (branch_angle vPoints pt parentDir (pre ! j)) m"
    and "m = PInf \<or>
         (mi < length pre \<and> pre ! mi \<noteq> pind \<and> branch_angle vPoints pt parentDir (pre ! mi) = m \<and>
          (\<forall>j < mi. pre ! j \<noteq> pind \<longrightarrow> branch_angle vPoints pt parentDir (pre ! j) \<noteq> m))"
    and "select_branch vPoints pt pind parentDir i cs (pd, mi, m) = (pd', mi', m')"
  shows "m' \<noteq> NaN \<and>
         (\<forall>j < length (pre @ cs). (pre @ cs) ! j \<noteq> pind \<longrightarrow>
              \<not> flt (branch_angle vPoints pt parentDir ((pre @ cs) ! j)) m') \<and>
         (m' = PInf \<or>
          (mi' < length (pre @ cs) \<and> (pre @ cs) ! mi' \<noteq> pind \<and>
           branch_angle vPoints pt parentDir ((pre @ cs) ! mi') = m' \<and>
           (\<forall>j < mi'. (pre @ cs) ! j \<noteq> pind \<longrightarrow> branch_angle vPoints pt parentDir ((pre @ cs) ! j) \<noteq> m')))"
  using assms
proof (induction cs arbitrary: pre i pd mi m)
  case Nil
  then show ?case by simp
next
  case (Cons c cs)
  let ?ang = "branch_angle vPoints pt parentDir"
  let ?pre = "pre @ [c]"
  have len: "length ?pre = i + 1" using Cons.prems(1) by simp
  have app: "?pre @ cs = pre @ c # cs" by simp
  show ?case
  proof (cases "c = pind")
    case True
    have r: "select_branch vPoints pt pind parentDir (i + 1) cs (i, mi, m) = (pd', mi', m')"
      using Cons.prems(5) True by simp
    have i1: "\<forall>j < length ?pre. ?pre ! j \<noteq> pind \<longrightarrow> \<not> flt (?ang (?pre ! j)) m"
      using Cons.prems(3) True by (auto simp add: nth_append less_Suc_eq)
    have i2: "m = PInf \<or>
         (mi < length ?pre \<and> ?pre ! mi \<noteq> pind \<and> ?ang (?pre ! mi) = m \<and>
          (\<forall>j < mi. ?pre ! j \<noteq> pind \<longrightarrow> ?ang (?pre ! j) \<noteq> m))"
      using Cons.prems(4) by (auto simp add: nth_append)
    show ?thesis using Cons.IH[OF len Cons.prems(2) i1 i2 r] unfolding app .
  next
    case False
    show ?thesis
    proof (cases "flt (?ang c) m")
      case True
      have r: "select_branch vPoints pt pind parentDir (i + 1) cs (pd, i, ?ang c) = (pd', mi', m')"
        using Cons.prems(5) False True by (simp add: Let_def)
      have n: "?ang c \<noteq> NaN" using True by (cases "?ang c") simp_all
      have old: "\<not> flt (?ang (pre ! j)) (?ang c)" if "j < length pre" "pre ! j \<noteq> pind" for j
        using Cons.prems(3) that True flt_trans by blast
      have i1: "\<forall>j < length ?pre. ?pre ! j \<noteq> pind \<longrightarrow> \<not> flt (?ang (?pre ! j)) (?ang c)"
        using old flt_irrefl by (auto simp add: nth_append less_Suc_eq)
      have ne: "?ang (pre ! j) \<noteq> ?ang c" if "j < i" "pre ! j \<noteq> pind" for j
      proof
        assume "?ang (pre ! j) = ?ang c"
        then have "flt (?ang (pre ! j)) m" using True by simp
        then show False using Cons.prems(1,3) that by simp
      qed
      have i2: "?ang c = PInf \<or>
         (i < length ?pre \<and> ?pre ! i \<noteq> pind \<and> ?ang (?pre ! i) = ?ang c \<and>
          (\<forall>j < i. ?pre ! j \<noteq> pind \<longrightarrow> ?ang (?pre ! j) \<noteq> ?ang c))"
        using ne False Cons.prems(1) by (auto simp add: nth_append)
      show ?thesis using Cons.IH[OF len n i1 i2 r] unfolding app .
    next
      case nf: False
      have r: "select_branch vPoints pt pind parentDir (i + 1) cs (pd, mi, m) = (pd', mi', m')"
        using Cons.prems(5) False nf by (simp add: Let_def)
      have i1: "\<forall>j < length ?pre. ?pre ! j \<noteq> pind \<longrightarrow> \<not> flt (?ang (?pre ! j)) m"
        using Cons.prems(3) nf by (auto simp add: nth_append less_Suc_eq)
      have i2: "m = PInf \<or>
         (mi < length ?pre \<and> ?pre ! mi \<noteq> pind \<and> ?ang (?pre ! mi) = m \<and>
          (\<forall>j < mi. ?pre ! j \<noteq> pind \<longrightarrow> ?ang (?pre ! j) \<noteq> m))"
        using Cons.prems(4) by (auto simp add: nth_append)
      show ?thesis using Cons.IH[OF len Cons.prems(2) i1 i2 r] unfolding app .
    qed
  qed
qed

lemma select_branch_parent:
  assumes "length pre = i"
    and "pind \<in> set pre \<longrightarrow> pd < length pre \<and> pre ! pd = pind"
    and "select_branch vPoints pt pind parentDir i cs (pd, mi, m) = (pd', mi', m')"
  shows "pind \<in> set (pre @ cs) \<longrightarrow> pd' < length (pre @ cs) \<and> (pre @ cs) ! pd' = pind"
  using assms
proof (induction cs arbitrary: pre i pd mi m)
  case Nil
  then show ?case by simp
next
  case (Cons c cs)
  let ?pre = "pre @ [c]"
  have len: "length ?pre = i + 1" using Cons.prems(1) by simp
  have app: "?pre @ cs = pre @ c # cs" by simp
  obtain pd1 mi1 m1 where
    r: "select_branch vPoints pt pind parentDir (i + 1) cs (pd1, mi1, m1) = (pd', mi', m')"
    and p: "pd1 = (if c = pind then i else pd)"
    using Cons.prems(3) by (auto simp add: Let_def split: if_splits)
  have inv: "pind \<in> set ?pre \<longrightarrow> pd1 < length ?pre \<and> ?pre ! pd1 = pind"
    using Cons.prems(1,2) p by (auto simp add: nth_append)
  show ?case using Cons.IH[OF len inv r] unfolding app .
qed

lemma walk_step_Inr:
  assumes "walk_step vPoints st = Inr st'" and "processing_stack st = (pind, ind) # stack"
  obtains st1 where
    "st1 = st \<lparr> ptProcessed := (ptProcessed st)[ind := True], nProcessed := nProcessed st + 1,
                vPosOut := push_back_at (vPosOut st) (curNeuriteInd st) (coords (vPoints ! ind)),
                vRadOut := push_back_at (vRadOut st) (curNeuriteInd st) (radius (vPoints ! ind)),
                processing_stack := stack \<rparr>"
    and "curNeuriteInd st < length (vPosOut st)"
    and "(if 2 < length (conns (vPoints ! ind)) then branching_point vPoints pind ind st1
          else if length (conns (vPoints ! ind)) = 1 then end_point vPoints st1
          else normal_point vPoints pind ind st1) = Inr st'"
  using assms by (simp add: walk_step_def Let_def split: if_splits)

lemma branching_point_vPosOut:
  assumes "branching_point vPoints pind ind st = Inr st'" and "n < length (vPosOut st)"
  shows "vPosOut st' ! n = vPosOut st ! n"
  using assms
  by (auto simp add: branching_point_def Let_def nth_append split: if_splits prod.splits)

lemma end_point_vPosOut:
  assumes "end_point vPoints st = Inr st'"
  shows "vPosOut st' ! curNeuriteInd st = vPosOut st ! curNeuriteInd st"
  using assms
  by (auto simp add: end_point_def Let_def push_back_at_def
      split: if_splits list.splits option.splits prod.splits)

lemma normal_point_vPosOut:
  assumes "normal_point vPoints pind ind st = Inr st'"
  shows "vPosOut st' = vPosOut st"
  using assms by (auto simp add: normal_point_def)

lemma walk_step_appends:
  assumes "walk_step vPoints st = Inr st'" and "processing_stack st = (pind, ind) # stack"
  shows "vPosOut st' ! curNeuriteInd st = vPosOut st ! curNeuriteInd st @ [coords (vPoints ! ind)]"
proof -
  let ?cur = "curNeuriteInd st"
  let ?pt = "vPoints ! ind"
  obtain st1 where
    st1: "st1 = st \<lparr> ptProcessed := (ptProcessed st)[ind := True], nProcessed := nProcessed st + 1,
                vPosOut := push_back_at (vPosOut st) ?cur (coords ?pt),
                vRadOut := push_back_at (vRadOut st) ?cur (radius ?pt),
                processing_stack := stack \<rparr>"
    and c: "?cur < length (vPosOut st)"
    and r: "(if 2 < length (conns ?pt) then branching_point vPoints pind ind st1
             else if length (conns ?pt) = 1 then end_point vPoints st1
             else normal_point vPoints pind ind st1) = Inr st'"
    using walk_step_Inr[OF assms] by metis
  have v: "vPosOut st1 ! ?cur = vPosOut st ! ?cur @ [coords ?pt]" "?cur < length (vPosOut st1)"
    "curNeuriteInd st1 = ?cur"
    using c by (simp_all add: st1 push_back_at_def)
  consider "2 < length (conns ?pt)" | "length (conns ?pt) = 1"
    | "\<not> 2 < length (conns ?pt)" "length (conns ?pt) \<noteq> 1"
    by blast
  then have "vPosOut st' ! ?cur = vPosOut st1 ! ?cur"
  proof cases
    case 1
    then show ?thesis using r branching_point_vPosOut[OF _ v(2)] by simp
  next
    case 2
    then show ?thesis using r end_point_vPosOut[of vPoints st1 st'] v(3) by simp
  next
    case 3
    then show ?thesis using r normal_point_vPosOut[of vPoints pind ind st1 st'] by simp
  qed
  then show ?thesis using v(1) by simp
qed

lemma walk_step_branch:
  assumes "processing_stack st = (pind, ind) # stack"
    and "ind < length vPoints" and "ind < length (ptProcessed st)"
    and "pt = vPoints ! ind" and "type pt \<noteq> SWC_SOMA"
    and "cur = curNeuriteInd st"
    and "cur < length (vPosOut st)" and "cur < length (vRadOut st)" and "cur < length (vBPInfoOut st)"
    and "2 < length (conns pt)"
    and "pind < length vPoints" and "\<forall>c \<in> set (conns pt). c < length vPoints"
    and "select_branch vPoints pt pind
           (VecNormalize_d (VecSubtract_d (coords pt) (coords (vPoints ! pind)))) 0 (conns pt) (0, 0, PInf)
         = (pd, k, m)"
  shows "\<exists>st'. walk_step vPoints st = Inr st' \<and> curNeuriteInd st' = cur \<and>
           processing_stack st' =
             (ind, conns pt ! k) #
             rev (map (Pair ind) (map (\<lambda>i. conns pt ! i)
                    (filter (\<lambda>i. \<not> (i = pd \<or> i = k)) [0..<length (conns pt)]))) @ stack \<and>
           vPosOut st' ! cur = vPosOut st ! cur @ [coords pt] \<and>
           vBPInfoOut st' ! cur = vBPInfoOut st ! cur @ [(length (vPosOut st ! cur), [])] \<and>
           helperMap st' =
             (if filter (\<lambda>i. \<not> (i = pd \<or> i = k)) [0..<length (conns pt)] = [] then helperMap st
              else (ind, cur, length (vBPInfoOut st ! cur)) # helperMap st)"
proof -
  let ?st1 = "st \<lparr> ptProcessed := (ptProcessed st)[ind := True], nProcessed := nProcessed st + 1,
                vPosOut := push_back_at (vPosOut st) cur (coords pt),
                vRadOut := push_back_at (vRadOut st) cur (radius pt),
                processing_stack := stack \<rparr>"
  have w: "walk_step vPoints st = branching_point vPoints pind ind ?st1"
    using assms(1-3,5,7,8,10) unfolding assms(4,6) by (simp add: walk_step_def Let_def)
  have b: "branching_point vPoints pind ind ?st1 =
           Inr (?st1 \<lparr> vPosOut := vPosOut ?st1 @ replicate (length (conns pt) - 2) [],
                        vRadOut := vRadOut ?st1 @ replicate (length (conns pt) - 2) [],
                        vBPInfoOut := push_back_at (vBPInfoOut ?st1 @ replicate (length (conns pt) - 2) []) cur
                                        (length (vPosOut ?st1 ! cur) - 1, []),
                        processing_stack :=
                          (ind, conns pt ! k) #
                          rev (map (Pair ind) (map (\<lambda>i. conns pt ! i)
                                 (filter (\<lambda>i. \<not> (i = pd \<or> i = k)) [0..<length (conns pt)]))) @ stack,
                        helperMap :=
                          (if map (\<lambda>i. conns pt ! i)
                                 (filter (\<lambda>i. \<not> (i = pd \<or> i = k)) [0..<length (conns pt)]) = []
                           then helperMap ?st1
                           else (ind, cur, length (vBPInfoOut ?st1 ! cur)) # helperMap ?st1) \<rparr>)"
    using assms(9,11,12,13) unfolding assms(4,6)
    by (simp add: branching_point_def Let_def)
  show ?thesis
    unfolding w b using assms(6,7,9) by (simp add: push_back_at_def nth_append)
qed

lemma filter_indices_distinct:
  assumes "distinct xs" and "p < length xs" and "k < length xs"
  shows "map (\<lambda>i. xs ! i) (filter (\<lambda>i. \<not> (i = p \<or> i = k)) [0..<length xs])
         = filter (\<lambda>c. c \<noteq> xs ! p \<and> c \<noteq> xs ! k) xs"
proof -
  have "filter (\<lambda>c. c \<noteq> xs ! p \<and> c \<noteq> xs ! k) xs
        = filter (\<lambda>c. c \<noteq> xs ! p \<and> c \<noteq> xs ! k) (map (\<lambda>i. xs ! i) [0..<length xs])"
    by (simp add: map_nth)
  also have "\<dots> = map (\<lambda>i. xs ! i) (filter (\<lambda>i. xs ! i \<noteq> xs ! p \<and> xs ! i \<noteq> xs ! k) [0..<length xs])"
    by (simp add: filter_map comp_def)
  also have "filter (\<lambda>i. xs ! i \<noteq> xs ! p \<and> xs ! i \<noteq> xs ! k) [0..<length xs]
             = filter (\<lambda>i. \<not> (i = p \<or> i = k)) [0..<length xs]"
    using assms by (intro filter_cong) (auto simp add: nth_eq_iff_index_eq)
  finally show ?thesis by simp
qed

lemma two_indices_leave_one:
  assumes "2 < (n::nat)"
  shows "filter (\<lambda>i. \<not> (i = p \<or> i = k)) [0..<n] \<noteq> []"
proof -
  obtain i where i: "i < n" "i \<noteq> p" "i \<noteq> k"
  proof -
    consider "p \<noteq> 0 \<and> k \<noteq> 0" | "p \<noteq> 1 \<and> k \<noteq> 1" | "p \<noteq> 2 \<and> k \<noteq> 2" by arith
    then show ?thesis
    proof cases
      case 1
      then show ?thesis using assms that[of 0] by simp
    next
      case 2
      then show ?thesis using assms that[of 1] by simp
    next
      case 3
      then show ?thesis using assms that[of 2] by simp
    qed
  qed
  then have "i \<in> set (filter (\<lambda>i. \<not> (i = p \<or> i = k)) [0..<n])" by simp
  then show ?thesis by (metis empty_iff empty_set)
qed

text \<open>
  Where new neurites start. A pass of the walk at a point that is no end point and has
  a connection other than its parent leaves the number of the current neurite as it is
  and puts a connection of this point on top of the stack. A pass at an end point above
  an entry \<open>(p, c)\<close> of the stack, where the helper map has the branching point \<open>p\<close>,
  goes on to the next neurite, which begins with the position of \<open>p\<close> and is entered in
  the list of children of the branching point; the pass after it appends \<open>c\<close> to the new
  neurite.
\<close>

lemma branching_point_stack:
  assumes "branching_point vPoints pind ind st = Inr st'"
  shows "\<exists>c pushed. processing_stack st' = (ind, c) # pushed @ processing_stack st \<and>
           curNeuriteInd st' = curNeuriteInd st"
  using assms
  by (auto simp add: branching_point_def Let_def split: if_splits prod.splits)

lemma walk_step_inner_point:
  assumes "walk_step vPoints st = Inr st'" and "processing_stack st = (pind, ind) # stack"
    and "length (conns (vPoints ! ind)) \<noteq> 1" and "\<exists>c \<in> set (conns (vPoints ! ind)). c \<noteq> pind"
  shows "\<exists>c pushed. processing_stack st' = (ind, c) # pushed @ stack \<and>
           curNeuriteInd st' = curNeuriteInd st"
proof -
  let ?pt = "vPoints ! ind"
  obtain st1 where
    st1: "st1 = st \<lparr> ptProcessed := (ptProcessed st)[ind := True], nProcessed := nProcessed st + 1,
                vPosOut := push_back_at (vPosOut st) (curNeuriteInd st) (coords ?pt),
                vRadOut := push_back_at (vRadOut st) (curNeuriteInd st) (radius ?pt),
                processing_stack := stack \<rparr>"
    and r: "(if 2 < length (conns ?pt) then branching_point vPoints pind ind st1
             else if length (conns ?pt) = 1 then end_point vPoints st1
             else normal_point vPoints pind ind st1) = Inr st'"
    using walk_step_Inr[OF assms(1,2)] by metis
  have v: "processing_stack st1 = stack" "curNeuriteInd st1 = curNeuriteInd st"
    by (simp_all add: st1)
  show ?thesis
  proof (cases "2 < length (conns ?pt)")
    case True
    then show ?thesis using r branching_point_stack[of vPoints pind ind st1 st'] v by simp
  next
    case False
    obtain c cs where f: "rev (filter (\<lambda>c. c \<noteq> pind) (conns ?pt)) = c # cs"
      using assms(4) by (cases "rev (filter (\<lambda>c. c \<noteq> pind) (conns ?pt))") (auto simp add: filter_empty_conv)
    have "st' = st1 \<lparr> processing_stack :=
                 rev (map (Pair ind) (filter (\<lambda>c. c \<noteq> pind) (conns ?pt))) @ processing_stack st1 \<rparr>"
      using r False assms(3) by (simp add: normal_point_def)
    then have "processing_stack st' = (ind, c) # map (Pair ind) cs @ stack"
      "curNeuriteInd st' = curNeuriteInd st"
      using f v by (simp_all add: rev_map[symmetric])
    then show ?thesis by blast
  qed
qed

lemma end_point_new_neurite:
  assumes "end_point vPoints st = Inr st'" and "processing_stack st = (p, c) # rest"
    and "map_of (helperMap st) p = Some (n, b)"
  shows "curNeuriteInd st' = curNeuriteInd st + 1 \<and> processing_stack st' = (p, c) # rest \<and>
         curNeuriteInd st + 1 < length (vPosOut st') \<and>
         vPosOut st' ! (curNeuriteInd st + 1) = vPosOut st ! (curNeuriteInd st + 1) @ [coords (vPoints ! p)] \<and>
         snd (vBPInfoOut st' ! n ! b) = snd (vBPInfoOut st ! n ! b) @ [curNeuriteInd st + 1]"
  using assms
  by (auto simp add: end_point_def Let_def push_back_at_def split: if_splits)

lemma walk_step_end_point:
  assumes "walk_step vPoints st = Inr st'" and "processing_stack st = (pind, ind) # (p, c) # rest"
    and "length (conns (vPoints ! ind)) = 1"
    and "map_of (helperMap st) p = Some (n, b)"
    and "walk_step vPoints st' = Inr st''"
  shows "curNeuriteInd st' = curNeuriteInd st + 1 \<and> processing_stack st' = (p, c) # rest \<and>
         vPosOut st'' ! (curNeuriteInd st + 1) =
           vPosOut st ! (curNeuriteInd st + 1) @ [coords (vPoints ! p), coords (vPoints ! c)] \<and>
         curNeuriteInd st + 1 \<in> set (snd (vBPInfoOut st' ! n ! b))"
proof -
  let ?pt = "vPoints ! ind"
  let ?cur = "curNeuriteInd st"
  obtain st1 where
    st1: "st1 = st \<lparr> ptProcessed := (ptProcessed st)[ind := True], nProcessed := nProcessed st + 1,
                vPosOut := push_back_at (vPosOut st) ?cur (coords ?pt),
                vRadOut := push_back_at (vRadOut st) ?cur (radius ?pt),
                processing_stack := (p, c) # rest \<rparr>"
    and l: "?cur < length (vPosOut st)"
    and r: "(if 2 < length (conns ?pt) then branching_point vPoints pind ind st1
             else if length (conns ?pt) = 1 then end_point vPoints st1
             else normal_point vPoints pind ind st1) = Inr st'"
    using walk_step_Inr[OF assms(1,2)] by metis
  have e: "end_point vPoints st1 = Inr st'" using r assms(3) by simp
  have v: "processing_stack st1 = (p, c) # rest" "map_of (helperMap st1) p = Some (n, b)"
    "curNeuriteInd st1 = ?cur" "vPosOut st1 ! (?cur + 1) = vPosOut st ! (?cur + 1)"
    using assms(4) by (simp_all add: st1 push_back_at_def)
  have n: "curNeuriteInd st' = ?cur + 1" "processing_stack st' = (p, c) # rest"
    "vPosOut st' ! (?cur + 1) = vPosOut st ! (?cur + 1) @ [coords (vPoints ! p)]"
    "snd (vBPInfoOut st' ! n ! b) = snd (vBPInfoOut st1 ! n ! b) @ [?cur + 1]"
    using end_point_new_neurite[OF e v(1,2)] v(3,4) by simp_all
  have "vPosOut st'' ! curNeuriteInd st' = vPosOut st' ! curNeuriteInd st' @ [coords (vPoints ! c)]"
    using assms(5) n(2) by (rule walk_step_appends)
  then show ?thesis using n by simp
qed

text \<open>
  The radii go with the positions: a pass appends the radius of its point to the current
  neurite, and a neurite that starts at a branching point starts with the radius of the
  branching point. So the radius of a parent neurite at a branch point and the first
  radius of the child are the radius of one point.
\<close>

lemma branching_point_vRadOut:
  assumes "branching_point vPoints pind ind st = Inr st'" and "n < length (vRadOut st)"
  shows "vRadOut st' ! n = vRadOut st ! n"
  using assms
  by (auto simp add: branching_point_def Let_def nth_append split: if_splits prod.splits)

lemma end_point_vRadOut:
  assumes "end_point vPoints st = Inr st'"
  shows "vRadOut st' ! curNeuriteInd st = vRadOut st ! curNeuriteInd st"
  using assms
  by (auto simp add: end_point_def Let_def push_back_at_def
      split: if_splits list.splits option.splits prod.splits)

lemma normal_point_vRadOut:
  assumes "normal_point vPoints pind ind st = Inr st'"
  shows "vRadOut st' = vRadOut st"
  using assms by (auto simp add: normal_point_def)

lemma walk_step_appends_radius:
  assumes "walk_step vPoints st = Inr st'" and "processing_stack st = (pind, ind) # stack"
  shows "vRadOut st' ! curNeuriteInd st = vRadOut st ! curNeuriteInd st @ [radius (vPoints ! ind)]"
proof -
  let ?cur = "curNeuriteInd st"
  let ?pt = "vPoints ! ind"
  obtain st1 where
    st1: "st1 = st \<lparr> ptProcessed := (ptProcessed st)[ind := True], nProcessed := nProcessed st + 1,
                vPosOut := push_back_at (vPosOut st) ?cur (coords ?pt),
                vRadOut := push_back_at (vRadOut st) ?cur (radius ?pt),
                processing_stack := stack \<rparr>"
    and r: "(if 2 < length (conns ?pt) then branching_point vPoints pind ind st1
             else if length (conns ?pt) = 1 then end_point vPoints st1
             else normal_point vPoints pind ind st1) = Inr st'"
    using walk_step_Inr[OF assms] by metis
  have c: "?cur < length (vRadOut st)"
    using assms by (simp add: walk_step_def Let_def split: if_splits)
  have v: "vRadOut st1 ! ?cur = vRadOut st ! ?cur @ [radius ?pt]" "?cur < length (vRadOut st1)"
    "curNeuriteInd st1 = ?cur"
    using c by (simp_all add: st1 push_back_at_def)
  consider "2 < length (conns ?pt)" | "length (conns ?pt) = 1"
    | "\<not> 2 < length (conns ?pt)" "length (conns ?pt) \<noteq> 1"
    by blast
  then have "vRadOut st' ! ?cur = vRadOut st1 ! ?cur"
  proof cases
    case 1
    then show ?thesis using r branching_point_vRadOut[OF _ v(2)] by simp
  next
    case 2
    then show ?thesis using r end_point_vRadOut[of vPoints st1 st'] v(3) by simp
  next
    case 3
    then show ?thesis using r normal_point_vRadOut[of vPoints pind ind st1 st'] by simp
  qed
  then show ?thesis using v(1) by simp
qed

lemma end_point_radius:
  assumes "end_point vPoints st = Inr st'" and "processing_stack st = (p, c) # rest"
    and "map_of (helperMap st) p = Some (n, b)"
  shows "vRadOut st' ! (curNeuriteInd st + 1) = vRadOut st ! (curNeuriteInd st + 1) @ [radius (vPoints ! p)]"
  using assms
  by (auto simp add: end_point_def Let_def push_back_at_def split: if_splits)

lemma walk_step_end_point_radius:
  assumes "walk_step vPoints st = Inr st'" and "processing_stack st = (pind, ind) # (p, c) # rest"
    and "length (conns (vPoints ! ind)) = 1"
    and "map_of (helperMap st) p = Some (n, b)"
  shows "vRadOut st' ! (curNeuriteInd st + 1) =
           vRadOut st ! (curNeuriteInd st + 1) @ [radius (vPoints ! p)]"
proof -
  let ?pt = "vPoints ! ind"
  let ?cur = "curNeuriteInd st"
  obtain st1 where
    st1: "st1 = st \<lparr> ptProcessed := (ptProcessed st)[ind := True], nProcessed := nProcessed st + 1,
                vPosOut := push_back_at (vPosOut st) ?cur (coords ?pt),
                vRadOut := push_back_at (vRadOut st) ?cur (radius ?pt),
                processing_stack := (p, c) # rest \<rparr>"
    and r: "(if 2 < length (conns ?pt) then branching_point vPoints pind ind st1
             else if length (conns ?pt) = 1 then end_point vPoints st1
             else normal_point vPoints pind ind st1) = Inr st'"
    using walk_step_Inr[OF assms(1,2)] by metis
  have e: "end_point vPoints st1 = Inr st'" using r assms(3) by simp
  have v: "processing_stack st1 = (p, c) # rest" "map_of (helperMap st1) p = Some (n, b)"
    "curNeuriteInd st1 = ?cur" "vRadOut st1 ! (?cur + 1) = vRadOut st ! (?cur + 1)"
    using assms(4) by (simp_all add: st1 push_back_at_def)
  show ?thesis using end_point_radius[OF e v(1,2)] v(3,4) by simp
qed

text \<open>
  The third example. The length of (1,1,1) is the double nearest to \<open>sqrt 3\<close>; the steps
  to the product of the normalised vector with itself follow.
\<close>

lemma ex_len3: "round_double (sqrt 3) = ex_len3"
proof -
  have lo: "15600926743107923 / 2 ^ 53 < sqrt 3"
    by (rule real_less_rsqrt) (simp add: power2_eq_square)
  have hi: "sqrt 3 < 15600926743107925 / 2 ^ 53"
    by (rule real_less_lsqrt) (simp_all add: power2_eq_square)
  have a: "\<bar>sqrt 3 * 2 ^ 52 - of_int 7800463371553962\<bar> < 1 / 2"
    using lo hi by (intro abs_less_iff[THEN iffD2] conjI) (simp_all add: field_simps)
  show ?thesis
    unfolding ex_len3_def using round_double_near_div[of 7800463371553962 "sqrt 3" 52] a by simp
qed

lemma ex_inv3: "round_double (1 / ex_len3) = ex_inv3"
proof -
  have a: "\<bar>1 / ex_len3 * 2 ^ 53 - of_int 5200308914369309\<bar> < 1 / 2"
    unfolding ex_len3_def by (intro abs_less_iff[THEN iffD2] conjI) (simp_all add: field_simps)
  show ?thesis
    unfolding ex_inv3_def using round_double_near_div[of 5200308914369309 "1 / ex_len3" 53] a by simp
qed

lemma ex_sq3: "round_double (ex_inv3 * ex_inv3) = ex_sq3"
proof -
  have a: "\<bar>ex_inv3 * ex_inv3 * 2 ^ 54 - of_int 6004799503160663\<bar> < 1 / 2"
    unfolding ex_inv3_def by (intro abs_less_iff[THEN iffD2] conjI) (simp_all add: field_simps)
  show ?thesis
    unfolding ex_sq3_def using round_double_near_div[of 6004799503160663 "ex_inv3 * ex_inv3" 54] a by simp
qed

lemma ex_twice_sq3: "round_double (2 * ex_sq3) = ex_twice_sq3"
proof -
  have e: "2 * ex_sq3 = of_int 6004799503160663 / 2 ^ 53" by (simp add: ex_sq3_def)
  show ?thesis
    unfolding e ex_twice_sq3_def using round_double_exact_div[of 6004799503160663 53] by simp
qed

lemma ex_dot3: "round_double (ex_twice_sq3 + ex_sq3) = ex_dot3"
proof -
  have a: "\<bar>(ex_twice_sq3 + ex_sq3) * 2 ^ 52 - of_int 4503599627370497\<bar> < 1 / 2"
    unfolding ex_twice_sq3_def ex_sq3_def
    by (intro abs_less_iff[THEN iffD2] conjI) (simp_all add: field_simps)
  show ?thesis
    unfolding ex_dot3_def
    using round_double_near_div[of 4503599627370497 "ex_twice_sq3 + ex_sq3" 52] a by simp
qed

lemma ex_doubles: "0 < ex_len3" "round_double ex_inv3 = ex_inv3" "1 < ex_dot3"
proof -
  show "0 < ex_len3" "1 < ex_dot3" by (simp_all add: ex_len3_def ex_dot3_def)
  show "round_double ex_inv3 = ex_inv3"
    unfolding ex_inv3_def using round_double_exact_div[of 5200308914369309 53] by simp
qed

text \<open>The normalised direction from (1,1,1) to (2,2,2), and from (2,2,2) to (3,3,3).\<close>

lemma ex_diag_normalize: "VecNormalize_d (1, 1, 1) = (ex_inv3, ex_inv3, ex_inv3)"
proof -
  have "VecLength_d (1, 1, 1) = ex_len3"
    by (simp add: VecLength_d_def d_ops ex_len3)
  then show ?thesis
    by (simp add: VecNormalize_d_def d_ops ex_doubles ex_inv3)
qed

lemma ex_diag_product: "VecProd_d (ex_inv3, ex_inv3, ex_inv3) (ex_inv3, ex_inv3, ex_inv3) = ex_dot3"
  by (simp add: d_ops ex_sq3 ex_twice_sq3 ex_dot3)

text \<open>The normalised direction from (2,2,2) to (3,1,2) and its product with the other.\<close>

lemma ex_diag_normalize_perp:
  "VecNormalize_d (1, - 1, 0) =
     (round_double (1 / round_double (sqrt 2)), - round_double (1 / round_double (sqrt 2)), 0)"
proof -
  have l: "VecLength_d (1, - 1, 0) = round_double (sqrt 2)"
    by (simp add: VecLength_d_def d_ops)
  have "0 < round_double (sqrt 2)" by (rule round_double_pos) simp
  then show ?thesis
    by (simp add: VecNormalize_d_def Let_def l d_ops round_double_idem)
qed

lemma ex_diag_product_perp: "VecProd_d (b, - b, 0) (a, a, a) = 0"
  by (simp add: d_ops)

lemma ex_diag_nth:
  "ex_diag ! 0 = ex_pt SWC_SOMA (0, 0, 0) [1]" "ex_diag ! Suc 0 = ex_pt SWC_DEND (1, 1, 1) [0, 2]"
  "ex_diag ! 2 = ex_pt SWC_DEND (2, 2, 2) [1, 3, 4]" "ex_diag ! 3 = ex_pt SWC_DEND (3, 3, 3) [2]"
  "ex_diag ! 4 = ex_pt SWC_DEND (3, 1, 2) [2]" "length ex_diag = 5"
  by (simp_all add: ex_diag_def)

text \<open>
  The angle of the straight child is NaN, because the product is above 1; the angle of
  the child at a right angle is the double of \<open>pi / 2\<close>.
\<close>

lemma ex_diag_angles:
  "branch_angle ex_diag (ex_pt ty (2, 2, 2) cs) (ex_inv3, ex_inv3, ex_inv3) 3 = NaN"
  "branch_angle ex_diag (ex_pt ty (2, 2, 2) cs) (ex_inv3, ex_inv3, ex_inv3) 4 = Fin (round_double (pi / 2))"
proof -
  have a: "VecSubtract_d (3, 3, 3) (2, 2, 2) = (1, 1, 1)" "VecSubtract_d (3, 1, 2) (2, 2, 2) = (1, - 1, 0)"
    by (simp_all add: d_ops)
  show "branch_angle ex_diag (ex_pt ty (2, 2, 2) cs) (ex_inv3, ex_inv3, ex_inv3) 3 = NaN"
    using ex_doubles(3)
    by (simp add: branch_angle_def ex_diag_nth ex_pt_sel a ex_diag_normalize ex_diag_product d_acos_def)
  show "branch_angle ex_diag (ex_pt ty (2, 2, 2) cs) (ex_inv3, ex_inv3, ex_inv3) 4 = Fin (round_double (pi / 2))"
    by (simp add: branch_angle_def ex_diag_nth ex_pt_sel a ex_diag_normalize_perp ex_diag_product_perp
        d_acos_0)
qed

lemma ex_diag_select:
  "select_branch ex_diag (ex_pt SWC_DEND (2, 2, 2) [1, 3, 4]) 1 (ex_inv3, ex_inv3, ex_inv3) 0 [1, 3, 4]
     (0, 0, PInf) = (0, 2, Fin (round_double (pi / 2)))"
  by (simp add: ex_diag_angles)

text \<open>The four passes of the walk through the third example, and its decomposition.\<close>

lemma ex_diag_step1: "walk_step ex_diag ex_w0 = Inr ex_d1"
  by (simp add: walk_step_def normal_point_def ex_w0_def ex_d1_def ex_diag_nth ex_pt_sel Let_def
      push_back_at_def)

lemma ex_diag_step2: "walk_step ex_diag ex_d1 = Inr ex_d2"
proof -
  have u: "[0..<3] = [0, 1, 2]" by (simp add: upt_rec)
  have a: "VecSubtract_d (2, 2, 2) (1, 1, 1) = (1, 1, 1)" by (simp add: d_ops)
  show ?thesis
    by (simp add: walk_step_def branching_point_def ex_w0_def ex_d1_def ex_d2_def ex_diag_nth
        ex_pt_sel Let_def push_back_at_def a ex_diag_normalize ex_diag_angles u)
qed

lemma ex_diag_step3: "walk_step ex_diag ex_d2 = Inr ex_d3"
  by (simp add: walk_step_def end_point_def ex_w0_def ex_d2_def ex_d3_def ex_diag_nth ex_pt_sel
      Let_def push_back_at_def)

lemma ex_diag_step4: "walk_step ex_diag ex_d3 = Inr ex_d4"
  by (simp add: walk_step_def end_point_def ex_w0_def ex_d3_def ex_d4_def ex_diag_nth ex_pt_sel
      Let_def push_back_at_def)

lemma ex_diag_stacks:
  "processing_stack ex_d1 \<noteq> []" "processing_stack ex_d2 \<noteq> []" "processing_stack ex_d3 \<noteq> []"
  "processing_stack ex_d4 = []"
  by (simp_all add: ex_w0_def ex_d1_def ex_d2_def ex_d3_def ex_d4_def)

lemma ex_diag_walk: "walk_loop 9 ex_diag ex_w0 = Some (Inr ex_d4)"
  by (simp add: walk_loop_numeral ex_stacks ex_diag_stacks ex_diag_step1 ex_diag_step2 ex_diag_step3
      ex_diag_step4)

lemma ex_diag_soma_loop:
  "soma_loop 9 ex_diag [(no_parent, 0)] []
     \<lparr> vSomaPoints = [ex_pt SWC_SOMA (0, 0, 0) [Suc 0]], vPosOut = [], vRadOut = [], vBPInfoOut = [],
       vRootNeuriteIndsOut = [], ptProcessed = [False, False, False, False, False], nProcessed = 0,
       curNeuriteInd = 0 \<rparr>
   = Some (Inr ([(0, Suc 0)], 
     \<lparr> vSomaPoints = [ex_pt SWC_SOMA (0, 0, 0) [Suc 0]], vPosOut = [], vRadOut = [], vBPInfoOut = [],
       vRootNeuriteIndsOut = [], ptProcessed = [True, False, False, False, False], nProcessed = Suc 0, curNeuriteInd = 0 \<rparr>))"
  by (simp add: soma_loop_numeral ex_diag_nth ex_pt_sel Let_def no_parent_neq)

lemma ex_diag_find_soma: "find_soma ex_diag [False, False, False, False, False] = Some 0"
  by (simp add: find_soma_def ex_diag_def ex_pt_sel upt_rec)

lemma ex_diag_decomposition:
  "convert_pointlist_to_neuritelist 10 ex_diag [] = Some (Inr ex_diag_lists)"
proof -
  have w: "\<lparr> vSomaPoints = [ex_pt SWC_SOMA (0, 0, 0) [Suc 0]], vPosOut = [[]], vRadOut = [[]],
             vBPInfoOut = [[]], vRootNeuriteIndsOut = [0],
             ptProcessed = [True, False, False, False, False], nProcessed = Suc 0, curNeuriteInd = 0,
             processing_stack = [(0, Suc 0)], helperMap = [] \<rparr> = ex_w0"
    by (simp add: ex_w0_def)
  have r: "convert_loop 9 ex_diag
             \<lparr> vSomaPoints = vSomaPoints ex_d4, vPosOut = vPosOut ex_d4, vRadOut = vRadOut ex_d4,
               vBPInfoOut = vBPInfoOut ex_d4, vRootNeuriteIndsOut = vRootNeuriteIndsOut ex_d4,
               ptProcessed = ptProcessed ex_d4, nProcessed = nProcessed ex_d4,
               curNeuriteInd = Suc (curNeuriteInd ex_d4) \<rparr> = Some (Inr ex_diag_lists)"
    by (simp add: convert_loop_numeral ex_d4_def ex_w0_def ex_diag_lists_def ex_diag_nth)
  show ?thesis
    unfolding convert_pointlist_to_neuritelist_def
    by (subst convert_loop_numeral)
      (simp add: ex_diag_nth ex_replicate ex_diag_find_soma ex_diag_soma_loop w ex_diag_walk r)
qed

text \<open>
  Claim C9 at the third example. The child at (3,3,3) lies in the incoming direction,
  the child at (3,1,2) at a right angle to it, and the straight child is the first of the
  two in the connection list. The product of the normalised direction with itself is
  rounded to \<open>1 + 2^-52\<close>, \<^verbatim>\<open>acos\<close> gives NaN, and \<^verbatim>\<open>angle < minAngle\<close> is false for the
  straight child: the pass of the walk at the branching point puts the child at a right
  angle on top of the stack, and in the lists of the decomposition the neurite goes on
  to (3,1,2), while (3,3,3) is a neurite of its own.
\<close>

theorem straight_child_does_not_continue:
  "conns (ex_diag ! 2) = [1, 3, 4] \<and>
   coords (ex_diag ! 1) = (1, 1, 1) \<and> coords (ex_diag ! 2) = (2, 2, 2) \<and>
   coords (ex_diag ! 3) = (3, 3, 3) \<and> coords (ex_diag ! 4) = (3, 1, 2) \<and>
   VecNormalize_d (VecSubtract_d (coords (ex_diag ! 2)) (coords (ex_diag ! 1))) = (ex_inv3, ex_inv3, ex_inv3) \<and>
   VecProd_d (ex_inv3, ex_inv3, ex_inv3) (ex_inv3, ex_inv3, ex_inv3) = 1 + 1 / 2 ^ 52 \<and>
   branch_angle ex_diag (ex_diag ! 2) (ex_inv3, ex_inv3, ex_inv3) 3 = NaN \<and>
   branch_angle ex_diag (ex_diag ! 2) (ex_inv3, ex_inv3, ex_inv3) 4 = Fin (round_double (pi / 2)) \<and>
   walk_step ex_diag ex_d1 = Inr ex_d2 \<and> processing_stack ex_d2 = [(2, 4), (2, 3)] \<and>
   convert_pointlist_to_neuritelist 10 ex_diag [] = Some (Inr ex_diag_lists) \<and>
   vPosOut ex_diag_lists = [[(1, 1, 1), (2, 2, 2), (3, 1, 2)], [(2, 2, 2), (3, 3, 3)]]"
proof -
  have c: "conns (ex_diag ! 2) = [1, 3, 4]"
    "coords (ex_diag ! 1) = (1, 1, 1)" "coords (ex_diag ! 2) = (2, 2, 2)"
    "coords (ex_diag ! 3) = (3, 3, 3)" "coords (ex_diag ! 4) = (3, 1, 2)"
    by (simp_all add: ex_diag_nth ex_pt_sel)
  have n: "VecNormalize_d (VecSubtract_d (coords (ex_diag ! 2)) (coords (ex_diag ! 1))) = (ex_inv3, ex_inv3, ex_inv3)"
    by (simp add: ex_diag_nth ex_pt_sel d_ops ex_diag_normalize)
  have p: "VecProd_d (ex_inv3, ex_inv3, ex_inv3) (ex_inv3, ex_inv3, ex_inv3) = 1 + 1 / 2 ^ 52"
    unfolding ex_diag_product by (simp add: ex_dot3_def)
  have a: "branch_angle ex_diag (ex_diag ! 2) (ex_inv3, ex_inv3, ex_inv3) 3 = NaN"
    "branch_angle ex_diag (ex_diag ! 2) (ex_inv3, ex_inv3, ex_inv3) 4 = Fin (round_double (pi / 2))"
    by (simp_all add: ex_diag_nth(3) ex_diag_angles)
  have s: "processing_stack ex_d2 = [(2, 4), (2, 3)]"
    "vPosOut ex_diag_lists = [[(1, 1, 1), (2, 2, 2), (3, 1, 2)], [(2, 2, 2), (3, 3, 3)]]"
    by (simp_all add: ex_d2_def ex_w0_def ex_diag_lists_def)
  show ?thesis
    using c n p a s ex_diag_step2 ex_diag_decomposition by simp
qed

text \<open>
  What a pass of the walk does at a branching point whose connection list holds the
  parent and no point twice, when the angle of some child is a number: the child \<open>k\<close>
  taken has a number as its angle, no child has a smaller angle, and no child before it in
  the connection list has the same angle. The current neurite does not change and this
  child is put on top of the stack, so that the next pass appends it to the current
  neurite; all other children lie below it on the stack, and the helper map has the
  branching point.
\<close>

lemma least_angle_child_continues:
  assumes "processing_stack st = (pind, ind) # stack"
    and "ind < length vPoints" and "ind < length (ptProcessed st)"
    and "pt = vPoints ! ind" and "type pt \<noteq> SWC_SOMA"
    and "cur = curNeuriteInd st"
    and "cur < length (vPosOut st)" and "cur < length (vRadOut st)" and "cur < length (vBPInfoOut st)"
    and "2 < length (conns pt)" and "distinct (conns pt)" and "pind \<in> set (conns pt)"
    and "pind < length vPoints" and "\<forall>c \<in> set (conns pt). c < length vPoints"
    and "parentDir = VecNormalize_d (VecSubtract_d (coords pt) (coords (vPoints ! pind)))"
    and "\<exists>c \<in> set (conns pt). c \<noteq> pind \<and> flt (branch_angle vPoints pt parentDir c) PInf"
  shows "\<exists>st' k. walk_step vPoints st = Inr st' \<and>
           k < length (conns pt) \<and> conns pt ! k \<noteq> pind \<and>
           flt (branch_angle vPoints pt parentDir (conns pt ! k)) PInf \<and>
           (\<forall>j < length (conns pt). conns pt ! j \<noteq> pind \<longrightarrow>
                \<not> flt (branch_angle vPoints pt parentDir (conns pt ! j))
                       (branch_angle vPoints pt parentDir (conns pt ! k))) \<and>
           (\<forall>j < k. conns pt ! j \<noteq> pind \<longrightarrow>
                branch_angle vPoints pt parentDir (conns pt ! j)
                  \<noteq> branch_angle vPoints pt parentDir (conns pt ! k)) \<and>
           curNeuriteInd st' = cur \<and>
           processing_stack st' =
             (ind, conns pt ! k) #
             rev (map (Pair ind) (filter (\<lambda>c. c \<noteq> pind \<and> c \<noteq> conns pt ! k) (conns pt))) @ stack \<and>
           vPosOut st' ! cur = vPosOut st ! cur @ [coords pt] \<and>
           vBPInfoOut st' ! cur = vBPInfoOut st ! cur @ [(length (vPosOut st ! cur), [])] \<and>
           map_of (helperMap st') ind = Some (cur, length (vBPInfoOut st ! cur)) \<and>
           (\<forall>st''. walk_step vPoints st' = Inr st'' \<longrightarrow>
                vPosOut st'' ! cur = vPosOut st' ! cur @ [coords (vPoints ! (conns pt ! k))])"
proof -
  let ?ang = "branch_angle vPoints pt parentDir"
  obtain pd k m where sel: "select_branch vPoints pt pind parentDir 0 (conns pt) (0, 0, PInf) = (pd, k, m)"
    by (cases "select_branch vPoints pt pind parentDir 0 (conns pt) (0, 0, PInf)") auto
  have min: "m \<noteq> NaN \<and>
         (\<forall>j < length ([] @ conns pt). ([] @ conns pt) ! j \<noteq> pind \<longrightarrow> \<not> flt (?ang (([] @ conns pt) ! j)) m) \<and>
         (m = PInf \<or>
          (k < length ([] @ conns pt) \<and> ([] @ conns pt) ! k \<noteq> pind \<and> ?ang (([] @ conns pt) ! k) = m \<and>
           (\<forall>j < k. ([] @ conns pt) ! j \<noteq> pind \<longrightarrow> ?ang (([] @ conns pt) ! j) \<noteq> m)))"
    by (rule select_branch_min[OF _ _ _ _ sel]) simp_all
  then have m1: "m \<noteq> NaN"
    and m2: "\<forall>j < length (conns pt). conns pt ! j \<noteq> pind \<longrightarrow> \<not> flt (?ang (conns pt ! j)) m"
    and m3: "m = PInf \<or>
          (k < length (conns pt) \<and> conns pt ! k \<noteq> pind \<and> ?ang (conns pt ! k) = m \<and>
           (\<forall>j < k. conns pt ! j \<noteq> pind \<longrightarrow> ?ang (conns pt ! j) \<noteq> m))"
    by simp_all
  obtain c where c: "c \<in> set (conns pt)" "c \<noteq> pind" "flt (?ang c) PInf"
    using assms(16) by blast
  obtain j where j: "j < length (conns pt)" "conns pt ! j = c"
    using c(1) by (auto simp add: in_set_conv_nth)
  have "\<not> flt (?ang c) m" using m2 j c(2) by blast
  then have mp: "m \<noteq> PInf" using c(3) by auto
  then have k: "k < length (conns pt)" "conns pt ! k \<noteq> pind" "?ang (conns pt ! k) = m"
    "\<forall>j < k. conns pt ! j \<noteq> pind \<longrightarrow> ?ang (conns pt ! j) \<noteq> m"
    using m3 by simp_all
  have fin: "flt (?ang (conns pt ! k)) PInf"
    unfolding k(3) using m1 mp by (rule flt_PInf)
  have "pind \<in> set ([] @ conns pt) \<longrightarrow> pd < length ([] @ conns pt) \<and> ([] @ conns pt) ! pd = pind"
    by (rule select_branch_parent[OF _ _ sel]) simp_all
  then have pd: "pd < length (conns pt)" "conns pt ! pd = pind" using assms(12) by simp_all
  obtain st' where st': "walk_step vPoints st = Inr st'" "curNeuriteInd st' = cur"
    "processing_stack st' =
             (ind, conns pt ! k) #
             rev (map (Pair ind) (map (\<lambda>i. conns pt ! i)
                    (filter (\<lambda>i. \<not> (i = pd \<or> i = k)) [0..<length (conns pt)]))) @ stack"
    "vPosOut st' ! cur = vPosOut st ! cur @ [coords pt]"
    "vBPInfoOut st' ! cur = vBPInfoOut st ! cur @ [(length (vPosOut st ! cur), [])]"
    "helperMap st' =
       (if filter (\<lambda>i. \<not> (i = pd \<or> i = k)) [0..<length (conns pt)] = [] then helperMap st
        else (ind, cur, length (vBPInfoOut st ! cur)) # helperMap st)"
    using walk_step_branch[OF assms(1-10) assms(13,14) sel[unfolded assms(15)]] by blast
  have hm: "map_of (helperMap st') ind = Some (cur, length (vBPInfoOut st ! cur))"
    unfolding st'(6) using two_indices_leave_one[OF assms(10), of pd k] by simp
  have stack: "processing_stack st' =
             (ind, conns pt ! k) #
             rev (map (Pair ind) (filter (\<lambda>c. c \<noteq> pind \<and> c \<noteq> conns pt ! k) (conns pt))) @ stack"
    unfolding st'(3) filter_indices_distinct[OF assms(11) pd(1) k(1)] pd(2) by (rule refl)
  have nxt: "vPosOut st'' ! cur = vPosOut st' ! cur @ [coords (vPoints ! (conns pt ! k))]"
    if "walk_step vPoints st' = Inr st''" for st''
    using walk_step_appends[OF that stack] st'(2) by simp
  show ?thesis
  proof (intro exI[of _ st'] exI[of _ k] conjI)
    show "walk_step vPoints st = Inr st'" by (rule st'(1))
    show "k < length (conns pt)" by (rule k(1))
    show "conns pt ! k \<noteq> pind" by (rule k(2))
    show "flt (?ang (conns pt ! k)) PInf" by (rule fin)
    show "\<forall>j < length (conns pt). conns pt ! j \<noteq> pind \<longrightarrow>
            \<not> flt (?ang (conns pt ! j)) (?ang (conns pt ! k))"
      unfolding k(3) by (rule m2)
    show "\<forall>j < k. conns pt ! j \<noteq> pind \<longrightarrow> ?ang (conns pt ! j) \<noteq> ?ang (conns pt ! k)"
      unfolding k(3) by (rule k(4))
    show "curNeuriteInd st' = cur" by (rule st'(2))
    show "processing_stack st' =
             (ind, conns pt ! k) #
             rev (map (Pair ind) (filter (\<lambda>c. c \<noteq> pind \<and> c \<noteq> conns pt ! k) (conns pt))) @ stack"
      by (rule stack)
    show "vPosOut st' ! cur = vPosOut st ! cur @ [coords pt]" by (rule st'(4))
    show "vBPInfoOut st' ! cur = vBPInfoOut st ! cur @ [(length (vPosOut st ! cur), [])]"
      by (rule st'(5))
    show "map_of (helperMap st') ind = Some (cur, length (vBPInfoOut st ! cur))" by (rule hm)
    show "\<forall>st''. walk_step vPoints st' = Inr st'' \<longrightarrow>
            vPosOut st'' ! cur = vPosOut st' ! cur @ [coords (vPoints ! (conns pt ! k))]"
      using nxt by blast
  qed
qed

end
